(* ===== verification/Outbox_Prelude.thy ===== *)
theory Outbox_Prelude
  imports Main "HOL-Library.List_Lexorder" "HOL-Library.Char_ord" "HOL-Library.Product_Lexorder"
begin

text \<open>
  Shared vocabulary of the development: Go's durations, instants and fixed-width integers, the
  few string functions of Go's standard library the program uses, PostgreSQL's intervals, and
  generic list lemmas.

  \<^item> A \<open>time.Duration\<close> is an \<open>int\<close> number of nanoseconds; where the code's arithmetic could
    leave 64 bits the wrap-around is written out with \<open>wrap64\<close>.
  \<^item> A \<open>time.Time\<close> is an \<open>int\<close> number of nanoseconds since January 1, year 1, so that Go's zero
    time is \<open>0\<close> and \<open>IsZero\<close> is a test against it.
  \<^item> A \<open>TIMESTAMPTZ\<close> is an \<open>int\<close> number of microseconds, PostgreSQL's resolution.
  \<^item> Strings and byte slices are \<open>string\<close>, whose characters are bytes.
\<close>

named_theorems stmt_defs \<open>definitions of the row predicates and row updates of SQL statements\<close>
named_theorems inv_defs \<open>definitions of well-formedness predicates\<close>

type_synonym duration = int
type_synonym go_time = int
type_synonym timestamptz = int
type_synonym bytes = string
type_synonym uuid = string

subsection \<open>Integers of a fixed width\<close>

definition wrap64 :: "int \<Rightarrow> int" where
  "wrap64 x = (x + 2 ^ 63) mod 2 ^ 64 - 2 ^ 63"

definition max_int32 :: int where
  "max_int32 = 2 ^ 31 - 1"

lemma wrap64_id [simp]: "- (2 ^ 63) \<le> x \<Longrightarrow> x < 2 ^ 63 \<Longrightarrow> wrap64 x = x"
  by (simp add: wrap64_def)

lemma wrap64_range: "- (2 ^ 63) \<le> wrap64 x \<and> wrap64 x < 2 ^ 63"
proof -
  have "0 \<le> (x + 2 ^ 63) mod 2 ^ 64" and "(x + 2 ^ 63) mod 2 ^ 64 < (2 ^ 64 :: int)"
    by simp_all
  then show ?thesis by (simp add: wrap64_def)
qed

subsection \<open>Durations, instants and intervals\<close>

definition millisecond :: duration where
  "millisecond = 1000000"

definition second :: duration where
  "second = 1000000000"

definition zero_time :: go_time where
  "zero_time = 0"

definition is_zero_time :: "go_time \<Rightarrow> bool" where
  "is_zero_time t \<longleftrightarrow> t = zero_time"

text \<open>
  \<open>make_interval(secs => d.Seconds())\<close>: PostgreSQL rounds a number of seconds to the nearest
  microsecond, and \<open>Duration.Seconds\<close> is the duration divided by \<open>10^9\<close>.  The model rounds the
  exact quotient, ties upwards; the double-precision error of the quotient is below the
  microsecond for every duration under a century.
\<close>

definition make_interval :: "duration \<Rightarrow> timestamptz" where
  "make_interval d = (d + 500) div 1000"

lemma make_interval_nonneg [simp]: "0 \<le> d \<Longrightarrow> 0 \<le> make_interval d"
  by (simp add: make_interval_def)

lemma make_interval_pos: "500 \<le> d \<Longrightarrow> 0 < make_interval d"
  by (simp add: make_interval_def pos_imp_zdiv_pos_iff)

lemma make_interval_mono: "d \<le> d' \<Longrightarrow> make_interval d \<le> make_interval d'"
  by (simp add: make_interval_def zdiv_mono1)

subsection \<open>Strings\<close>

text \<open>\<open>strconv.Itoa\<close>.\<close>

fun nat_digits :: "nat \<Rightarrow> string" where
  "nat_digits n =
     (if n < 10 then [char_of (48 + n)]
      else nat_digits (n div 10) @ [char_of (48 + n mod 10)])"

declare nat_digits.simps [simp del]

definition itoa :: "int \<Rightarrow> string" where
  "itoa n = (if n < 0 then CHR ''-'' # nat_digits (nat (- n)) else nat_digits (nat n))"

text \<open>
  \<open>strings.ToLower\<close> and \<open>strings.ToUpper\<close> on ASCII.  Names and settings are taken to be ASCII: Go also folds
  letters outside it.
\<close>

definition is_upper :: "char \<Rightarrow> bool" where
  "is_upper c \<longleftrightarrow> CHR ''A'' \<le> c \<and> c \<le> CHR ''Z''"

definition is_lower :: "char \<Rightarrow> bool" where
  "is_lower c \<longleftrightarrow> CHR ''a'' \<le> c \<and> c \<le> CHR ''z''"

definition is_digit :: "char \<Rightarrow> bool" where
  "is_digit c \<longleftrightarrow> CHR ''0'' \<le> c \<and> c \<le> CHR ''9''"

definition lower_char :: "char \<Rightarrow> char" where
  "lower_char c = (if is_upper c then char_of (of_char c + (32 :: nat)) else c)"

definition upper_char :: "char \<Rightarrow> char" where
  "upper_char c = (if is_lower c then char_of (of_char c - (32 :: nat)) else c)"

definition to_lower :: "string \<Rightarrow> string" where
  "to_lower s = map lower_char s"

definition to_upper :: "string \<Rightarrow> string" where
  "to_upper s = map upper_char s"

text \<open>\<open>strings.TrimSpace\<close>: the white space of ASCII, and that of Unicode in its UTF-8 encoding.\<close>

definition is_space :: "char \<Rightarrow> bool" where
  "is_space c \<longleftrightarrow> c \<in> {CHR '' '', CHR 0x09, CHR 0x0A, CHR 0x0B, CHR 0x0C, CHR 0x0D}"

text \<open>\<open>strings.HasPrefix\<close>, and \<open>strings.Join\<close>.\<close>

definition has_prefix :: "string \<Rightarrow> string \<Rightarrow> bool" where
  "has_prefix s p \<longleftrightarrow> take (length p) s = p"

definition wide_spaces :: "string list" where
  "wide_spaces =
     [[CHR 0xC2, CHR 0x85], [CHR 0xC2, CHR 0xA0], [CHR 0xE1, CHR 0x9A, CHR 0x80]]
     @ map (\<lambda>n. [CHR 0xE2, CHR 0x80, char_of (n :: nat)]) [0x80..<0x8B]
     @ [[CHR 0xE2, CHR 0x80, CHR 0xA8], [CHR 0xE2, CHR 0x80, CHR 0xA9], [CHR 0xE2, CHR 0x80, CHR 0xAF],
        [CHR 0xE2, CHR 0x81, CHR 0x9F], [CHR 0xE3, CHR 0x80, CHR 0x80]]"

text \<open>A byte of an ASCII character has its top bit clear; the first argument is the encodings of the wide ones.\<close>

function trim_left :: "string list \<Rightarrow> string \<Rightarrow> string" where
  "trim_left wide [] = []"
| "trim_left wide (c # s) =
     (if is_space c then trim_left wide s
      else if \<not> digit7 c then c # s
      else case find (\<lambda>p. p \<noteq> [] \<and> has_prefix (c # s) p) wide of
             None \<Rightarrow> c # s
           | Some p \<Rightarrow> trim_left wide (drop (length p) (c # s)))"
  by pat_completeness auto

termination
proof (relation "measure (\<lambda>(wide, s). length s)")
  fix wide c s p assume "find (\<lambda>p. p \<noteq> [] \<and> has_prefix (c # s) p) wide = Some p"
  then have "p \<noteq> []" by (auto simp: find_Some_iff)
  then show "((wide, drop (length p) (c # s)), wide, c # s) \<in> measure (\<lambda>(wide, s). length s)" by (cases p) simp_all
qed simp_all

definition trim_space :: "string \<Rightarrow> string" where
  "trim_space s = rev (trim_left (map rev wide_spaces) (rev (trim_left wide_spaces s)))"

fun join_with :: "string \<Rightarrow> string list \<Rightarrow> string" where
  "join_with sep [] = []"
| "join_with sep [s] = s"
| "join_with sep (s # ss) = s @ sep @ join_with sep ss"

text \<open>A number padded with zeros to a width.\<close>

definition zero_pad :: "nat \<Rightarrow> string \<Rightarrow> string" where
  "zero_pad n s = replicate (n - length s) (CHR ''0'') @ s"

text \<open>
  \<open>%q\<close>: quotation marks and backslashes are escaped, control characters written out.  Text outside ASCII is
  taken to be printable.
\<close>

definition hex_lower :: "nat \<Rightarrow> char" where
  "hex_lower n = (if n < 10 then char_of (48 + n) else char_of (87 + n))"

definition quote_char :: "char \<Rightarrow> string" where
  "quote_char c =
     (let n = (of_char c :: nat); bs = CHR 0x5C in
      if c = CHR 0x22 \<or> c = bs then [bs, c]
      else if n = 7 then [bs, CHR ''a''] else if n = 8 then [bs, CHR ''b''] else if n = 9 then [bs, CHR ''t'']
      else if n = 10 then [bs, CHR ''n''] else if n = 11 then [bs, CHR ''v''] else if n = 12 then [bs, CHR ''f'']
      else if n = 13 then [bs, CHR ''r'']
      else if n < 32 \<or> n = 127 then [bs, CHR ''x'', hex_lower (n div 16), hex_lower (n mod 16)]
      else [c])"

definition go_quote :: "string \<Rightarrow> string" where
  "go_quote s = CHR 0x22 # concat (map quote_char s) @ [CHR 0x22]"

lemma trim_space_id: "\<forall>c \<in> set s. \<not> is_space c \<and> \<not> digit7 c \<Longrightarrow> trim_space s = s"
proof -
  have "trim_left wide xs = xs" if "\<forall>c \<in> set xs. \<not> is_space c \<and> \<not> digit7 c" for wide xs
    using that by (cases xs) simp_all
  then show "\<forall>c \<in> set s. \<not> is_space c \<and> \<not> digit7 c \<Longrightarrow> trim_space s = s" by (simp add: trim_space_def)
qed

lemma nat_digits_nonempty [simp]: "nat_digits n \<noteq> []"
  by (subst nat_digits.simps) simp

lemma has_prefix_append [simp]: "has_prefix (p @ s) p"
  by (simp add: has_prefix_def)

lemma has_prefix_iff: "has_prefix s p \<longleftrightarrow> (\<exists>r. s = p @ r)"
  by (metis append_eq_conv_conj has_prefix_def append_take_drop_id)

subsection \<open>Lists\<close>

text \<open>\<open>xs[i] = v\<close> on every index of \<open>is\<close>, the values taken from a function of the index.\<close>

lemma set_take_sort_subset: "set (take n (sort_key f xs)) \<subseteq> set xs"
  using set_take_subset [of n "sort_key f xs"] by simp

lemma distinct_map_take_sort:
  "distinct (map g xs) \<Longrightarrow> distinct (map g (take n (sort_key f xs)))"
  by (simp add: distinct_map distinct_take inj_on_subset [OF _ set_take_sort_subset])

lemma length_take_sort: "length (take n (sort_key f xs)) = min n (length xs)"
  by simp

text \<open>
  The first \<open>n\<close> elements of a sorted list are its \<open>n\<close> least: whatever was left out is not
  smaller than anything that was taken.
\<close>

lemma take_sort_least:
  assumes "x \<in> set (take n (sort_key f xs))" and "y \<in> set xs"
    and "y \<notin> set (take n (sort_key f xs))"
  shows "f x \<le> f y"
proof -
  let ?s = "sort_key f xs"
  have "y \<in> set ?s" using assms(2) by simp
  then have "y \<in> set (drop n ?s)"
    using assms(3) append_take_drop_id [of n ?s] by (metis UnE set_append)
  moreover have "sorted (map f (take n ?s @ drop n ?s))" by simp
  ultimately show ?thesis
    using assms(1) by (auto simp only: map_append sorted_append set_map)
qed

lemma distinct_map_inj:
  "distinct (map f xs) \<Longrightarrow> x \<in> set xs \<Longrightarrow> y \<in> set xs \<Longrightarrow> f x = f y \<Longrightarrow> x = y"
  by (metis distinct_map inj_onD)

lemma length_filter_le_disj:
  assumes "\<And>x. x \<in> set xs \<Longrightarrow> \<not> (P x \<and> Q x)"
  shows "length (filter P xs) + length (filter Q xs) = length (filter (\<lambda>x. P x \<or> Q x) xs)"
  using assms by (induction xs) auto

lemma find_Some_mem: "find P xs = Some x \<Longrightarrow> x \<in> set xs \<and> P x"
  by (auto simp: find_Some_iff)

end
