(* ===== verification/Go_Errors.thy ===== *)
theory Go_Errors
  imports Outbox_Prelude
begin

text \<open>
  Go's error values as the program uses them, and \<open>internal/core/errors.go\<close>: the classification
  of a publish failure as permanent, unavailable or neither.

  An error is a tree: \<open>fmt.Errorf\<close> with \<open>%w\<close> and the two wrapper types have one child,
  \<open>errors.Join\<close> has several.  \<open>errors.As\<close> and \<open>errors.Is\<close> visit that tree depth first, node
  before children.  The leaves are the sentinel errors and the error types of the client
  libraries that the drivers inspect; a leaf of a library carries its text.
\<close>

datatype err =
    ErrorString string
  | Errorf string err string
  | JoinError "err list"
  | PermanentError string "err option"
  | UnavailableError string "err option"
  | ErrUnknownStream
  | ErrUnknownDriver
  | ErrLeaseLost
  | ErrChecksumMismatch
  | Canceled
  | DeadlineExceeded
  | KafkaError int string
  | PgError string string
  | ConnectError string
  | NetError string
  | AmqpErrClosed
  | ErrNotConnected
  | IoEOF
  | IoUnexpectedEOF

subsection \<open>Text\<close>

text \<open>The \<open>Error()\<close> method of each kind of error value.\<close>

fun err_text :: "err \<Rightarrow> string" where
  "err_text (ErrorString s) = s"
| "err_text (Errorf pre e post) = pre @ err_text e @ post"
| "err_text (JoinError es) = join_with [CHR 0x0A] (map err_text es)"
| "err_text (PermanentError reason None) = ''permanent: '' @ reason"
| "err_text (PermanentError reason (Some e)) = ''permanent ('' @ reason @ ''): '' @ err_text e"
| "err_text (UnavailableError reason None) = ''unavailable: '' @ reason"
| "err_text (UnavailableError reason (Some e)) =
     ''unavailable ('' @ reason @ ''): '' @ err_text e"
| "err_text ErrUnknownStream = ''unknown stream''"
| "err_text ErrUnknownDriver = ''unknown driver''"
| "err_text ErrLeaseLost = ''lease lost''"
| "err_text ErrChecksumMismatch = ''migration file changed after it was applied''"
| "err_text Canceled = ''context canceled''"
| "err_text DeadlineExceeded = ''context deadline exceeded''"
| "err_text (KafkaError c s) = s"
| "err_text (PgError c s) = s"
| "err_text (ConnectError s) = s"
| "err_text (NetError s) = s"
| "err_text AmqpErrClosed = ''Exception (504) Reason: \"channel/connection is not open\"''"
| "err_text ErrNotConnected = ''rabbitmq: not connected''"
| "err_text IoEOF = ''EOF''"
| "err_text IoUnexpectedEOF = ''unexpected EOF''"

subsection \<open>The tree\<close>

fun err_nodes :: "err \<Rightarrow> err list" where
  "err_nodes (Errorf pre e post) = Errorf pre e post # err_nodes e"
| "err_nodes (JoinError es) = JoinError es # concat (map err_nodes es)"
| "err_nodes (PermanentError reason (Some e)) = PermanentError reason (Some e) # err_nodes e"
| "err_nodes (UnavailableError reason (Some e)) = UnavailableError reason (Some e) # err_nodes e"
| "err_nodes e = [e]"

text \<open>\<open>errors.As\<close> with a predicate for the target type, and \<open>errors.Is\<close> for a sentinel.\<close>

definition errors_as :: "(err \<Rightarrow> bool) \<Rightarrow> err \<Rightarrow> err option" where
  "errors_as P e = find P (err_nodes e)"

definition errors_is :: "err \<Rightarrow> err \<Rightarrow> bool" where
  "errors_is e target \<longleftrightarrow> target \<in> set (err_nodes e)"

text \<open>\<open>errors.Join\<close> drops the nil errors and is nil when nothing is left.\<close>

definition errors_join :: "err option list \<Rightarrow> err option" where
  "errors_join es =
     (case List.map_filter (\<lambda>x. x) es of [] \<Rightarrow> None | ds \<Rightarrow> Some (JoinError ds))"

subsection \<open>Classification\<close>

fun is_permanent_node :: "err \<Rightarrow> bool" where
  "is_permanent_node (PermanentError reason e) = True"
| "is_permanent_node e = False"

fun is_unavailable_node :: "err \<Rightarrow> bool" where
  "is_unavailable_node (UnavailableError reason e) = True"
| "is_unavailable_node e = False"

definition Permanent :: "string \<Rightarrow> err option \<Rightarrow> err" where
  "Permanent reason e = PermanentError reason e"

definition IsPermanent :: "err \<Rightarrow> bool" where
  "IsPermanent e \<longleftrightarrow> errors_as is_permanent_node e \<noteq> None"

definition Unavailable :: "string \<Rightarrow> err option \<Rightarrow> err" where
  "Unavailable reason e = UnavailableError reason e"

definition IsUnavailable :: "err \<Rightarrow> bool" where
  "IsUnavailable e \<longleftrightarrow> errors_as is_unavailable_node e \<noteq> None"

subsection \<open>Lemmas\<close>

lemma errors_as_iff: "errors_as P e \<noteq> None \<longleftrightarrow> (\<exists>x \<in> set (err_nodes e). P x)"
  by (auto simp: errors_as_def find_None_iff simp del: not_None_eq)

lemma errors_as_SomeD: "errors_as P e = Some x \<Longrightarrow> x \<in> set (err_nodes e) \<and> P x"
  by (simp add: errors_as_def find_Some_mem)

lemma IsPermanent_iff: "IsPermanent e \<longleftrightarrow> (\<exists>x \<in> set (err_nodes e). is_permanent_node x)"
  by (simp add: IsPermanent_def errors_as_iff del: not_None_eq)

lemma IsUnavailable_iff: "IsUnavailable e \<longleftrightarrow> (\<exists>x \<in> set (err_nodes e). is_unavailable_node x)"
  by (simp add: IsUnavailable_def errors_as_iff del: not_None_eq)

lemma err_nodes_self [simp]: "e \<in> set (err_nodes e)"
  by (cases e rule: err_nodes.cases) auto

lemma err_nodes_trans: "x \<in> set (err_nodes y) \<Longrightarrow> y \<in> set (err_nodes e) \<Longrightarrow> x \<in> set (err_nodes e)"
  by (induction e rule: err_nodes.induct) auto

lemma IsPermanent_simps [simp]:
  "IsPermanent (Permanent reason e)"
  "IsPermanent (PermanentError reason e)"
  "IsPermanent (Errorf pre e' post) \<longleftrightarrow> IsPermanent e'"
  "IsPermanent (UnavailableError reason (Some e')) \<longleftrightarrow> IsPermanent e'"
  "IsPermanent (Unavailable reason (Some e')) \<longleftrightarrow> IsPermanent e'"
  "IsPermanent (JoinError es) \<longleftrightarrow> (\<exists>x \<in> set es. IsPermanent x)"
  by (auto simp: IsPermanent_iff Permanent_def Unavailable_def intro: bexI [OF _ err_nodes_self])

lemma IsUnavailable_simps [simp]:
  "IsUnavailable (Unavailable reason e)"
  "IsUnavailable (UnavailableError reason e)"
  "IsUnavailable (Errorf pre e' post) \<longleftrightarrow> IsUnavailable e'"
  "IsUnavailable (PermanentError reason (Some e')) \<longleftrightarrow> IsUnavailable e'"
  "IsUnavailable (Permanent reason (Some e')) \<longleftrightarrow> IsUnavailable e'"
  "IsUnavailable (JoinError es) \<longleftrightarrow> (\<exists>x \<in> set es. IsUnavailable x)"
  by (auto simp: IsUnavailable_iff Permanent_def Unavailable_def intro: bexI [OF _ err_nodes_self])

text \<open>A wrapper keeps every cause reachable: what \<open>errors.Is\<close> finds below, it finds above.\<close>

lemma errors_is_wrapped [simp]:
  "errors_is (Errorf pre e post) t \<longleftrightarrow> t = Errorf pre e post \<or> errors_is e t"
  "errors_is (PermanentError r (Some e)) t \<longleftrightarrow> t = PermanentError r (Some e) \<or> errors_is e t"
  "errors_is (UnavailableError r (Some e)) t \<longleftrightarrow> t = UnavailableError r (Some e) \<or> errors_is e t"
  by (auto simp: errors_is_def)

lemma errors_join_None_iff: "errors_join es = None \<longleftrightarrow> (\<forall>e \<in> set es. e = None)"
proof -
  have "List.map_filter (\<lambda>x. x) es = [] \<longleftrightarrow> (\<forall>e \<in> set es. e = None)"
    by (induction es) (auto simp: List.map_filter_simps split: option.splits)
  then show ?thesis by (auto simp: errors_join_def split: list.splits)
qed

end
