(* ===== verification/Core_Message.thy ===== *)
theory Core_Message
  imports Go_Errors
begin

text \<open>
  \<open>internal/core/message.go\<close>: the outbox domain.  A message, its routing envelope, a lease, the
  outcome of a publish and the retry limits, field for field, together with the part of
  \<open>encoding/json\<close> that reads and writes the two JSONB columns.

  Field names carry a prefix (\<open>m_\<close>, \<open>t_\<close>, \<open>l_\<close>, \<open>o_\<close>) because Isabelle record fields are global
  constants.  A header map is an association list with distinct keys.
\<close>

subsection \<open>Status\<close>

type_synonym status = int

abbreviation (input) StatusPending :: status where "StatusPending \<equiv> 0"
abbreviation (input) StatusProcessing :: status where "StatusProcessing \<equiv> 1"
abbreviation (input) StatusSent :: status where "StatusSent \<equiv> 2"
abbreviation (input) StatusFailed :: status where "StatusFailed \<equiv> 3"

definition status_string :: "status \<Rightarrow> string" where
  "status_string s =
     (if s = StatusPending then ''pending''
      else if s = StatusProcessing then ''processing''
      else if s = StatusSent then ''sent''
      else if s = StatusFailed then ''failed''
      else ''unknown'')"

definition status_valid :: "status \<Rightarrow> bool" where
  "status_valid s \<longleftrightarrow> StatusPending \<le> s \<and> s \<le> StatusFailed"

subsection \<open>Messages\<close>

type_synonym headers = "(string \<times> string) list"

record target =
  t_key :: string
  t_version :: int
  t_exchange :: string
  t_routing_key :: string

definition zero_target :: target where
  "zero_target = \<lparr>t_key = [], t_version = 0, t_exchange = [], t_routing_key = []\<rparr>"

record message =
  m_id :: uuid
  m_stream :: string
  m_topic :: string
  m_payload :: bytes
  m_headers :: headers
  m_target :: target
  m_attempts :: int
  m_created_at :: timestamptz

record lease =
  l_token :: uuid
  l_owner :: string
  l_until :: go_time

record outcome =
  o_id :: uuid
  o_err :: "err option"
  o_permanent :: bool
  o_deferred :: bool
  o_delay :: duration

record retry_limits =
  rl_max_attempts :: int
  rl_max_defer :: duration

subsection \<open>The JSONB columns\<close>

text \<open>
  A JSONB value; a number is an integer literal or keeps its text.  Objects have distinct keys,
  which is what JSONB stores.
\<close>

datatype json =
    JNull
  | JBool bool
  | JInt int
  | JFrac string
  | JStr string
  | JArr "json list"
  | JObj "(string \<times> json) list"

text \<open>
  \<open>json.Unmarshal\<close> into a \<open>map[string]string\<close>: a null document leaves the map nil, a null value
  is the empty string, any other value that is not a string is an error (\<open>None\<close>).
\<close>

fun decode_string :: "json \<Rightarrow> string option" where
  "decode_string JNull = Some []"
| "decode_string (JStr s) = Some s"
| "decode_string j = None"

fun decode_pairs :: "(string \<times> json) list \<Rightarrow> headers option" where
  "decode_pairs [] = Some []"
| "decode_pairs ((k, v) # kvs) =
     (case (decode_string v, decode_pairs kvs) of
        (Some s, Some hs) \<Rightarrow> Some ((k, s) # hs)
      | _ \<Rightarrow> None)"

fun decode_headers :: "json \<Rightarrow> headers option" where
  "decode_headers JNull = Some []"
| "decode_headers (JObj kvs) = decode_pairs kvs"
| "decode_headers j = None"

text \<open>
  \<open>json.Unmarshal\<close> into \<open>Target\<close>: a key selects the field whose name it equals up to ASCII case,
  unknown keys are ignored, null leaves the field alone, a value of the wrong type is an error.
\<close>

definition decode_target_field :: "string \<Rightarrow> json \<Rightarrow> target \<Rightarrow> target option" where
  "decode_target_field k v t =
     (let name = to_lower k in
      if v = JNull then Some t
      else if name = ''key'' then map_option (\<lambda>s. t\<lparr>t_key := s\<rparr>) (decode_string v)
      else if name = ''exchange'' then map_option (\<lambda>s. t\<lparr>t_exchange := s\<rparr>) (decode_string v)
      else if name = ''routing_key'' then map_option (\<lambda>s. t\<lparr>t_routing_key := s\<rparr>) (decode_string v)
      else if name = ''version'' then
        (case v of
           JInt n \<Rightarrow> if - (2 ^ 63) \<le> n \<and> n < 2 ^ 63 then Some (t\<lparr>t_version := n\<rparr>) else None
         | _ \<Rightarrow> None)
      else Some t)"

fun decode_target_fields :: "(string \<times> json) list \<Rightarrow> target \<Rightarrow> target option" where
  "decode_target_fields [] t = Some t"
| "decode_target_fields ((k, v) # kvs) t =
     (case decode_target_field k v t of
        None \<Rightarrow> None
      | Some t' \<Rightarrow> decode_target_fields kvs t')"

fun decode_target :: "json \<Rightarrow> target option" where
  "decode_target JNull = Some zero_target"
| "decode_target (JObj kvs) = decode_target_fields kvs zero_target"
| "decode_target j = None"

text \<open>\<open>json.Marshal\<close> of a header map and of a \<open>Target\<close>, whose fields are all \<open>omitempty\<close>.\<close>

definition encode_headers :: "headers \<Rightarrow> json" where
  "encode_headers hs = JObj (map (\<lambda>(k, v). (k, JStr v)) hs)"

definition encode_target :: "target \<Rightarrow> json" where
  "encode_target t = JObj
     ((if t_key t = [] then [] else [(''key'', JStr (t_key t))])
      @ (if t_version t = 0 then [] else [(''version'', JInt (t_version t))])
      @ (if t_exchange t = [] then [] else [(''exchange'', JStr (t_exchange t))])
      @ (if t_routing_key t = [] then [] else [(''routing_key'', JStr (t_routing_key t))]))"

subsection \<open>Lemmas\<close>

lemma status_valid_cases:
  "status_valid s \<longleftrightarrow> s = StatusPending \<or> s = StatusProcessing \<or> s = StatusSent \<or> s = StatusFailed"
  by (auto simp: status_valid_def)

lemma decode_pairs_encode [simp]: "decode_pairs (map (\<lambda>(k, v). (k, JStr v)) hs) = Some hs"
  by (induction hs) auto

lemma decode_encode_headers [simp]: "decode_headers (encode_headers hs) = Some hs"
  by (simp add: encode_headers_def)

lemma target_names_lower [simp]:
  "to_lower ''key'' = ''key''" "to_lower ''version'' = ''version''"
  "to_lower ''exchange'' = ''exchange''" "to_lower ''routing_key'' = ''routing_key''"
  by (simp_all add: to_lower_def lower_char_def is_upper_def less_eq_char_def)

lemma decode_encode_target [simp]:
  assumes "- (2 ^ 63) \<le> t_version t" and "t_version t < 2 ^ 63"
  shows "decode_target (encode_target t) = Some t"
  using assms by (simp add: encode_target_def decode_target_field_def zero_target_def Let_def)

lemma decode_pairs_None_iff: "decode_pairs kvs = None \<longleftrightarrow> (\<exists>(k, v) \<in> set kvs. decode_string v = None)"
  by (induction kvs) (auto split: option.splits)

end
