(* ===== verification/Store_Sql.thy ===== *)
theory Store_Sql
  imports Core_Message
begin

text \<open>
  The outbox table of \<open>migrations/0001_messages.sql\<close> and \<open>0004_deferral.sql\<close>, and the SQL of
  \<open>internal/store/queries.go\<close>, one definition per statement.

  A table is a list of rows.  A statement is atomic and sees one \<open>now()\<close>, the argument \<open>now\<close>; a
  column that may be NULL is an \<open>option\<close>, and a comparison with NULL is not true.
  \<open>FOR UPDATE SKIP LOCKED\<close> skips the rows whose ids are in the argument \<open>locked\<close>, the rows other
  transactions hold at that moment.  \<open>RETURNING\<close> gives the updated rows in table order;
  PostgreSQL promises no order, and nothing below depends on one.

  Every statement is a row predicate and a row update.  The locale \<open>update_stmt\<close> states what such
  a pair must satisfy and proves what follows for the whole table; each statement interprets it.
\<close>

subsection \<open>The table\<close>

record row =
  r_id :: uuid
  r_stream :: string
  r_topic :: string
  r_payload :: bytes
  r_headers :: json
  r_target :: json
  r_status :: status
  r_attempts :: int
  r_available_at :: timestamptz
  r_lease_token :: "uuid option"
  r_lease_until :: "timestamptz option"
  r_owner :: "string option"
  r_last_error :: "string option"
  r_created_at :: timestamptz
  r_dispatched_at :: "timestamptz option"
  r_deferred_since :: "timestamptz option"

type_synonym table = "row list"

text \<open>The CHECK constraints of the table, and INTEGER's range for \<open>attempts\<close>.\<close>

definition status_check :: "row \<Rightarrow> bool" where
  "status_check r \<longleftrightarrow> 0 \<le> r_status r \<and> r_status r \<le> 3"

definition attempts_check :: "row \<Rightarrow> bool" where
  "attempts_check r \<longleftrightarrow> 0 \<le> r_attempts r \<and> r_attempts r \<le> max_int32"

definition lease_check :: "row \<Rightarrow> bool" where
  "lease_check r \<longleftrightarrow>
     (r_status r = StatusProcessing) = (r_lease_token r \<noteq> None)
     \<and> (r_lease_token r = None) = (r_lease_until r = None)"

definition row_ok :: "row \<Rightarrow> bool" where
  "row_ok r \<longleftrightarrow> status_check r \<and> attempts_check r \<and> lease_check r"

text \<open>\<open>id UUID PRIMARY KEY\<close> and the constraints of every row.\<close>

definition table_ok :: "table \<Rightarrow> bool" where
  "table_ok t \<longleftrightarrow> distinct (map r_id t) \<and> (\<forall>r \<in> set t. row_ok r)"

lemmas [inv_defs] = row_ok_def status_check_def attempts_check_def lease_check_def

definition row_of :: "uuid \<Rightarrow> table \<Rightarrow> row option" where
  "row_of i t = find (\<lambda>r. r_id r = i) t"

definition update_where :: "(row \<Rightarrow> bool) \<Rightarrow> (row \<Rightarrow> row) \<Rightarrow> table \<Rightarrow> table" where
  "update_where sel upd t = map (\<lambda>r. if sel r then upd r else r) t"

definition returning :: "(row \<Rightarrow> bool) \<Rightarrow> (row \<Rightarrow> row) \<Rightarrow> table \<Rightarrow> row list" where
  "returning sel upd t = map upd (filter sel t)"

subsection \<open>Producer\<close>

text \<open>
  The INSERT of the clients: the producer's columns, defaults for the rest.  \<open>None\<close> is the unique
  violation of the primary key.
\<close>

definition insert_row ::
  "timestamptz \<Rightarrow> uuid \<Rightarrow> string \<Rightarrow> string \<Rightarrow> bytes \<Rightarrow> json \<Rightarrow> json \<Rightarrow> timestamptz option \<Rightarrow> row" where
  "insert_row now i stream topic payload hdrs tgt available =
     \<lparr>r_id = i, r_stream = stream, r_topic = topic, r_payload = payload, r_headers = hdrs,
      r_target = tgt, r_status = StatusPending, r_attempts = 0,
      r_available_at = (case available of None \<Rightarrow> now | Some a \<Rightarrow> a),
      r_lease_token = None, r_lease_until = None, r_owner = None, r_last_error = None,
      r_created_at = now, r_dispatched_at = None, r_deferred_since = None\<rparr>"

definition insert_stmt :: "row \<Rightarrow> table \<Rightarrow> table option" where
  "insert_stmt r t = (if r_id r \<in> r_id ` set t then None else Some (t @ [r]))"

subsection \<open>Claim\<close>

definition claim_due :: "string \<Rightarrow> timestamptz \<Rightarrow> uuid list \<Rightarrow> row \<Rightarrow> bool" where
  "claim_due stream now locked r \<longleftrightarrow>
     r_status r = StatusPending \<and> r_stream r = stream \<and> r_available_at r \<le> now
     \<and> r_id r \<notin> set locked"

definition claim_order :: "row \<Rightarrow> timestamptz \<times> uuid" where
  "claim_order r = (r_available_at r, r_id r)"

definition due_ids :: "string \<Rightarrow> nat \<Rightarrow> timestamptz \<Rightarrow> uuid list \<Rightarrow> table \<Rightarrow> uuid list" where
  "due_ids stream limit now locked t =
     map r_id (take limit (sort_key claim_order (filter (claim_due stream now locked) t)))"

definition id_in :: "uuid list \<Rightarrow> row \<Rightarrow> bool" where
  "id_in ids r \<longleftrightarrow> r_id r \<in> set ids"

definition claim_set :: "timestamptz \<Rightarrow> uuid \<Rightarrow> duration \<Rightarrow> string \<Rightarrow> row \<Rightarrow> row" where
  "claim_set now token ttl owner r =
     r\<lparr>r_status := StatusProcessing, r_lease_token := Some token,
       r_lease_until := Some (now + make_interval ttl), r_owner := Some owner\<rparr>"

definition claim_stmt ::
  "string \<Rightarrow> nat \<Rightarrow> uuid \<Rightarrow> duration \<Rightarrow> string \<Rightarrow> timestamptz \<Rightarrow> uuid list \<Rightarrow> table
   \<Rightarrow> table \<times> row list" where
  "claim_stmt stream limit token ttl owner now locked t =
     (let ids = due_ids stream limit now locked t in
      (update_where (id_in ids) (claim_set now token ttl owner) t,
       returning (id_in ids) (claim_set now token ttl owner) t))"

subsection \<open>Acknowledge\<close>

definition held :: "uuid list \<Rightarrow> uuid \<Rightarrow> row \<Rightarrow> bool" where
  "held ids token r \<longleftrightarrow> r_id r \<in> set ids \<and> r_lease_token r = Some token"

definition ack_set :: "timestamptz \<Rightarrow> row \<Rightarrow> row" where
  "ack_set now r =
     r\<lparr>r_status := StatusSent, r_dispatched_at := Some now, r_lease_token := None,
       r_lease_until := None, r_owner := None, r_last_error := None, r_deferred_since := None\<rparr>"

definition ack_stmt :: "uuid list \<Rightarrow> uuid \<Rightarrow> timestamptz \<Rightarrow> table \<Rightarrow> table \<times> row list" where
  "ack_stmt ids token now t =
     (update_where (held ids token) (ack_set now) t, returning (held ids token) (ack_set now) t)"

subsection \<open>Negative acknowledge\<close>

record nack_input =
  ni_id :: uuid
  ni_err :: string
  ni_permanent :: bool
  ni_deferred :: bool
  ni_delay :: duration

definition nack_input_for :: "nack_input list \<Rightarrow> row \<Rightarrow> nack_input option" where
  "nack_input_for ins r = find (\<lambda>i. ni_id i = r_id r) ins"

definition deferred_start :: "timestamptz \<Rightarrow> row \<Rightarrow> timestamptz" where
  "deferred_start now r = (case r_deferred_since r of None \<Rightarrow> now | Some d \<Rightarrow> d)"

definition nack_terminal ::
  "int \<Rightarrow> duration \<Rightarrow> timestamptz \<Rightarrow> nack_input \<Rightarrow> row \<Rightarrow> bool" where
  "nack_terminal max_attempts max_defer now i r \<longleftrightarrow>
     ni_permanent i
     \<or> (\<not> ni_deferred i \<and> r_attempts r + 1 \<ge> max_attempts)
     \<or> (ni_deferred i \<and> max_defer > 0 \<and> deferred_start now r \<le> now - make_interval max_defer)"

text \<open>\<open>left(err, n)\<close> counts characters: in UTF-8, every byte but the continuation bytes begins one.\<close>

definition is_continuation :: "char \<Rightarrow> bool" where
  "is_continuation c \<longleftrightarrow> 128 \<le> (of_char c :: nat) \<and> (of_char c :: nat) < 192"

fun left_text :: "nat \<Rightarrow> string \<Rightarrow> string" where
  "left_text n [] = []"
| "left_text n (c # cs) =
     (if is_continuation c then c # left_text n cs
      else case n of 0 \<Rightarrow> [] | Suc m \<Rightarrow> c # left_text m cs)"

definition nack_apply ::
  "int \<Rightarrow> duration \<Rightarrow> timestamptz \<Rightarrow> nack_input \<Rightarrow> row \<Rightarrow> row" where
  "nack_apply max_attempts max_defer now i r =
     (let terminal = nack_terminal max_attempts max_defer now i r in
      r\<lparr>r_attempts := (if ni_deferred i then r_attempts r else r_attempts r + 1),
        r_last_error := Some (left_text 2000 (ni_err i)),
        r_lease_token := None, r_lease_until := None, r_owner := None,
        r_deferred_since :=
          (if terminal \<or> \<not> ni_deferred i then None else Some (deferred_start now r)),
        r_status := (if terminal then StatusFailed else StatusPending),
        r_available_at :=
          (if terminal then r_available_at r else now + make_interval (ni_delay i))\<rparr>)"

definition nack_sel :: "nack_input list \<Rightarrow> uuid \<Rightarrow> row \<Rightarrow> bool" where
  "nack_sel ins token r \<longleftrightarrow> nack_input_for ins r \<noteq> None \<and> r_lease_token r = Some token"

definition nack_set ::
  "int \<Rightarrow> duration \<Rightarrow> nack_input list \<Rightarrow> timestamptz \<Rightarrow> row \<Rightarrow> row" where
  "nack_set max_attempts max_defer ins now r =
     (case nack_input_for ins r of
        None \<Rightarrow> r
      | Some i \<Rightarrow> nack_apply max_attempts max_defer now i r)"

text \<open>\<open>m.attempts + 1\<close> is an INTEGER addition: out of range, it fails the whole statement.\<close>

definition nack_overflows :: "nack_input list \<Rightarrow> uuid \<Rightarrow> row \<Rightarrow> bool" where
  "nack_overflows ins token r \<longleftrightarrow>
     r_lease_token r = Some token \<and>
     (case nack_input_for ins r of
        None \<Rightarrow> False
      | Some i \<Rightarrow> \<not> ni_deferred i \<and> r_attempts r + 1 > max_int32)"

definition nack_stmt ::
  "uuid \<Rightarrow> int \<Rightarrow> nack_input list \<Rightarrow> duration \<Rightarrow> timestamptz \<Rightarrow> table
   \<Rightarrow> (table \<times> row list) option" where
  "nack_stmt token max_attempts ins max_defer now t =
     (if \<exists>r \<in> set t. nack_overflows ins token r then None
      else Some (update_where (nack_sel ins token) (nack_set max_attempts max_defer ins now) t,
                 returning (nack_sel ins token) (nack_set max_attempts max_defer ins now) t))"

subsection \<open>Release, reclaim\<close>

definition release_sel :: "uuid list \<Rightarrow> uuid \<Rightarrow> row \<Rightarrow> bool" where
  "release_sel ids token r \<longleftrightarrow> held ids token r \<and> r_status r = StatusProcessing"

definition pending_set :: "timestamptz \<Rightarrow> row \<Rightarrow> row" where
  "pending_set now r =
     r\<lparr>r_status := StatusPending, r_available_at := now, r_lease_token := None,
       r_lease_until := None, r_owner := None\<rparr>"

definition release_stmt :: "uuid list \<Rightarrow> uuid \<Rightarrow> timestamptz \<Rightarrow> table \<Rightarrow> table \<times> row list" where
  "release_stmt ids token now t =
     (update_where (release_sel ids token) (pending_set now) t,
      returning (release_sel ids token) (pending_set now) t)"

definition lease_expired :: "timestamptz \<Rightarrow> uuid list \<Rightarrow> row \<Rightarrow> bool" where
  "lease_expired now locked r \<longleftrightarrow>
     r_status r = StatusProcessing
     \<and> (case r_lease_until r of None \<Rightarrow> False | Some u \<Rightarrow> u \<le> now)
     \<and> r_id r \<notin> set locked"

definition lease_order :: "row \<Rightarrow> timestamptz" where
  "lease_order r = (case r_lease_until r of None \<Rightarrow> 0 | Some u \<Rightarrow> u)"

definition expired_rows :: "nat \<Rightarrow> timestamptz \<Rightarrow> uuid list \<Rightarrow> table \<Rightarrow> row list" where
  "expired_rows limit now locked t =
     take limit (sort_key lease_order (filter (lease_expired now locked) t))"

text \<open>The rows \<open>reclaimSQL\<close> returns come from the CTE, so they are the rows before the update.\<close>

definition reclaim_stmt ::
  "nat \<Rightarrow> timestamptz \<Rightarrow> uuid list \<Rightarrow> table \<Rightarrow> table \<times> row list" where
  "reclaim_stmt limit now locked t =
     (let expired = expired_rows limit now locked t in
      (update_where (id_in (map r_id expired)) (pending_set now) t, expired))"

subsection \<open>Requeue\<close>

definition requeue_set :: "timestamptz \<Rightarrow> row \<Rightarrow> row" where
  "requeue_set now r =
     r\<lparr>r_status := StatusPending, r_attempts := 0, r_available_at := now, r_last_error := None,
       r_lease_token := None, r_lease_until := None, r_owner := None, r_dispatched_at := None,
       r_deferred_since := None\<rparr>"

definition requeue_sel :: "uuid list \<Rightarrow> row \<Rightarrow> bool" where
  "requeue_sel ids r \<longleftrightarrow> r_id r \<in> set ids \<and> r_status r = StatusFailed"

definition requeue_stmt :: "uuid list \<Rightarrow> timestamptz \<Rightarrow> table \<Rightarrow> table \<times> uuid list" where
  "requeue_stmt ids now t =
     (update_where (requeue_sel ids) (requeue_set now) t, map r_id (filter (requeue_sel ids) t))"

definition creation_order :: "row \<Rightarrow> timestamptz \<times> uuid" where
  "creation_order r = (r_created_at r, r_id r)"

definition failed_before :: "timestamptz \<Rightarrow> row \<Rightarrow> bool" where
  "failed_before before r \<longleftrightarrow> r_status r = StatusFailed \<and> r_created_at r < before"

definition failed_before_ids :: "timestamptz \<Rightarrow> nat \<Rightarrow> table \<Rightarrow> uuid list" where
  "failed_before_ids before limit t =
     map r_id (take limit (sort_key creation_order (filter (failed_before before) t)))"

text \<open>
  The UPDATE of \<open>requeue_failed_before\<close> takes the identifiers its subselect found and looks at nothing else of the
  rows; the statement is the two at one moment.  Between other statements they may fall apart (\<open>Store_Concurrency\<close>).
\<close>

definition requeue_before_write :: "uuid list \<Rightarrow> timestamptz \<Rightarrow> table \<Rightarrow> table \<times> uuid list" where
  "requeue_before_write ids now t =
     (update_where (id_in ids) (requeue_set now) t, map r_id (filter (id_in ids) t))"

definition requeue_before_stmt ::
  "timestamptz \<Rightarrow> nat \<Rightarrow> timestamptz \<Rightarrow> table \<Rightarrow> table \<times> uuid list" where
  "requeue_before_stmt before limit now t = requeue_before_write (failed_before_ids before limit t) now t"

subsection \<open>Purge\<close>

definition purgeable :: "duration \<Rightarrow> timestamptz \<Rightarrow> uuid list \<Rightarrow> row \<Rightarrow> bool" where
  "purgeable retention now locked r \<longleftrightarrow>
     r_status r = StatusSent
     \<and> (case r_dispatched_at r of None \<Rightarrow> False | Some d \<Rightarrow> d < now - make_interval retention)
     \<and> r_id r \<notin> set locked"

definition dispatch_order :: "row \<Rightarrow> timestamptz" where
  "dispatch_order r = (case r_dispatched_at r of None \<Rightarrow> 0 | Some d \<Rightarrow> d)"

definition doomed_ids ::
  "duration \<Rightarrow> nat \<Rightarrow> timestamptz \<Rightarrow> uuid list \<Rightarrow> table \<Rightarrow> uuid list" where
  "doomed_ids retention limit now locked t =
     map r_id (take limit (sort_key dispatch_order (filter (purgeable retention now locked) t)))"

definition purge_stmt ::
  "duration \<Rightarrow> nat \<Rightarrow> timestamptz \<Rightarrow> uuid list \<Rightarrow> table \<Rightarrow> table \<times> nat" where
  "purge_stmt retention limit now locked t =
     (let ids = doomed_ids retention limit now locked t in
      (filter (\<lambda>r. \<not> id_in ids r) t, length (filter (id_in ids) t)))"

subsection \<open>Reads\<close>

definition count_where :: "(row \<Rightarrow> bool) \<Rightarrow> table \<Rightarrow> int" where
  "count_where P t = int (length (filter P t))"

text \<open>\<open>coalesce(extract(epoch FROM (now() - min(created_at))), 0)\<close>, in microseconds.\<close>

definition oldest_pending :: "timestamptz \<Rightarrow> table \<Rightarrow> timestamptz" where
  "oldest_pending now t =
     (case filter (\<lambda>r. r_status r = StatusPending) t of
        [] \<Rightarrow> 0
      | rs \<Rightarrow> now - fold min (map r_created_at rs) (r_created_at (hd rs)))"

definition list_failed_sel :: "timestamptz \<times> uuid \<Rightarrow> string \<Rightarrow> row \<Rightarrow> bool" where
  "list_failed_sel after stream r \<longleftrightarrow>
     r_status r = StatusFailed \<and> (stream = [] \<or> r_stream r = stream) \<and> creation_order r > after"

definition list_failed_stmt ::
  "timestamptz \<times> uuid \<Rightarrow> nat \<Rightarrow> string \<Rightarrow> table \<Rightarrow> row list" where
  "list_failed_stmt after limit stream t =
     take limit (sort_key creation_order (filter (list_failed_sel after stream) t))"

definition fetch_by_ids_stmt :: "uuid list \<Rightarrow> table \<Rightarrow> row list" where
  "fetch_by_ids_stmt ids t = filter (id_in ids) t"

end
