(* ===== verification/Store_Facts.thy ===== *)
theory Store_Facts
  imports Store_Sql
begin

text \<open>
  Lemmas about the SQL statements of \<open>Store_Sql\<close>.  The locale \<open>update_stmt\<close> is the contract of a
  statement that rewrites the rows it selects: it leaves the producer's columns alone and keeps
  the CHECK constraints.  What such a statement does to a whole table is proved once, inside the
  locale; every UPDATE of the store interprets it.
\<close>

subsection \<open>Tables\<close>

text \<open>The columns a producer writes, which no statement of the dispatcher may change.\<close>

definition producer_part :: "row \<Rightarrow> uuid \<times> string \<times> string \<times> bytes \<times> json \<times> json \<times> timestamptz" where
  "producer_part r =
     (r_id r, r_stream r, r_topic r, r_payload r, r_headers r, r_target r, r_created_at r)"

lemma row_of_SomeD: "row_of i t = Some r \<Longrightarrow> r \<in> set t \<and> r_id r = i"
  by (auto simp: row_of_def find_Some_iff)

lemma row_of_None_iff: "row_of i t = None \<longleftrightarrow> i \<notin> r_id ` set t"
  by (auto simp: row_of_def find_None_iff)

lemma row_of_Some_iff:
  assumes "table_ok t"
  shows "row_of i t = Some r \<longleftrightarrow> r \<in> set t \<and> r_id r = i"
proof
  assume "r \<in> set t \<and> r_id r = i"
  then obtain r' where r': "row_of i t = Some r'"
    by (metis image_eqI not_Some_eq row_of_None_iff)
  with \<open>r \<in> set t \<and> r_id r = i\<close> have "r' = r"
    using row_of_SomeD [OF r'] assms by (auto simp: table_ok_def dest: distinct_map_inj)
  with r' show "row_of i t = Some r" by simp
qed (rule row_of_SomeD)

lemma row_of_in [simp]: "table_ok t \<Longrightarrow> r \<in> set t \<Longrightarrow> row_of (r_id r) t = Some r"
  by (simp add: row_of_Some_iff)

lemma table_okD: "table_ok t \<Longrightarrow> r \<in> set t \<Longrightarrow> row_ok r"
  by (simp add: table_ok_def)

lemma row_of_ok: "table_ok t \<Longrightarrow> row_of i t = Some r \<Longrightarrow> row_ok r"
  by (auto dest: row_of_SomeD table_okD)

lemma row_of_append:
  "row_of i (t @ u) = (case row_of i t of None \<Rightarrow> row_of i u | Some r \<Rightarrow> Some r)"
  by (induction t) (auto simp: row_of_def)

lemma row_of_filter:
  assumes "table_ok t"
  shows "row_of i (filter P t) = (case row_of i t of None \<Rightarrow> None | Some r \<Rightarrow> if P r then Some r else None)"
proof (cases "row_of i t")
  case None
  then have "row_of i (filter P t) = None" by (auto simp: row_of_None_iff)
  with None show ?thesis by simp
next
  case (Some r)
  have "table_ok (filter P t)"
    using assms by (auto simp: table_ok_def distinct_map_filter)
  with Some assms show ?thesis
    by (auto simp: row_of_Some_iff row_of_None_iff table_ok_def dest: distinct_map_inj)
qed

lemma set_update_where:
  "set (update_where sel upd t) = {if sel r then upd r else r | r. r \<in> set t}"
  by (auto simp: update_where_def)

lemma length_update_where [simp]: "length (update_where sel upd t) = length t"
  by (simp add: update_where_def)

lemma update_where_cong:
  "(\<And>r. r \<in> set t \<Longrightarrow> sel r = sel' r) \<Longrightarrow> update_where sel upd t = update_where sel' upd t"
  by (simp add: update_where_def)

lemma update_where_none: "(\<And>r. r \<in> set t \<Longrightarrow> \<not> sel r) \<Longrightarrow> update_where sel upd t = t"
  by (simp add: update_where_def map_idI)

subsection \<open>The contract of an UPDATE\<close>

locale update_stmt =
  fixes sel :: "row \<Rightarrow> bool"
    and upd :: "row \<Rightarrow> row"
  assumes upd_producer: "producer_part (upd r) = producer_part r"
    and upd_ok: "row_ok r \<Longrightarrow> sel r \<Longrightarrow> row_ok (upd r)"
begin

lemma upd_id [simp]: "r_id (upd r) = r_id r"
  using upd_producer [of r] by (simp add: producer_part_def)

lemma update_ids [simp]: "map r_id (update_where sel upd t) = map r_id t"
  by (simp add: update_where_def)

lemma update_id_set [simp]: "r_id ` set (update_where sel upd t) = r_id ` set t"
  by (metis list.set_map update_ids)

lemma update_ok: "table_ok t \<Longrightarrow> table_ok (update_where sel upd t)"
  unfolding table_ok_def using upd_ok by (auto simp: set_update_where)

lemma row_of_update:
  "row_of i (update_where sel upd t) = map_option (\<lambda>r. if sel r then upd r else r) (row_of i t)"
  by (induction t) (auto simp: row_of_def update_where_def)

lemma update_producer:
  "map producer_part (update_where sel upd t) = map producer_part t"
  by (simp add: update_where_def upd_producer)

lemma returning_ids [simp]: "map r_id (returning sel upd t) = map r_id (filter sel t)"
  by (simp add: returning_def)

lemma returning_in_table: "r \<in> set (returning sel upd t) \<Longrightarrow> r \<in> set (update_where sel upd t)"
  by (auto simp: returning_def update_where_def)

lemma distinct_returning: "table_ok t \<Longrightarrow> distinct (map r_id (returning sel upd t))"
  by (simp add: table_ok_def distinct_map_filter)

end

subsection \<open>The statements satisfy it\<close>

lemmas [stmt_defs] =
  claim_set_def ack_set_def pending_set_def requeue_set_def nack_set_def nack_apply_def Let_def

interpretation claim_upd: update_stmt "id_in ids" "claim_set now token ttl owner"
  for ids now token ttl owner
  by unfold_locales (auto simp: stmt_defs inv_defs producer_part_def)

interpretation ack_upd: update_stmt "held ids token" "ack_set now"
  for ids token now
  by unfold_locales (auto simp: stmt_defs inv_defs producer_part_def)

interpretation release_upd: update_stmt "release_sel ids token" "pending_set now"
  for ids token now
  by unfold_locales (auto simp: stmt_defs inv_defs producer_part_def)

interpretation reclaim_upd: update_stmt "id_in ids" "pending_set now"
  for ids now
  by unfold_locales (auto simp: stmt_defs inv_defs producer_part_def)

interpretation requeue_upd: update_stmt "requeue_sel ids" "requeue_set now"
  for ids now
  by unfold_locales (auto simp: stmt_defs inv_defs producer_part_def max_int32_def)

interpretation requeue_before_upd: update_stmt "id_in ids" "requeue_set now"
  for ids now
  by unfold_locales (auto simp: stmt_defs inv_defs producer_part_def max_int32_def)

text \<open>A NACK keeps the constraints on the rows whose counter does not overflow.\<close>

definition nack_safe :: "nack_input list \<Rightarrow> uuid \<Rightarrow> row \<Rightarrow> bool" where
  "nack_safe ins token r \<longleftrightarrow> nack_sel ins token r \<and> \<not> nack_overflows ins token r"

interpretation nack_upd: update_stmt "nack_safe ins token" "nack_set ma md ins now"
  for ins token ma md now
  by unfold_locales
    (auto simp: stmt_defs inv_defs producer_part_def nack_safe_def nack_sel_def nack_overflows_def
       split: option.splits)

lemma nack_stmt_SomeD:
  assumes "nack_stmt token ma ins md now t = Some (t', rs)"
  shows "t' = update_where (nack_safe ins token) (nack_set ma md ins now) t"
    and "rs = returning (nack_safe ins token) (nack_set ma md ins now) t"
proof -
  from assms have no: "\<not> nack_overflows ins token r" if "r \<in> set t" for r
    using that by (auto simp: nack_stmt_def split: if_splits)
  then have "filter (nack_sel ins token) t = filter (nack_safe ins token) t"
    by (auto simp: nack_safe_def intro: filter_cong)
  then show "t' = update_where (nack_safe ins token) (nack_set ma md ins now) t"
    and "rs = returning (nack_safe ins token) (nack_set ma md ins now) t"
    using assms no
    by (auto simp: nack_stmt_def returning_def nack_safe_def split: if_splits
        intro!: update_where_cong)
qed

lemma find_map_key_distinct:
  "distinct (map k xs) \<Longrightarrow> x \<in> set xs \<Longrightarrow> find (\<lambda>y. k y = k x) xs = Some x"
  by (induction xs) (auto simp: image_iff)

subsection \<open>Which rows a bounded selection takes\<close>

lemma due_idsD:
  assumes "table_ok t" and "r \<in> set t" and "r_id r \<in> set (due_ids stream limit now locked t)"
  shows "claim_due stream now locked r"
proof -
  from assms(3) obtain r' where "r' \<in> set t" "claim_due stream now locked r'" "r_id r' = r_id r"
    by (auto simp: due_ids_def dest!: in_set_takeD)
  with assms(1,2) show ?thesis by (auto simp: table_ok_def dest: distinct_map_inj)
qed

lemma expired_rowsD: "r \<in> set (expired_rows limit now locked t) \<Longrightarrow> r \<in> set t \<and> lease_expired now locked r"
  by (auto simp: expired_rows_def dest!: in_set_takeD)

lemma expired_idD:
  assumes "table_ok t" and "r \<in> set t" and "r_id r \<in> r_id ` set (expired_rows limit now locked t)"
  shows "lease_expired now locked r"
  using assms by (auto simp: table_ok_def dest!: expired_rowsD dest: distinct_map_inj)

lemma failed_before_idsD:
  assumes "table_ok t" and "r \<in> set t" and "r_id r \<in> set (failed_before_ids before limit t)"
  shows "failed_before before r"
proof -
  from assms(3) obtain r' where "r' \<in> set t" "failed_before before r'" "r_id r' = r_id r"
    by (auto simp: failed_before_ids_def dest!: in_set_takeD)
  with assms(1,2) show ?thesis by (auto simp: table_ok_def dest: distinct_map_inj)
qed

lemma doomed_idsD:
  assumes "table_ok t" and "r \<in> set t" and "r_id r \<in> set (doomed_ids retention limit now locked t)"
  shows "purgeable retention now locked r"
proof -
  from assms(3) obtain r' where "r' \<in> set t" "purgeable retention now locked r'" "r_id r' = r_id r"
    by (auto simp: doomed_ids_def dest!: in_set_takeD)
  with assms(1,2) show ?thesis by (auto simp: table_ok_def dest: distinct_map_inj)
qed

lemma length_filter_ids:
  assumes "distinct (map r_id t)" and "distinct ids" and "set ids \<subseteq> r_id ` set t"
  shows "length (filter (id_in ids) t) = length ids"
proof -
  have "distinct (map r_id (filter (id_in ids) t))"
    using assms(1) by (simp add: distinct_map_filter)
  then have "length (filter (id_in ids) t) = card (r_id ` set (filter (id_in ids) t))"
    by (metis distinct_card length_map list.set_map)
  also have "r_id ` set (filter (id_in ids) t) = set ids"
    using assms(3) by (auto simp: id_in_def)
  finally show ?thesis using assms(2) by (simp add: distinct_card)
qed

lemma length_filter_id_le:
  assumes "distinct (map r_id t)" and "\<And>r. r \<in> set t \<Longrightarrow> P r \<Longrightarrow> r_id r \<in> set ids"
  shows "length (filter P t) \<le> length ids"
proof -
  have "distinct (map r_id (filter P t))" using assms(1) by (rule distinct_map_filter)
  moreover have "set (map r_id (filter P t)) \<subseteq> set ids" using assms(2) by auto
  ultimately show ?thesis by (metis card_length card_mono distinct_card finite_set le_trans length_map)
qed

lemma distinct_due_ids: "table_ok t \<Longrightarrow> distinct (due_ids stream limit now locked t)"
  by (simp add: due_ids_def table_ok_def distinct_map_take_sort distinct_map_filter)

lemma due_ids_subset: "set (due_ids stream limit now locked t) \<subseteq> r_id ` set t"
  by (auto simp: due_ids_def dest!: in_set_takeD)

lemma distinct_doomed_ids: "table_ok t \<Longrightarrow> distinct (doomed_ids retention limit now locked t)"
  by (simp add: doomed_ids_def table_ok_def distinct_map_take_sort distinct_map_filter)

lemma doomed_ids_subset: "set (doomed_ids retention limit now locked t) \<subseteq> r_id ` set t"
  by (auto simp: doomed_ids_def dest!: in_set_takeD)

end
