(* ===== verification/Store_History.thy ===== *)
theory Store_History
  imports Store_Facts
begin

text \<open>
  Every change to the outbox table, by any replica, any janitor, any operator or any producer, is
  one of the statements of \<open>Store_Sql\<close>.  PostgreSQL executes them one at a time on any row: a statement
  locks the row it writes, and its conditions are evaluated again on a row another transaction has just changed.  A
  history is therefore a list of statements; the theorems here hold for every history, that is
  for every interleaving of any number of replicas.  The one statement whose conditions are not evaluated again,
  \<open>requeue_failed_before\<close>, is taken apart in \<open>Store_Concurrency\<close>.
\<close>

subsection \<open>Statements and histories\<close>

datatype stmt =
    SInsert timestamptz uuid string string bytes json json "timestamptz option"
  | SClaim string nat uuid duration string timestamptz "uuid list"
  | SAck "uuid list" uuid timestamptz
  | SNack uuid int "nack_input list" duration timestamptz
  | SRelease "uuid list" uuid timestamptz
  | SReclaim nat timestamptz "uuid list"
  | SRequeue "uuid list" timestamptz
  | SRequeueBefore timestamptz nat timestamptz
  | SPurge duration nat timestamptz "uuid list"

fun exec :: "stmt \<Rightarrow> table \<Rightarrow> table" where
  "exec (SInsert now i stream topic payload hdrs tgt available) t =
     (case insert_stmt (insert_row now i stream topic payload hdrs tgt available) t of
        None \<Rightarrow> t
      | Some t' \<Rightarrow> t')"
| "exec (SClaim stream limit token ttl owner now locked) t =
     fst (claim_stmt stream limit token ttl owner now locked t)"
| "exec (SAck ids token now) t = fst (ack_stmt ids token now t)"
| "exec (SNack token ma ins md now) t =
     (case nack_stmt token ma ins md now t of None \<Rightarrow> t | Some (t', _) \<Rightarrow> t')"
| "exec (SRelease ids token now) t = fst (release_stmt ids token now t)"
| "exec (SReclaim limit now locked) t = fst (reclaim_stmt limit now locked t)"
| "exec (SRequeue ids now) t = fst (requeue_stmt ids now t)"
| "exec (SRequeueBefore before limit now) t = fst (requeue_before_stmt before limit now t)"
| "exec (SPurge retention limit now locked) t = fst (purge_stmt retention limit now locked t)"

definition run_stmts :: "stmt list \<Rightarrow> table \<Rightarrow> table" where
  "run_stmts ss t = fold exec ss t"

subsection \<open>One row under one statement\<close>

text \<open>
  What a statement does to one existing row; \<open>None\<close> when it deletes it.  The lemma \<open>row_of_exec\<close>
  reduces every question about a table to this function.
\<close>

fun row_exec :: "stmt \<Rightarrow> table \<Rightarrow> row \<Rightarrow> row option" where
  "row_exec (SInsert now i stream topic payload hdrs tgt available) t r = Some r"
| "row_exec (SClaim stream limit token ttl owner now locked) t r =
     Some (if id_in (due_ids stream limit now locked t) r then claim_set now token ttl owner r else r)"
| "row_exec (SAck ids token now) t r = Some (if held ids token r then ack_set now r else r)"
| "row_exec (SNack token ma ins md now) t r =
     Some (if \<not> (\<exists>r' \<in> set t. nack_overflows ins token r') \<and> nack_safe ins token r
           then nack_set ma md ins now r else r)"
| "row_exec (SRelease ids token now) t r =
     Some (if release_sel ids token r then pending_set now r else r)"
| "row_exec (SReclaim limit now locked) t r =
     Some (if id_in (map r_id (expired_rows limit now locked t)) r then pending_set now r else r)"
| "row_exec (SRequeue ids now) t r = Some (if requeue_sel ids r then requeue_set now r else r)"
| "row_exec (SRequeueBefore before limit now) t r =
     Some (if id_in (failed_before_ids before limit t) r then requeue_set now r else r)"
| "row_exec (SPurge retention limit now locked) t r =
     (if id_in (doomed_ids retention limit now locked t) r then None else Some r)"

lemma exec_nack:
  "exec (SNack token ma ins md now) t =
     (if \<exists>r \<in> set t. nack_overflows ins token r then t
      else update_where (nack_safe ins token) (nack_set ma md ins now) t)"
proof (cases "nack_stmt token ma ins md now t")
  case None
  then show ?thesis by (auto simp: nack_stmt_def split: if_splits)
next
  case (Some p)
  then obtain t' rs where p: "nack_stmt token ma ins md now t = Some (t', rs)"
    by (cases p) auto
  moreover from p have "\<not> (\<exists>r \<in> set t. nack_overflows ins token r)"
    by (auto simp: nack_stmt_def split: if_splits)
  ultimately show ?thesis using nack_stmt_SomeD [OF p] by simp
qed

lemma exec_ok: "table_ok t \<Longrightarrow> table_ok (exec s t)"
proof (cases s)
  case (SInsert now i stream topic payload hdrs tgt available)
  moreover assume "table_ok t"
  ultimately show ?thesis
    by (auto simp: insert_stmt_def insert_row_def table_ok_def inv_defs max_int32_def)
next
  case (SPurge retention limit now locked)
  moreover assume "table_ok t"
  ultimately show ?thesis
    by (auto simp: purge_stmt_def Let_def table_ok_def distinct_map_filter)
qed (auto simp del: exec.simps(4)
      simp: exec_nack claim_stmt_def ack_stmt_def release_stmt_def reclaim_stmt_def requeue_stmt_def
        requeue_before_stmt_def requeue_before_write_def Let_def
      intro: claim_upd.update_ok ack_upd.update_ok nack_upd.update_ok release_upd.update_ok
        reclaim_upd.update_ok requeue_upd.update_ok requeue_before_upd.update_ok)

lemma run_ok: "table_ok t \<Longrightarrow> table_ok (run_stmts ss t)"
  by (induction ss arbitrary: t) (auto simp: run_stmts_def exec_ok)

lemma row_of_exec:
  assumes "table_ok t" and "row_of i t = Some r"
  shows "row_of i (exec s t) = row_exec s t r"
proof (cases s)
  case (SInsert now j stream topic payload hdrs tgt available)
  with assms show ?thesis by (auto simp: insert_stmt_def row_of_append)
next
  case (SNack token ma ins md now)
  with assms show ?thesis by (auto simp del: exec.simps(4) simp: exec_nack nack_upd.row_of_update)
next
  case (SPurge retention limit now locked)
  with assms show ?thesis
    by (auto simp: purge_stmt_def Let_def row_of_filter)
qed (use assms in \<open>auto simp: claim_stmt_def ack_stmt_def release_stmt_def reclaim_stmt_def
        requeue_stmt_def requeue_before_stmt_def requeue_before_write_def Let_def claim_upd.row_of_update
        ack_upd.row_of_update release_upd.row_of_update reclaim_upd.row_of_update
        requeue_upd.row_of_update requeue_before_upd.row_of_update\<close>)

lemma run_stmts_simps [simp]:
  "run_stmts [] t = t"
  "run_stmts (s # ss) t = run_stmts ss (exec s t)"
  by (simp_all add: run_stmts_def)

lemma run_stmts_append: "run_stmts (ss @ ss') t = run_stmts ss' (run_stmts ss t)"
  by (simp add: run_stmts_def)

text \<open>What the guard of a statement says about the row it changes.\<close>

lemma row_exec_cases:
  assumes "table_ok t" and "r \<in> set t" and "row_exec s t r = Some r'" and "r' \<noteq> r"
  obtains
    (Claim) stream limit token ttl owner now locked where
      "s = SClaim stream limit token ttl owner now locked" "claim_due stream now locked r"
      "r' = claim_set now token ttl owner r"
  | (Ack) ids token now where
      "s = SAck ids token now" "held ids token r" "r' = ack_set now r"
  | (Nack) token ma ins md now where
      "s = SNack token ma ins md now" "nack_safe ins token r" "r' = nack_set ma md ins now r"
  | (Release) ids token now where
      "s = SRelease ids token now" "release_sel ids token r" "r' = pending_set now r"
  | (Reclaim) limit now locked where
      "s = SReclaim limit now locked" "lease_expired now locked r" "r' = pending_set now r"
  | (Requeue) ids now where
      "s = SRequeue ids now" "requeue_sel ids r" "r' = requeue_set now r"
  | (RequeueBefore) before limit now where
      "s = SRequeueBefore before limit now" "failed_before before r" "r' = requeue_set now r"
proof (cases s)
  case (SClaim stream limit token ttl owner now locked)
  with assms(3,4) have "id_in (due_ids stream limit now locked t) r"
    and "r' = claim_set now token ttl owner r"
    by (simp_all split: if_splits)
  with SClaim assms(1,2) show ?thesis
    by (intro Claim) (auto simp: id_in_def intro: due_idsD)
next
  case (SAck ids token now)
  with assms(3,4) show ?thesis by (intro Ack) (auto split: if_splits)
next
  case (SNack token ma ins md now)
  with assms(3,4) show ?thesis by (intro Nack) (auto split: if_splits)
next
  case (SRelease ids token now)
  with assms(3,4) show ?thesis by (intro Release) (auto split: if_splits)
next
  case (SReclaim limit now locked)
  with assms(3,4) have "id_in (map r_id (expired_rows limit now locked t)) r"
    and "r' = pending_set now r"
    by (simp_all split: if_splits)
  with SReclaim assms(1,2) show ?thesis
    by (intro Reclaim) (auto simp: id_in_def intro: expired_idD)
next
  case (SRequeue ids now)
  with assms(3,4) show ?thesis by (intro Requeue) (auto split: if_splits)
next
  case (SRequeueBefore before limit now)
  with assms(3,4) have "id_in (failed_before_ids before limit t) r" and "r' = requeue_set now r"
    by (simp_all split: if_splits)
  with SRequeueBefore assms(1,2) show ?thesis
    by (intro RequeueBefore) (auto simp: id_in_def intro: failed_before_idsD)
qed (use assms(3,4) in \<open>simp_all split: if_splits\<close>)

lemma row_exec_None:
  assumes "table_ok t" and "r \<in> set t" and "row_exec s t r = None"
  obtains (Purge) retention limit now locked where
      "s = SPurge retention limit now locked" "purgeable retention now locked r"
  using assms by (cases s) (auto simp: id_in_def dest: doomed_idsD split: if_splits)

end
