(* ===== verification/Store_Safety.thy ===== *)
theory Store_Safety
  imports Store_History
begin

text \<open>
  Safety of the outbox table over every history: the constraints of the schema, the life cycle of
  a row, exclusive ownership of a leased row, the harmlessness of a stale write-back, and that
  nothing leaves the table before it was sent.
\<close>

subsection \<open>Definitions\<close>

text \<open>The life cycle of a row, as the comments of \<open>core.Status\<close> describe it.\<close>

definition lifecycle :: "status \<Rightarrow> status \<Rightarrow> bool" where
  "lifecycle s s' \<longleftrightarrow>
     s' = s
     \<or> (s = StatusPending \<and> s' = StatusProcessing)
     \<or> (s = StatusProcessing \<and> s' \<in> {StatusPending, StatusSent, StatusFailed})
     \<or> (s = StatusFailed \<and> s' = StatusPending)"

text \<open>A statement presents a token when it is a write-back carrying it.\<close>

fun presents :: "uuid \<Rightarrow> stmt \<Rightarrow> bool" where
  "presents token (SAck ids tok now) \<longleftrightarrow> tok = token"
| "presents token (SNack tok ma ins md now) \<longleftrightarrow> tok = token"
| "presents token (SRelease ids tok now) \<longleftrightarrow> tok = token"
| "presents token s \<longleftrightarrow> False"

fun claims_with :: "uuid \<Rightarrow> stmt \<Rightarrow> bool" where
  "claims_with token (SClaim stream limit tok ttl owner now locked) \<longleftrightarrow> tok = token"
| "claims_with token s \<longleftrightarrow> False"

text \<open>A statement spares a lease when it neither presents its token nor reclaims it after its end.\<close>

fun spares :: "uuid \<Rightarrow> timestamptz \<Rightarrow> stmt \<Rightarrow> bool" where
  "spares token until (SReclaim limit now locked) \<longleftrightarrow> now < until"
| "spares token until s \<longleftrightarrow> \<not> presents token s"

fun inserts :: "uuid \<Rightarrow> stmt \<Rightarrow> bool" where
  "inserts i (SInsert now j stream topic payload hdrs tgt available) \<longleftrightarrow> j = i"
| "inserts i s \<longleftrightarrow> False"

text \<open>A small table for the witnesses: one pending message.\<close>

definition demo_row :: row where
  "demo_row = insert_row 1000 ''m1'' ''local'' ''orders'' ''x'' (JObj []) (JObj []) None"

definition demo_claim :: stmt where
  "demo_claim = SClaim ''local'' 10 ''tok1'' 60000000000 ''pod-a'' 2000 []"

definition demo_leased :: row where
  "demo_leased = claim_set 2000 ''tok1'' 60000000000 ''pod-a'' demo_row"

definition demo_sent :: row where
  "demo_sent = ack_set 3000 demo_leased"

subsection \<open>Lemmas\<close>

lemma held_processing: "row_ok r \<Longrightarrow> r_lease_token r = Some token \<Longrightarrow> r_status r = StatusProcessing"
  by (simp add: inv_defs)

lemma nack_set_status:
  "nack_safe ins token r \<Longrightarrow> r_status (nack_set ma md ins now r) \<in> {StatusPending, StatusFailed}"
  by (auto simp: nack_safe_def nack_sel_def nack_set_def nack_apply_def Let_def split: option.splits)

lemma row_exec_producer: "row_exec s t r = Some r' \<Longrightarrow> producer_part r' = producer_part r"
  by (cases s)
    (auto simp: claim_upd.upd_producer ack_upd.upd_producer nack_upd.upd_producer
       release_upd.upd_producer reclaim_upd.upd_producer requeue_upd.upd_producer
       split: if_splits)

lemma row_exec_lifecycle:
  assumes "table_ok t" and "r \<in> set t" and "row_exec s t r = Some r'"
  shows "lifecycle (r_status r) (r_status r')"
proof (cases "r' = r")
  case False
  have ok: "row_ok r" using assms by (simp add: table_okD)
  from assms False show ?thesis
  proof (cases rule: row_exec_cases)
    case (Claim stream limit token ttl owner now locked)
    then show ?thesis by (simp add: lifecycle_def claim_due_def claim_set_def)
  next
    case (Ack ids token now)
    with held_processing [OF ok] show ?thesis by (simp add: lifecycle_def held_def ack_set_def)
  next
    case (Nack token ma ins md now)
    with held_processing [OF ok] nack_set_status [of ins token r ma md now] show ?thesis
      by (auto simp: lifecycle_def nack_safe_def nack_sel_def)
  qed (auto simp: lifecycle_def release_sel_def lease_expired_def requeue_sel_def failed_before_def
        pending_set_def requeue_set_def)
qed (simp add: lifecycle_def)

lemma row_exec_spares:
  assumes "table_ok t" and "r \<in> set t" and "r_lease_token r = Some token"
    and "r_lease_until r = Some until" and "spares token until s"
  shows "row_exec s t r = Some r"
proof (cases "row_exec s t r")
  case None
  with assms held_processing [of r] show ?thesis
    by (auto simp: purgeable_def table_okD elim!: row_exec_None)
next
  case (Some r')
  show ?thesis
  proof (rule ccontr)
    assume "row_exec s t r \<noteq> Some r"
    with Some have "r' \<noteq> r" by simp
    from assms(1,2) Some this show False
      using assms held_processing [of r] table_okD [OF assms(1,2)]
      by (cases rule: row_exec_cases)
        (auto simp: claim_due_def held_def nack_safe_def nack_sel_def release_sel_def
          lease_expired_def requeue_sel_def failed_before_def)
  qed
qed

lemma row_of_run_spares:
  assumes "table_ok t" and "row_of i t = Some r" and "r_lease_token r = Some token"
    and "r_lease_until r = Some until" and "\<forall>s \<in> set ss. spares token until s"
  shows "row_of i (run_stmts ss t) = Some r"
  using assms
proof (induction ss arbitrary: t)
  case (Cons s ss)
  have "row_exec s t r = Some r"
    using Cons.prems by (intro row_exec_spares) (auto dest: row_of_SomeD)
  then have "row_of i (exec s t) = Some r"
    using Cons.prems by (simp add: row_of_exec)
  with Cons.prems Cons.IH [of "exec s t"] show ?case by (simp add: exec_ok)
qed simp

lemma row_exec_sent:
  assumes "table_ok t" and "r \<in> set t" and "r_status r = StatusSent" and "row_exec s t r = Some r'"
  shows "r' = r"
proof (rule ccontr)
  assume "r' \<noteq> r"
  from assms(1,2,4) this show False
    using assms(3) held_processing [OF table_okD [OF assms(1,2)]]
    by (cases rule: row_exec_cases)
      (auto simp: claim_due_def held_def nack_safe_def nack_sel_def release_sel_def
        lease_expired_def requeue_sel_def failed_before_def)
qed

subsection \<open>No row holds a token\<close>

definition token_free :: "uuid \<Rightarrow> table \<Rightarrow> bool" where
  "token_free token t \<longleftrightarrow> (\<forall>r \<in> set t. r_lease_token r \<noteq> Some token)"

lemma presents_noop: "token_free token t \<Longrightarrow> presents token s \<Longrightarrow> exec s t = t"
  by (cases s)
    (auto simp del: exec.simps(4)
      simp: exec_nack ack_stmt_def release_stmt_def token_free_def held_def release_sel_def
        nack_safe_def nack_sel_def
      intro!: update_where_none)

lemma token_free_update:
  assumes "token_free token t" and "\<And>r. sel r \<Longrightarrow> r_lease_token (upd r) \<noteq> Some token"
  shows "token_free token (update_where sel upd t)"
  using assms by (auto simp: token_free_def set_update_where)

lemma nack_set_token: "nack_safe ins token r \<Longrightarrow> r_lease_token (nack_set ma md ins now r) = None"
  by (auto simp: nack_safe_def nack_sel_def nack_set_def nack_apply_def Let_def split: option.splits)

lemma token_free_exec:
  assumes "token_free token t" and "\<not> claims_with token s"
  shows "token_free token (exec s t)"
proof (cases s)
  case (SInsert now i stream topic payload hdrs tgt available)
  with assms show ?thesis by (auto simp: insert_stmt_def insert_row_def token_free_def)
next
  case (SNack tok ma ins md now)
  with assms(1) show ?thesis
    by (simp del: exec.simps(4) add: exec_nack nack_set_token token_free_update)
next
  case (SPurge retention limit now locked)
  with assms(1) show ?thesis by (simp add: purge_stmt_def Let_def token_free_def)
qed (use assms in \<open>simp_all add: claim_stmt_def ack_stmt_def release_stmt_def reclaim_stmt_def
      requeue_stmt_def requeue_before_stmt_def requeue_before_write_def Let_def token_free_update claim_set_def ack_set_def
      pending_set_def requeue_set_def\<close>)

lemma run_without_stale:
  assumes "token_free token t" and "\<forall>s \<in> set ss. \<not> claims_with token s"
  shows "run_stmts ss t = run_stmts (filter (\<lambda>s. \<not> presents token s) ss) t"
  using assms
proof (induction ss arbitrary: t)
  case (Cons s ss)
  then show ?case
    using Cons.IH [of "exec s t"] presents_noop [of token t s] token_free_exec [of token t s]
    by auto
qed simp

lemma exec_ids: "r_id ` set (exec s t) \<subseteq> r_id ` set t \<union> {i. inserts i s}"
proof (cases s)
  case (SInsert now j stream topic payload hdrs tgt available)
  then show ?thesis by (auto simp: insert_stmt_def insert_row_def)
next
  case (SNack token ma ins md now)
  then show ?thesis by (simp del: exec.simps(4) add: exec_nack)
next
  case (SPurge retention limit now locked)
  then show ?thesis by (auto simp: purge_stmt_def Let_def)
qed (simp_all add: claim_stmt_def ack_stmt_def release_stmt_def reclaim_stmt_def requeue_stmt_def
      requeue_before_stmt_def requeue_before_write_def Let_def)

lemma row_of_exec_insert:
  "row_of i t = None \<Longrightarrow> row_of i (exec s t) = Some r' \<Longrightarrow> inserts i s"
  using exec_ids [of s t] by (auto simp: row_of_None_iff dest!: row_of_SomeD)

lemma demo_simps [simp]:
  "table_ok [demo_row]" "table_ok [demo_leased]" "table_ok [demo_sent]"
  "row_of ''m1'' [demo_row] = Some demo_row" "row_of ''m1'' [demo_leased] = Some demo_leased"
  "row_of ''m1'' [demo_sent] = Some demo_sent"
  "r_lease_token demo_leased = Some ''tok1''" "r_lease_until demo_leased = Some 60002000"
  "r_status demo_sent = StatusSent" "r_status demo_row = StatusPending" "r_attempts demo_row = 0"
  "r_deferred_since demo_row = None" "r_status demo_leased = StatusProcessing"
  "r_attempts demo_leased = 0" "r_id demo_leased = ''m1''" "r_id demo_row = ''m1''"
  by (simp_all add: demo_row_def demo_leased_def demo_sent_def insert_row_def table_ok_def row_of_def
      inv_defs stmt_defs max_int32_def make_interval_def)

lemma deleted_was_sent:
  assumes "table_ok t" and "row_of i t = Some r" and "row_of i (run_stmts ss t) = None"
  shows "\<exists>pre s post r' retention limit now locked.
           ss = pre @ s # post \<and> s = SPurge retention limit now locked
           \<and> row_of i (run_stmts pre t) = Some r' \<and> r_status r' = StatusSent
           \<and> purgeable retention now locked r'"
  using assms
proof (induction ss arbitrary: t r)
  case (Cons s ss)
  have r: "r \<in> set t" using Cons.prems(2) by (auto dest: row_of_SomeD)
  show ?case
  proof (cases "row_exec s t r")
    case None
    with Cons.prems(1) r obtain retention limit now locked
      where "s = SPurge retention limit now locked" and "purgeable retention now locked r"
      by (auto elim: row_exec_None)
    with Cons.prems(2) show ?thesis
      by (intro exI [of _ "[]"] exI [of _ s] exI [of _ ss] exI [of _ r]) (auto simp: purgeable_def)
  next
    case (Some r1)
    with Cons.prems have step: "row_of i (exec s t) = Some r1" by (simp add: row_of_exec)
    from Cons.prems have "row_of i (run_stmts ss (exec s t)) = None" by simp
    from Cons.IH [OF exec_ok [OF Cons.prems(1)] step this]
    obtain pre s' post r' retention limit now locked
      where "ss = pre @ s' # post" and "s' = SPurge retention limit now locked"
        and "row_of i (run_stmts pre (exec s t)) = Some r'" and "r_status r' = StatusSent"
        and "purgeable retention now locked r'"
      by blast
    then show ?thesis
      by (intro exI [of _ "s # pre"] exI [of _ s'] exI [of _ post] exI [of _ r']) auto
  qed
qed simp

subsection \<open>Properties\<close>

text \<open>
  C2.  A stale write-back is harmless.  From a state in which no row carries a token, and along any
  history that does not claim with it again, every acknowledge, negative acknowledge and release
  presenting that token can be removed from the history without changing the resulting table.  An
  instance whose lease was reclaimed cannot overwrite what its successor recorded.
\<close>

theorem stale_writeback_has_no_effect:
  assumes "\<forall>r \<in> set t. r_lease_token r \<noteq> Some token"
    and "\<forall>s \<in> set ss. \<not> claims_with token s"
  shows "run_stmts ss t = run_stmts (filter (\<lambda>s. \<not> presents token s) ss) t"
  using assms by (intro run_without_stale) (simp_all add: token_free_def)

theorem stale_writeback_has_no_effect_witness:
  "run_stmts [SAck [''m1''] ''old'' 2500, SReclaim 10 99000000 [], SNack ''old'' 5 [] 0 99000001]
     [demo_leased]
   = run_stmts [SReclaim 10 99000000 []] [demo_leased]"
  using stale_writeback_has_no_effect [of "[demo_leased]" "''old''"
      "[SAck [''m1''] ''old'' 2500, SReclaim 10 99000000 [], SNack ''old'' 5 [] 0 99000001]"]
  by (simp del: run_stmts_simps)

text \<open>
  C3.  Nothing is lost.  If a message present in the table is gone after some history, then somewhere
  in that history its row had status \<open>sent\<close> and was older than the retention window of the purge
  that removed it.  No pending, leased or failed message ever disappears.
\<close>

theorem only_sent_rows_are_deleted:
  assumes "table_ok t" and "row_of i t = Some r" and "row_of i (run_stmts ss t) = None"
  shows "\<exists>pre s post r' retention limit now locked.
           ss = pre @ s # post \<and> s = SPurge retention limit now locked
           \<and> row_of i (run_stmts pre t) = Some r' \<and> r_status r' = StatusSent
           \<and> purgeable retention now locked r'"
  using assms by (rule deleted_was_sent)

theorem only_sent_rows_are_deleted_witness:
  "\<exists>pre s post r' retention limit now locked.
     [SAck [''m1''] ''tok1'' 3000, SPurge 0 10 9000 []] = pre @ s # post
     \<and> s = SPurge retention limit now locked
     \<and> row_of ''m1'' (run_stmts pre [demo_leased]) = Some r' \<and> r_status r' = StatusSent
     \<and> purgeable retention now locked r'"
proof (rule only_sent_rows_are_deleted)
  show "table_ok [demo_leased]" and "row_of ''m1'' [demo_leased] = Some demo_leased" by simp_all
  have ack: "exec (SAck [''m1''] ''tok1'' 3000) [demo_leased] = [demo_sent]"
    by (simp add: ack_stmt_def update_where_def held_def demo_sent_def demo_leased_def claim_set_def
        demo_row_def insert_row_def)
  have purge: "exec (SPurge 0 10 9000 []) [demo_sent] = []"
    by (simp add: purge_stmt_def doomed_ids_def purgeable_def id_in_def demo_sent_def ack_set_def
        make_interval_def)
  show "row_of ''m1'' (run_stmts [SAck [''m1''] ''tok1'' 3000, SPurge 0 10 9000 []] [demo_leased])
      = None"
    by (simp del: exec.simps add: ack purge row_of_def)
qed



text \<open>
  A sent row stays exactly as the acknowledge left it, whatever is executed afterwards, until a
  purge removes it: an expired replica cannot resurrect a delivered message.
\<close>

lemma sent_row_is_final:
  assumes "table_ok t" and "row_of i t = Some r" and "r_status r = StatusSent"
  shows "row_of i (run_stmts ss t) = Some r
         \<or> (\<exists>pre post. ss = pre @ post \<and> row_of i (run_stmts pre t) = None)"
  using assms
proof (induction ss arbitrary: t)
  case (Cons s ss)
  have r: "r \<in> set t" using Cons.prems(2) by (auto dest: row_of_SomeD)
  show ?case
  proof (cases "row_exec s t r")
    case None
    with Cons.prems have "row_of i (run_stmts [s] t) = None" by (simp add: row_of_exec)
    then show ?thesis by (metis append_Cons append_Nil)
  next
    case (Some r')
    with Cons.prems r have "row_of i (exec s t) = Some r"
      by (metis row_exec_sent row_of_exec)
    with Cons.IH [of "exec s t"] Cons.prems show ?thesis
      by (metis append_Cons exec_ok run_stmts_simps(2))
  qed
qed simp

lemma sent_row_is_final_witness:
  "row_of ''m1'' (run_stmts [SRequeue [''m1''] 4000, SAck [''m1''] ''tok1'' 5000] [demo_sent])
     = Some demo_sent
   \<or> (\<exists>pre post. [SRequeue [''m1''] 4000, SAck [''m1''] ''tok1'' 5000] = pre @ post
        \<and> row_of ''m1'' (run_stmts pre [demo_sent]) = None)"
  by (rule sent_row_is_final) simp_all

text \<open>
  C11.  Type invariant.  Every history keeps the primary key and every CHECK constraint of the schema:
  a row is leased exactly while it is being processed, whatever the interleaving, so PostgreSQL
  never rejects a statement of the dispatcher for violating one.
\<close>

theorem history_keeps_constraints:
  assumes "table_ok t"
  shows "table_ok (run_stmts ss t)"
  using assms by (rule run_ok)

theorem history_keeps_constraints_witness:
  "table_ok (run_stmts [demo_claim, SAck [''m1''] ''tok1'' 3000] [demo_row])"
  by (rule history_keeps_constraints) simp

text \<open>
  The dispatcher never edits what a producer wrote: id, stream, topic, payload, headers, target and
  creation time of a message are the same after any history that does not insert that id again.
\<close>

lemma producer_columns_are_immutable:
  assumes "table_ok t" and "row_of i t = Some r" and "row_of i (run_stmts ss t) = Some r'"
    and "\<forall>s \<in> set ss. \<not> inserts i s"
  shows "producer_part r' = producer_part r"
proof -
  have gone: "row_of i (run_stmts ss t) = None" if "row_of i t = None" "\<forall>s \<in> set ss. \<not> inserts i s" for t ss
    using that
  proof (induction ss arbitrary: t)
    case (Cons s ss)
    then show ?case by (cases "row_of i (exec s t)") (auto dest: row_of_exec_insert)
  qed simp
  show ?thesis using assms
  proof (induction ss arbitrary: t r)
    case (Cons s ss)
    then obtain r1 where r1: "row_of i (exec s t) = Some r1"
      using gone [of "exec s t" ss] by fastforce
    then have "producer_part r1 = producer_part r"
      using Cons.prems by (simp add: row_of_exec row_exec_producer)
    moreover have "producer_part r' = producer_part r1"
      using Cons.IH [OF exec_ok r1] Cons.prems by simp
    ultimately show ?case by simp
  qed simp
qed

lemma producer_columns_are_immutable_witness:
  "producer_part demo_sent = producer_part demo_leased"
proof (rule producer_columns_are_immutable)
  show "table_ok [demo_leased]" and "row_of ''m1'' [demo_leased] = Some demo_leased" by simp_all
  show "row_of ''m1'' (run_stmts [SAck [''m1''] ''tok1'' 3000] [demo_leased]) = Some demo_sent"
    by (simp add: ack_stmt_def update_where_def held_def demo_sent_def demo_leased_def claim_set_def
        demo_row_def insert_row_def row_of_def ack_set_def)
qed simp

end
