(* ===== verification/Store_Retry.thy ===== *)
theory Store_Retry
  imports Store_Safety
begin

text \<open>
  What a negative acknowledge does: the three outcomes of \<open>nackSQL\<close>, the retry budget over every
  history, and the deferral of messages whose broker could not be reached.
\<close>

subsection \<open>Definitions\<close>

text \<open>A row has not used up a budget of \<open>m\<close> attempts, unless it has stopped being retried.\<close>

definition within_budget :: "int \<Rightarrow> row \<Rightarrow> bool" where
  "within_budget m r \<longleftrightarrow>
     r_attempts r \<le> m \<and> (r_status r \<in> {StatusPending, StatusProcessing} \<longrightarrow> r_attempts r < m)"

fun nacks_with_budget :: "int \<Rightarrow> stmt \<Rightarrow> bool" where
  "nacks_with_budget m (SNack token ma ins md now) \<longleftrightarrow> ma \<le> m"
| "nacks_with_budget m s \<longleftrightarrow> True"

text \<open>
  An outage, seen from one message: whenever a replica reports a failure for it, the failure is a
  deferral, and no bound is set on how long it may be deferred (\<open>MaxDefer = 0\<close>).
\<close>

fun only_defers :: "uuid \<Rightarrow> stmt \<Rightarrow> bool" where
  "only_defers i (SNack token ma ins md now) \<longleftrightarrow>
     md = 0 \<and> (\<forall>x \<in> set ins. ni_id x = i \<longrightarrow> ni_deferred x \<and> \<not> ni_permanent x)"
| "only_defers i s \<longleftrightarrow> True"

text \<open>The marker \<open>deferred_since\<close> is only on rows that are still waiting to be delivered.\<close>

definition deferred_is_live :: "row \<Rightarrow> bool" where
  "deferred_is_live r \<longleftrightarrow>
     r_deferred_since r \<noteq> None \<longrightarrow> r_status r \<in> {StatusPending, StatusProcessing}"

subsection \<open>Lemmas\<close>

lemma row_prop_exec:
  assumes "table_ok t" and "\<forall>r \<in> set t. P r"
    and "\<And>r r'. r \<in> set t \<Longrightarrow> P r \<Longrightarrow> row_exec s t r = Some r' \<Longrightarrow> r' \<noteq> r \<Longrightarrow> P r'"
    and "\<And>now i stream topic payload hdrs tgt available. s = SInsert now i stream topic payload hdrs tgt available \<Longrightarrow>
           P (insert_row now i stream topic payload hdrs tgt available)"
  shows "\<forall>r \<in> set (exec s t). P r"
proof
  fix r' assume r': "r' \<in> set (exec s t)"
  have look: "row_of (r_id r') (exec s t) = Some r'"
    using r' assms(1) by (simp add: exec_ok)
  show "P r'"
  proof (cases "row_of (r_id r') t")
    case (Some r)
    then have "r \<in> set t" and "row_exec s t r = Some r'"
      using look assms(1) by (auto simp: row_of_exec dest: row_of_SomeD)
    with assms(2) assms(3) [of r r'] show ?thesis by (cases "r' = r") simp_all
  next
    case None
    from row_of_exec_insert [OF this look] have "inserts (r_id r') s" .
    then obtain now stream topic payload hdrs tgt available
      where s: "s = SInsert now (r_id r') stream topic payload hdrs tgt available"
      by (cases s) auto
    from None r' have "r' = insert_row now (r_id r') stream topic payload hdrs tgt available"
      by (auto simp: s insert_stmt_def row_of_None_iff split: if_splits)
    then show ?thesis using assms(4) [OF s] by simp
  qed
qed

text \<open>
  The contract of an invariant of rows: statements that are allowed keep it, on rows they change and on rows
  they insert.  What holds of such an invariant over every history is proved once here, and over
  everything the program does in \<open>System_Run\<close>.
\<close>

locale row_invariant =
  fixes P :: "row \<Rightarrow> bool" and allowed :: "stmt \<Rightarrow> bool"
  assumes exec_keeps: "allowed s \<Longrightarrow> table_ok t \<Longrightarrow> r \<in> set t \<Longrightarrow> P r \<Longrightarrow> row_exec s t r = Some r' \<Longrightarrow> r' \<noteq> r \<Longrightarrow> P r'"
    and insert_keeps: "allowed (SInsert now i stream topic payload hdrs tgt available) \<Longrightarrow>
           P (insert_row now i stream topic payload hdrs tgt available)"
begin

lemma keeps_exec:
  assumes "table_ok t" and "\<forall>r \<in> set t. P r" and "allowed s"
  shows "\<forall>r \<in> set (exec s t). P r"
  using assms(1,2)
proof (rule row_prop_exec)
  show "P r'" if "r \<in> set t" "P r" "row_exec s t r = Some r'" "r' \<noteq> r" for r r'
    using exec_keeps [OF assms(3,1)] that by blast
  show "P (insert_row now i stream topic payload hdrs tgt available)"
    if "s = SInsert now i stream topic payload hdrs tgt available" for now i stream topic payload hdrs tgt available
    using insert_keeps assms(3) that by blast
qed

lemma keeps_run:
  "table_ok t \<Longrightarrow> \<forall>r \<in> set t. P r \<Longrightarrow> \<forall>s \<in> set ss. allowed s \<Longrightarrow> \<forall>r \<in> set (run_stmts ss t). P r"
proof (induction ss arbitrary: t)
  case (Cons s ss)
  then have "\<forall>r \<in> set (exec s t). P r" by (intro keeps_exec) auto
  with Cons.prems Cons.IH [OF exec_ok] show ?case by simp
qed simp

end

lemma nack_set_apply:
  assumes "nack_input_for ins r = Some x"
  shows "nack_set ma md ins now r = nack_apply ma md now x r"
  using assms by (simp add: nack_set_def)

lemma nack_safeE:
  assumes "nack_safe ins token r"
  obtains x where "nack_input_for ins r = Some x" and "x \<in> set ins" and "ni_id x = r_id r"
    and "r_lease_token r = Some token"
  using assms by (auto simp: nack_safe_def nack_sel_def nack_input_for_def dest: find_Some_mem)

lemma row_exec_budget:
  assumes "1 \<le> m" and "nacks_with_budget m s" and "table_ok t" and "r \<in> set t"
    and "within_budget m r" and "row_exec s t r = Some r'" and "r' \<noteq> r"
  shows "within_budget m r'"
  using assms(3,4,6,7)
proof (cases rule: row_exec_cases)
  case (Claim stream limit token ttl owner now locked)
  with assms(5) show ?thesis by (auto simp: within_budget_def claim_set_def claim_due_def)
next
  case (Nack token ma ins md now)
  from Nack(2) obtain x where x: "nack_input_for ins r = Some x" and "r_lease_token r = Some token"
    by (rule nack_safeE)
  then have "r_status r = StatusProcessing"
    using assms(3,4) by (simp add: held_processing table_okD)
  with assms(2,5) Nack x show ?thesis
    by (auto simp: within_budget_def nack_set_apply nack_apply_def nack_terminal_def Let_def)
next
  case (Release ids token now)
  with assms(3-5) show ?thesis by (auto simp: within_budget_def pending_set_def release_sel_def)
next
  case (Reclaim limit now locked)
  with assms(3-5) show ?thesis by (auto simp: within_budget_def pending_set_def lease_expired_def)
qed (use assms(1,5) in \<open>auto simp: within_budget_def ack_set_def requeue_set_def\<close>)

interpretation budget: row_invariant "within_budget m" "\<lambda>s. 1 \<le> m \<and> nacks_with_budget m s" for m
proof unfold_locales
  show "within_budget m (insert_row now i stream topic payload hdrs tgt available)"
    if "1 \<le> m \<and> nacks_with_budget m (SInsert now i stream topic payload hdrs tgt available)"
    for now i stream topic payload hdrs tgt available
    using that by (simp add: within_budget_def insert_row_def)
qed (blast intro: row_exec_budget)

lemma row_exec_live:
  assumes "deferred_is_live r" and "row_ok r" and "table_ok t" and "r \<in> set t"
    and "row_exec s t r = Some r'" and "r' \<noteq> r"
  shows "deferred_is_live r'"
  using assms(3-6)
proof (cases rule: row_exec_cases)
  case (Nack token ma ins md now)
  then show ?thesis
    by (auto simp: deferred_is_live_def nack_set_apply nack_apply_def Let_def elim!: nack_safeE)
qed (auto simp: deferred_is_live_def claim_set_def ack_set_def pending_set_def requeue_set_def)

interpretation backlog: row_invariant deferred_is_live "\<lambda>_. True"
proof unfold_locales
  show "deferred_is_live (insert_row now i stream topic payload hdrs tgt available)" for now i stream topic payload hdrs tgt available
    by (simp add: deferred_is_live_def insert_row_def)
qed (blast intro: row_exec_live table_okD)

lemma row_exec_defers:
  assumes "table_ok t" and "r \<in> set t" and "only_defers (r_id r) s"
    and "r_status r \<in> {StatusPending, StatusProcessing, StatusSent}" and "row_exec s t r = Some r'"
  shows "r_attempts r' = r_attempts r \<and> r_status r' \<in> {StatusPending, StatusProcessing, StatusSent}"
proof (cases "r' = r")
  case False
  from assms(1,2,5) False show ?thesis
  proof (cases rule: row_exec_cases)
    case (Nack token ma ins md now)
    with assms(3) show ?thesis
      by (auto simp: nack_set_apply nack_apply_def nack_terminal_def Let_def elim!: nack_safeE)
  qed (use assms(4) in \<open>auto simp: claim_set_def ack_set_def pending_set_def requeue_sel_def
        failed_before_def\<close>)
qed (use assms(4) in auto)

subsection \<open>Properties\<close>

text \<open>
  The INTEGER column never overflows.  Under a budget that fits the column, a negative acknowledge
  after any history is never rejected by PostgreSQL for an attempt counter out of range.
\<close>

lemma attempt_counter_never_overflows:
  assumes "1 \<le> m" and "m \<le> max_int32" and "table_ok t" and "\<forall>r \<in> set t. within_budget m r"
    and "\<forall>s \<in> set ss. nacks_with_budget m s"
  shows "nack_stmt token m ins md now (run_stmts ss t) \<noteq> None"
proof -
  let ?t = "run_stmts ss t"
  have ok: "table_ok ?t" using assms(3) by (rule run_ok)
  have budget: "\<forall>r \<in> set ?t. within_budget m r" using budget.keeps_run [of t m ss] assms by simp
  have "\<not> nack_overflows ins token r" if "r \<in> set ?t" for r
    using that budget assms(2) held_processing [OF table_okD [OF ok that], of token]
    by (force simp: nack_overflows_def within_budget_def split: option.splits)
  then show ?thesis by (auto simp: nack_stmt_def)
qed

lemma attempt_counter_never_overflows_witness:
  "nack_stmt ''tok1'' 5 [] 0 3000 (run_stmts [demo_claim] [demo_row]) \<noteq> None"
  by (rule attempt_counter_never_overflows)
    (simp_all add: demo_claim_def within_budget_def max_int32_def)

text \<open>
  C12.  An outage costs nothing.  While every failure reported for a message is a deferral and
  \<open>MaxDefer\<close> is zero, no history of any length charges it an attempt or moves it to failed: it is
  pending, leased or delivered, with the counter it had, for as long as its row exists.
\<close>

theorem outage_spends_no_attempt:
  assumes "table_ok t" and "row_of i t = Some r"
    and "r_status r \<in> {StatusPending, StatusProcessing, StatusSent}"
    and "\<forall>s \<in> set ss. only_defers i s \<and> \<not> inserts i s"
    and "row_of i (run_stmts ss t) = Some r'"
  shows "r_attempts r' = r_attempts r \<and> r_status r' \<in> {StatusPending, StatusProcessing, StatusSent}"
  using assms
proof (induction ss arbitrary: t r)
  case (Cons s ss)
  have r: "r \<in> set t" "r_id r = i" using Cons.prems(2) by (auto dest: row_of_SomeD)
  show ?case
  proof (cases "row_of i (exec s t)")
    case None
    then have False
      using Cons.prems(4,5)
    proof (induction ss arbitrary: t s)
      case (Cons s' ss)
      then show ?case
        by (cases "row_of i (exec s' (exec s t))") (auto dest: row_of_exec_insert)
    qed simp
    then show ?thesis ..
  next
    case (Some r1)
    with Cons.prems have "row_exec s t r = Some r1" by (simp add: row_of_exec)
    with Cons.prems r have r1: "r_attempts r1 = r_attempts r
        \<and> r_status r1 \<in> {StatusPending, StatusProcessing, StatusSent}"
      by (intro row_exec_defers) auto
    moreover have "r_attempts r' = r_attempts r1
        \<and> r_status r' \<in> {StatusPending, StatusProcessing, StatusSent}"
      using Cons.prems r1 by (intro Cons.IH [OF exec_ok Some]) auto
    ultimately show ?thesis by simp
  qed
qed simp

theorem outage_spends_no_attempt_witness:
  "r_attempts (nack_apply 5 0 3000 \<lparr>ni_id = ''m1'', ni_err = ''down'', ni_permanent = False,
       ni_deferred = True, ni_delay = second\<rparr> demo_leased) = r_attempts demo_leased
   \<and> r_status (nack_apply 5 0 3000 \<lparr>ni_id = ''m1'', ni_err = ''down'', ni_permanent = False,
       ni_deferred = True, ni_delay = second\<rparr> demo_leased)
       \<in> {StatusPending, StatusProcessing, StatusSent}"
proof (rule outage_spends_no_attempt)
  show "table_ok [demo_leased]" and "row_of ''m1'' [demo_leased] = Some demo_leased" by simp_all
  show "r_status demo_leased \<in> {StatusPending, StatusProcessing, StatusSent}" by simp
  show "row_of ''m1'' (run_stmts [SNack ''tok1'' 5 [\<lparr>ni_id = ''m1'', ni_err = ''down'',
       ni_permanent = False, ni_deferred = True, ni_delay = second\<rparr>] 0 3000] [demo_leased])
      = Some (nack_apply 5 0 3000 \<lparr>ni_id = ''m1'', ni_err = ''down'', ni_permanent = False,
       ni_deferred = True, ni_delay = second\<rparr> demo_leased)"
    by (simp add: nack_stmt_def nack_overflows_def nack_input_for_def nack_sel_def nack_set_def
        update_where_def row_of_def nack_apply_def Let_def)
qed simp

text \<open>
  C13.  The three outcomes of a reported failure, for the holder of the lease.  The row ends failed
  exactly when the failure is permanent, or an ordinary failure uses the last attempt, or a
  deferral has lasted \<open>MaxDefer\<close>; otherwise it returns to pending, not before the given delay.
  Only a failure that was not deferred is charged.  The lease is gone either way, and the deferral
  marker survives only a deferral that is not the last, keeping the time of the first one.
\<close>

theorem nack_decides_retry:
  assumes "table_ok t" and "row_of i t = Some r" and "r_lease_token r = Some token"
    and "nack_input_for ins r = Some x" and "nack_stmt token ma ins md now t = Some (t', rs)"
  shows "\<exists>r'. row_of i t' = Some r' \<and> r' \<in> set rs
     \<and> r_lease_token r' = None \<and> r_lease_until r' = None \<and> r_owner r' = None
     \<and> r_attempts r' = r_attempts r + (if ni_deferred x then 0 else 1)
     \<and> r_status r' = (if ni_permanent x \<or> (\<not> ni_deferred x \<and> ma \<le> r_attempts r + 1)
                         \<or> (ni_deferred x \<and> 0 < md
                            \<and> deferred_start now r + make_interval md \<le> now)
                       then StatusFailed else StatusPending)
     \<and> r_available_at r' = (if r_status r' = StatusFailed then r_available_at r
                            else now + make_interval (ni_delay x))
     \<and> r_deferred_since r' = (if r_status r' = StatusPending \<and> ni_deferred x
                              then Some (deferred_start now r) else None)"
proof -
  have r: "r \<in> set t" using assms(2) by (auto dest: row_of_SomeD)
  from assms(5) r have "\<not> nack_overflows ins token r"
    by (auto simp: nack_stmt_def split: if_splits)
  with assms(3,4) have safe: "nack_safe ins token r"
    by (simp add: nack_safe_def nack_sel_def)
  with nack_stmt_SomeD [OF assms(5)] assms(2)
  have "row_of i t' = Some (nack_apply ma md now x r)"
    by (simp add: nack_upd.row_of_update nack_set_apply [OF assms(4)])
  moreover have "nack_apply ma md now x r \<in> set rs"
    using nack_stmt_SomeD(2) [OF assms(5)] r safe
    by (auto simp: returning_def nack_set_apply [OF assms(4)] intro!: rev_image_eqI)
  ultimately show ?thesis
    by (intro exI [of _ "nack_apply ma md now x r"])
      (auto simp: nack_apply_def nack_terminal_def Let_def algebra_simps)
qed

theorem nack_decides_retry_witness:
  "\<exists>t' rs r'. nack_stmt ''tok1'' 1 [\<lparr>ni_id = ''m1'', ni_err = ''no'', ni_permanent = False,
        ni_deferred = False, ni_delay = second\<rparr>] 0 3000 [demo_leased] = Some (t', rs)
     \<and> row_of ''m1'' t' = Some r' \<and> r_status r' = StatusFailed \<and> r_attempts r' = 1"
proof -
  let ?x = "\<lparr>ni_id = ''m1'', ni_err = ''no'', ni_permanent = False,
        ni_deferred = False, ni_delay = second\<rparr>"
  obtain t' rs where n: "nack_stmt ''tok1'' 1 [?x] 0 3000 [demo_leased] = Some (t', rs)"
    by (simp add: nack_stmt_def nack_overflows_def nack_input_for_def max_int32_def)
  have x: "nack_input_for [?x] demo_leased = Some ?x" by (simp add: nack_input_for_def)
  from nack_decides_retry [of "[demo_leased]" "''m1''" demo_leased, OF _ _ _ x n] n
  show ?thesis by auto
qed

text \<open>
  Deferred rows are a subset of the pending and processing ones, as the gauge's documentation
  promises: over every history a row that carries the deferral marker is neither sent nor failed,
  so the deferred count never exceeds the sum of the two.
\<close>

lemma deferred_is_subset_of_backlog:
  assumes "table_ok t" and "\<forall>r \<in> set t. deferred_is_live r"
  shows "count_where (\<lambda>r. r_deferred_since r \<noteq> None) (run_stmts ss t)
    \<le> count_where (\<lambda>r. r_status r = StatusPending) (run_stmts ss t)
      + count_where (\<lambda>r. r_status r = StatusProcessing) (run_stmts ss t)"
proof -
  let ?t = "run_stmts ss t"
  have live: "\<forall>r \<in> set ?t. deferred_is_live r" using backlog.keeps_run [of t ss] assms by simp
  have "length (filter (\<lambda>r. r_deferred_since r \<noteq> None) u)
      \<le> length (filter (\<lambda>r. r_status r = StatusPending) u)
        + length (filter (\<lambda>r. r_status r = StatusProcessing) u)"
    if "\<forall>r \<in> set u. deferred_is_live r" for u
    using that by (induction u) (auto simp: deferred_is_live_def)
  from this [OF live] show ?thesis by (simp add: count_where_def)
qed

lemma deferred_is_subset_of_backlog_witness:
  "count_where (\<lambda>r. r_deferred_since r \<noteq> None) (run_stmts [demo_claim] [demo_row])
    \<le> count_where (\<lambda>r. r_status r = StatusPending) (run_stmts [demo_claim] [demo_row])
      + count_where (\<lambda>r. r_status r = StatusProcessing) (run_stmts [demo_claim] [demo_row])"
  by (rule deferred_is_subset_of_backlog)
    (simp_all add: deferred_is_live_def)

end
