(* ===== verification/Store_Ops.thy ===== *)
theory Store_Ops
  imports Store_Retry
begin

text \<open>
  \<open>internal/store/store.go\<close>: the Go side of the store, one definition per method.

  A database call can fail in three ways that matter: \<open>pool.Query\<close> itself returns an error and the
  statement did not run; the error shows up in \<open>rows.Err\<close> and the statement had no effect; or it
  shows up there after the statement was committed (a connection that drops, a deadline that expires).
  The argument of type \<open>fault\<close> says which, if any, happens to this call.  A method returns the table
  after the call and either an error or the method's result; what a method returns beside an error
  is left out, except for \<open>ReleaseLease\<close>, whose caller reads it.
\<close>

subsection \<open>Database calls\<close>

datatype fault = NoFault | FailBefore err | FailRows err | FailAfter err

text \<open>One statement through the pool: its own error, or the table it leaves and the rows it returns.\<close>

definition query :: "fault \<Rightarrow> err + (table \<times> 'a) \<Rightarrow> table \<Rightarrow> table \<times> (err + 'a)" where
  "query f res t =
     (case f of
        FailBefore e \<Rightarrow> (t, Inl e)
      | FailRows e \<Rightarrow> (t, Inl e)
      | FailAfter e \<Rightarrow> (case res of Inl _ \<Rightarrow> (t, Inl e) | Inr (t', _) \<Rightarrow> (t', Inl e))
      | NoFault \<Rightarrow> (case res of Inl e \<Rightarrow> (t, Inl e) | Inr (t', x) \<Rightarrow> (t', Inr x)))"

text \<open>A panic of the calling goroutine, where a method has one.\<close>

datatype 'a go = Return 'a | Panic string

text \<open>
  Some methods add their prefix to an error of \<open>pool.Query\<close> only and return \<open>rows.Err\<close> as it is.
\<close>

definition query_error :: "string \<Rightarrow> fault \<Rightarrow> err \<Rightarrow> err" where
  "query_error msg f e = (case f of FailBefore _ \<Rightarrow> Errorf msg e [] | _ \<Rightarrow> e)"

subsection \<open>Claim\<close>

definition json_error :: err where
  "json_error = ErrorString ''json: cannot unmarshal''"

text \<open>One scanned row as a message; the two JSONB columns may not decode.\<close>

definition scan_message :: "row \<Rightarrow> err + message" where
  "scan_message r =
     (case decode_headers (r_headers r) of
        None \<Rightarrow> Inl (Errorf (''message '' @ r_id r @ '': decode headers: '') json_error [])
      | Some hs \<Rightarrow>
         (case decode_target (r_target r) of
            None \<Rightarrow> Inl (Errorf (''message '' @ r_id r @ '': decode target: '') json_error [])
          | Some tg \<Rightarrow> Inr \<lparr>m_id = r_id r, m_stream = r_stream r, m_topic = r_topic r,
                           m_payload = r_payload r, m_headers = hs, m_target = tg,
                           m_attempts = r_attempts r, m_created_at = r_created_at r\<rparr>))"

text \<open>The scan loop returns at the first row that does not decode.\<close>

fun scan_messages :: "row list \<Rightarrow> err + message list" where
  "scan_messages [] = Inr []"
| "scan_messages (r # rs) =
     (case scan_message r of
        Inl e \<Rightarrow> Inl e
      | Inr m \<Rightarrow> (case scan_messages rs of Inl e \<Rightarrow> Inl e | Inr ms \<Rightarrow> Inr (m # ms)))"

definition Claim ::
  "fault \<Rightarrow> go_time \<Rightarrow> timestamptz \<Rightarrow> uuid list \<Rightarrow> string \<Rightarrow> nat \<Rightarrow> lease \<Rightarrow> table
   \<Rightarrow> table \<times> (err + message list)" where
  "Claim f go_now now locked stream limit lease t =
     (let ttl = l_until lease - go_now in
      if ttl \<le> 0 then (t, Inl (ErrorString (''claim '' @ stream @ '': lease already expired'')))
      else
        (case query f (Inr (claim_stmt stream limit (l_token lease) ttl (l_owner lease) now locked t)) t of
           (t', Inl e) \<Rightarrow> (t', Inl (Errorf (''claim '' @ stream @ '': '') e []))
         | (t', Inr rs) \<Rightarrow> (t', scan_messages rs)))"

subsection \<open>Acknowledge\<close>

record delivered =
  d_id :: uuid
  d_stream :: string
  d_lag :: duration

record ack_result =
  ar_delivered :: "delivered list"
  ar_conflicts :: int

definition delivered_of :: "timestamptz \<Rightarrow> row \<Rightarrow> delivered" where
  "delivered_of now r =
     \<lparr>d_id = r_id r, d_stream = r_stream r, d_lag = (now - r_created_at r) * 1000\<rparr>"

definition Ack ::
  "fault \<Rightarrow> timestamptz \<Rightarrow> uuid list \<Rightarrow> uuid \<Rightarrow> table \<Rightarrow> table \<times> (err + ack_result)" where
  "Ack f now ids token t =
     (if ids = [] then (t, Inr \<lparr>ar_delivered = [], ar_conflicts = 0\<rparr>)
      else
        (case query f (Inr (ack_stmt ids token now t)) t of
           (t', Inl e) \<Rightarrow> (t', Inl (Errorf ''ack: '' e []))
         | (t', Inr rs) \<Rightarrow>
             (t', Inr \<lparr>ar_delivered = map (delivered_of now) rs,
                      ar_conflicts = int (length ids) - int (length rs)\<rparr>)))"

subsection \<open>Negative acknowledge\<close>

record nack_outcome =
  no_id :: uuid
  no_stream :: string
  no_status :: status
  no_attempts :: int
  no_deferred :: bool

record nack_result =
  nr_outcomes :: "nack_outcome list"
  nr_conflicts :: int

definition errText :: "err option \<Rightarrow> string" where
  "errText e = (case e of None \<Rightarrow> [] | Some e \<Rightarrow> err_text e)"

definition input_of :: "outcome \<Rightarrow> nack_input" where
  "input_of o' =
     \<lparr>ni_id = o_id o', ni_err = errText (o_err o'), ni_permanent = o_permanent o',
      ni_deferred = (o_deferred o' \<and> \<not> o_permanent o'), ni_delay = o_delay o'\<rparr>"

definition nack_outcome_of :: "row \<Rightarrow> nack_outcome" where
  "nack_outcome_of r =
     \<lparr>no_id = r_id r, no_stream = r_stream r, no_status = r_status r, no_attempts = r_attempts r,
      no_deferred = (r_deferred_since r \<noteq> None)\<rparr>"

definition out_of_range :: err where
  "out_of_range = PgError ''22003'' ''integer out of range''"

definition Nack ::
  "fault \<Rightarrow> timestamptz \<Rightarrow> outcome list \<Rightarrow> uuid \<Rightarrow> retry_limits \<Rightarrow> table
   \<Rightarrow> table \<times> (err + nack_result)" where
  "Nack f now outcomes token limits t =
     (if outcomes = [] then (t, Inr \<lparr>nr_outcomes = [], nr_conflicts = 0\<rparr>)
      else
        (let res = (case nack_stmt token (rl_max_attempts limits) (map input_of outcomes)
                           (rl_max_defer limits) now t of
                      None \<Rightarrow> Inl out_of_range
                    | Some p \<Rightarrow> Inr p) in
         case query f res t of
           (t', Inl e) \<Rightarrow> (t', Inl (Errorf ''nack: '' e []))
         | (t', Inr rs) \<Rightarrow>
             (t', Inr \<lparr>nr_outcomes = map nack_outcome_of rs,
                      nr_conflicts = int (length outcomes) - int (length rs)\<rparr>)))"

text \<open>The three views of a result.\<close>

definition nack_filter :: "status \<Rightarrow> nack_result \<Rightarrow> nack_outcome list" where
  "nack_filter s r = filter (\<lambda>x. no_status x = s) (nr_outcomes r)"

definition Retried :: "nack_result \<Rightarrow> nack_outcome list" where
  "Retried r = nack_filter StatusPending r"

definition Failed :: "nack_result \<Rightarrow> nack_outcome list" where
  "Failed r = nack_filter StatusFailed r"

definition Deferred :: "nack_result \<Rightarrow> nack_outcome list" where
  "Deferred r = filter no_deferred (nr_outcomes r)"

subsection \<open>Release, reclaim\<close>

text \<open>Beside an error of \<open>rows.Err\<close> the count is of the rows read until then, \<open>seen\<close>.\<close>

definition ReleaseLease ::
  "fault \<Rightarrow> nat \<Rightarrow> timestamptz \<Rightarrow> uuid list \<Rightarrow> uuid \<Rightarrow> table \<Rightarrow> table \<times> nat \<times> err option" where
  "ReleaseLease f seen now ids token t =
     (if ids = [] then (t, 0, None)
      else
        (case query f (Inr (release_stmt ids token now t)) t of
           (t', Inl e) \<Rightarrow>
             (t', case f of FailBefore _ \<Rightarrow> 0 | _ \<Rightarrow> seen, Some (Errorf ''release lease: '' e []))
         | (t', Inr rs) \<Rightarrow> (t', length rs, None)))"

record reclaimed =
  rc_id :: uuid
  rc_stream :: string
  rc_owner :: string
  rc_overdue :: duration

definition reclaimed_of :: "timestamptz \<Rightarrow> row \<Rightarrow> reclaimed" where
  "reclaimed_of now r =
     \<lparr>rc_id = r_id r, rc_stream = r_stream r,
      rc_owner = (case r_owner r of None \<Rightarrow> [] | Some o' \<Rightarrow> o'),
      rc_overdue = (now - lease_order r) * 1000\<rparr>"

definition Reclaim ::
  "fault \<Rightarrow> timestamptz \<Rightarrow> uuid list \<Rightarrow> nat \<Rightarrow> table \<Rightarrow> table \<times> (err + reclaimed list)" where
  "Reclaim f now locked limit t =
     (case query f (Inr (reclaim_stmt limit now locked t)) t of
        (t', Inl e) \<Rightarrow> (t', Inl (query_error ''reclaim: '' f e))
      | (t', Inr rs) \<Rightarrow> (t', Inr (map (reclaimed_of now) rs)))"

subsection \<open>Gauges and retention\<close>

record stats =
  st_pending :: int
  st_processing :: int
  st_failed :: int
  st_oldest_pending :: duration
  st_deferred :: int

definition Stats :: "fault \<Rightarrow> timestamptz \<Rightarrow> table \<Rightarrow> err + stats" where
  "Stats f now t =
     (case snd (query f (Inr (t, ())) t) of
        Inl e \<Rightarrow> Inl (Errorf ''stats: '' e [])
      | Inr _ \<Rightarrow>
         Inr \<lparr>st_pending = count_where (\<lambda>r. r_status r = StatusPending) t,
              st_processing = count_where (\<lambda>r. r_status r = StatusProcessing) t,
              st_failed = count_where (\<lambda>r. r_status r = StatusFailed) t,
              st_oldest_pending = oldest_pending now t * 1000,
              st_deferred = count_where (\<lambda>r. r_deferred_since r \<noteq> None) t\<rparr>)"

definition Purge ::
  "fault \<Rightarrow> timestamptz \<Rightarrow> uuid list \<Rightarrow> duration \<Rightarrow> nat \<Rightarrow> table \<Rightarrow> table \<times> (err + nat)" where
  "Purge f now locked retention limit t =
     (case query f (Inr (purge_stmt retention limit now locked t)) t of
        (t', Inl e) \<Rightarrow> (t', Inl (Errorf ''purge: '' e []))
      | (t', Inr n) \<Rightarrow> (t', Inr n))"

subsection \<open>Requeue\<close>

definition collectIDs ::
  "string \<Rightarrow> fault \<Rightarrow> err + (table \<times> uuid list) \<Rightarrow> table \<Rightarrow> table \<times> (err + uuid list)" where
  "collectIDs op f res t =
     (case query f res t of
        (t', Inl e) \<Rightarrow> (t', Inl (query_error (op @ '': '') f e))
      | (t', Inr ids) \<Rightarrow> (t', Inr ids))"

definition Requeue ::
  "fault \<Rightarrow> timestamptz \<Rightarrow> uuid list \<Rightarrow> table \<Rightarrow> table \<times> (err + uuid list)" where
  "Requeue f now ids t =
     (if ids = [] then (t, Inr [])
      else collectIDs ''requeue'' f (Inr (requeue_stmt ids now t)) t)"

text \<open>
  The limit is an argument of type INTEGER: the driver refuses to encode a larger number, and the server
  a negative one.
\<close>

definition int4_error :: "int \<Rightarrow> err" where
  "int4_error n = ErrorString (itoa n @ '' is out of range for int4'')"

definition in_int4 :: "int \<Rightarrow> bool" where
  "in_int4 n \<longleftrightarrow> - max_int32 - 1 \<le> n \<and> n \<le> max_int32"

definition RequeueFailedBefore ::
  "fault \<Rightarrow> timestamptz \<Rightarrow> timestamptz \<Rightarrow> int \<Rightarrow> table \<Rightarrow> table \<times> (err + uuid list)" where
  "RequeueFailedBefore f now before limit t =
     (if in_int4 limit then
        collectIDs ''requeue failed'' f
          (if limit < 0 then Inl (PgError ''2201W'' ''LIMIT must not be negative'')
           else Inr (requeue_before_stmt before (nat limit) now t)) t
      else collectIDs ''requeue failed'' (case f of FailBefore e \<Rightarrow> f | _ \<Rightarrow> FailBefore (int4_error limit)) (Inr (t, [])) t)"

subsection \<open>Listing failures\<close>

record failed_message =
  fm_id :: uuid
  fm_stream :: string
  fm_topic :: string
  fm_attempts :: int
  fm_last_error :: string
  fm_created_at :: timestamptz

record cursor =
  c_created_at :: timestamptz
  c_id :: uuid

definition zero_cursor :: cursor where
  "zero_cursor = \<lparr>c_created_at = 0, c_id = []\<rparr>"

definition failed_message_of :: "row \<Rightarrow> failed_message" where
  "failed_message_of r =
     \<lparr>fm_id = r_id r, fm_stream = r_stream r, fm_topic = r_topic r, fm_attempts = r_attempts r,
      fm_last_error = (case r_last_error r of None \<Rightarrow> [] | Some e \<Rightarrow> e),
      fm_created_at = r_created_at r\<rparr>"

definition nil_uuid :: uuid where
  "nil_uuid = ''00000000-0000-0000-0000-000000000000''"

definition cursor_key :: "cursor \<Rightarrow> timestamptz \<times> uuid" where
  "cursor_key c = (c_created_at c, if c_id c = [] then nil_uuid else c_id c)"

text \<open>
  The result slice is allocated with the limit as its capacity, between sending the query and
  reading its rows: a negative limit panics there.
\<close>

definition ListFailed ::
  "fault \<Rightarrow> cursor \<Rightarrow> int \<Rightarrow> string \<Rightarrow> table \<Rightarrow> (err + failed_message list) go" where
  "ListFailed f after limit stream t =
     (case snd (query f (Inr (t, ())) t) of
        Inl e \<Rightarrow> Return (Inl (query_error ''list failed: '' f e))
      | Inr _ \<Rightarrow>
         if limit < 0 then Panic ''makeslice: cap out of range''
         else Return (Inr (map failed_message_of
                (list_failed_stmt (cursor_key after) (nat limit) stream t))))"

definition FetchByIDs :: "fault \<Rightarrow> uuid list \<Rightarrow> table \<Rightarrow> err + message list" where
  "FetchByIDs f ids t =
     (if ids = [] then Inr []
      else
        (case snd (query f (Inr (t, ())) t) of
           Inl e \<Rightarrow> Inl (query_error ''fetch messages: '' f e)
         | Inr _ \<Rightarrow> scan_messages (fetch_by_ids_stmt ids t)))"

end
