(* ===== verification/Store_Claim.thy ===== *)
theory Store_Claim
  imports Store_Ops
begin

text \<open>
  The contract of \<open>Store.Claim\<close>: which rows a claim takes, what it leaves behind, and what happens
  when a row it took cannot be decoded.
\<close>

subsection \<open>Lemmas\<close>

lemma scan_messages_Inr_iff:
  "scan_messages rs = Inr ms \<longleftrightarrow> list_all2 (\<lambda>r m. scan_message r = Inr m) rs ms"
proof (induction rs arbitrary: ms)
  case (Cons r rs)
  show ?case
    by (cases ms) (auto simp: Cons.IH [symmetric] split: sum.splits)
qed auto

lemma scan_messages_Inl:
  "r \<in> set rs \<Longrightarrow> scan_message r = Inl e \<Longrightarrow> \<exists>e'. scan_messages rs = Inl e'"
  by (induction rs) (auto split: sum.splits)

lemma scan_message_fields:
  "scan_message r = Inr m \<Longrightarrow>
     m_id m = r_id r \<and> m_stream m = r_stream r \<and> m_topic m = r_topic r \<and> m_payload m = r_payload r
     \<and> m_attempts m = r_attempts r \<and> m_created_at m = r_created_at r
     \<and> decode_headers (r_headers r) = Some (m_headers m) \<and> decode_target (r_target r) = Some (m_target m)"
  by (auto simp: scan_message_def split: option.splits)

lemma scan_messages_ids: "scan_messages rs = Inr ms \<Longrightarrow> map m_id ms = map r_id rs"
  unfolding scan_messages_Inr_iff
  by (induction rule: list_all2_induct) (auto dest: scan_message_fields)

lemma scan_message_claim_set [simp]: "scan_message (claim_set now token ttl owner r) = scan_message r"
  by (simp add: scan_message_def claim_set_def split: option.split)

text \<open>A claim that succeeds, in terms of the statement.\<close>

lemma Claim_ok_cases:
  assumes "Claim f go_now now locked stream limit lease t = (t', Inr ms)"
  shows "t' = update_where (id_in (due_ids stream limit now locked t))
                (claim_set now (l_token lease) (l_until lease - go_now) (l_owner lease)) t"
    and "scan_messages (filter (id_in (due_ids stream limit now locked t)) t) = Inr ms"
    and "go_now < l_until lease"
proof -
  have "scan_messages (map (claim_set now tok ttl ow) rs) = scan_messages rs" for tok ttl ow rs
    by (induction rs) (simp_all split: sum.split)
  with assms show "t' = update_where (id_in (due_ids stream limit now locked t))
                (claim_set now (l_token lease) (l_until lease - go_now) (l_owner lease)) t"
    and "scan_messages (filter (id_in (due_ids stream limit now locked t)) t) = Inr ms"
    and "go_now < l_until lease"
    by (auto simp: Claim_def Let_def query_def claim_stmt_def returning_def
        split: if_splits fault.splits)
qed

lemma claimed_ids:
  assumes "table_ok t" and "Claim f go_now now locked stream limit lease t = (t', Inr ms)"
  shows "set (map m_id ms) = set (due_ids stream limit now locked t)"
    and "distinct (map m_id ms)"
    and "length ms = length (due_ids stream limit now locked t)"
proof -
  let ?ids = "due_ids stream limit now locked t"
  have ms: "map m_id ms = map r_id (filter (id_in ?ids) t)"
    using Claim_ok_cases(2) [OF assms(2)] by (rule scan_messages_ids)
  show "set (map m_id ms) = set ?ids"
    unfolding ms using due_ids_subset [of stream limit now locked t] by (auto simp: id_in_def)
  show "distinct (map m_id ms)"
    unfolding ms using assms(1) by (simp add: table_ok_def distinct_map_filter)
  have "length ms = length (filter (id_in ?ids) t)"
    using ms by (metis length_map)
  also have "\<dots> = length ?ids"
    using assms(1) by (intro length_filter_ids distinct_due_ids due_ids_subset) (auto simp: table_ok_def)
  finally show "length ms = length ?ids" .
qed

text \<open>The rows a bounded, ordered selection leaves out.\<close>

lemma due_ids_least:
  assumes "table_ok t" and "r \<in> set t" and "r_id r \<in> set (due_ids stream limit now locked t)"
    and "r' \<in> set t" and "claim_due stream now locked r'"
    and "r_id r' \<notin> set (due_ids stream limit now locked t)"
  shows "claim_order r \<le> claim_order r'"
proof -
  let ?taken = "take limit (sort_key claim_order (filter (claim_due stream now locked) t))"
  from assms(3) obtain q where q: "q \<in> set ?taken" "r_id q = r_id r"
    by (auto simp: due_ids_def)
  then have "q \<in> set t" by (auto dest!: in_set_takeD)
  with q assms(1,2) have "q = r" by (auto simp: table_ok_def dest: distinct_map_inj)
  with q have "r \<in> set ?taken" by simp
  moreover have "r' \<notin> set ?taken" using assms(6) by (auto simp: due_ids_def)
  ultimately show ?thesis using assms(4,5) by (intro take_sort_least) auto
qed

lemma due_ids_all:
  assumes "length (due_ids stream limit now locked t) < limit"
    and "r \<in> set t" and "claim_due stream now locked r"
  shows "r_id r \<in> set (due_ids stream limit now locked t)"
  using assms by (auto simp: due_ids_def)

definition leased_row :: "lease \<Rightarrow> go_time \<Rightarrow> timestamptz \<Rightarrow> row \<Rightarrow> row" where
  "leased_row lease go_now now r = r\<lparr>r_status := StatusProcessing, r_lease_token := Some (l_token lease),
     r_lease_until := Some (now + make_interval (l_until lease - go_now)), r_owner := Some (l_owner lease)\<rparr>"

lemma claim_rows:
  assumes "Claim f go_now now locked stream limit lease t = (t', Inr ms)"
  shows "row_of i t' = map_option (\<lambda>r. if id_in (due_ids stream limit now locked t) r then leased_row lease go_now now r else r) (row_of i t)"
proof -
  have "claim_set now (l_token lease) (l_until lease - go_now) (l_owner lease) = leased_row lease go_now now"
    by (rule ext) (simp add: claim_set_def leased_row_def)
  then show ?thesis
    unfolding Claim_ok_cases(1) [OF assms] claim_upd.row_of_update by (simp cong: if_cong)
qed

lemma claimed_row:
  assumes "table_ok t" and "Claim f go_now now locked stream limit lease t = (t', Inr ms)" and "m \<in> set ms"
  shows "\<exists>r. row_of (m_id m) t = Some r \<and> claim_due stream now locked r
    \<and> row_of (m_id m) t' = Some (leased_row lease go_now now r)
    \<and> (\<forall>r' \<in> set t. claim_due stream now locked r' \<and> r_id r' \<notin> m_id ` set ms
         \<longrightarrow> (r_available_at r, r_id r) \<le> (r_available_at r', r_id r'))"
proof -
  let ?ids = "due_ids stream limit now locked t"
  have set_ids: "m_id ` set ms = set ?ids" using claimed_ids(1) [OF assms(1,2)] by simp
  then have i: "m_id m \<in> set ?ids" using assms(3) by auto
  then obtain r where r: "r \<in> set t" "r_id r = m_id m" using due_ids_subset by fastforce
  then have t: "row_of (m_id m) t = Some r" using assms(1) by (metis row_of_in)
  have "claim_due stream now locked r" using due_idsD [OF assms(1) r(1)] i r(2) by simp
  moreover have "row_of (m_id m) t' = Some (leased_row lease go_now now r)"
    using claim_rows [OF assms(2)] t i r(2) by (simp add: id_in_def)
  moreover have "(r_available_at r, r_id r) \<le> (r_available_at r', r_id r')"
    if "r' \<in> set t" "claim_due stream now locked r'" "r_id r' \<notin> m_id ` set ms" for r'
    using due_ids_least [OF assms(1) r(1) _ that(1,2)] i r(2) that(3) set_ids
    by (simp add: claim_order_def)
  ultimately show ?thesis using t by blast
qed

lemma claim_spec:
  assumes "table_ok t" and "Claim f go_now now locked stream limit lease t = (t', Inr ms)"
  shows "length ms \<le> limit" and "distinct (map m_id ms)"
    and "\<forall>m \<in> set ms. \<exists>r. row_of (m_id m) t = Some r \<and> claim_due stream now locked r
           \<and> row_of (m_id m) t' = Some (r\<lparr>r_status := StatusProcessing,
                r_lease_token := Some (l_token lease),
                r_lease_until := Some (now + make_interval (l_until lease - go_now)),
                r_owner := Some (l_owner lease)\<rparr>)
           \<and> (\<forall>r' \<in> set t. claim_due stream now locked r' \<and> r_id r' \<notin> m_id ` set ms
                \<longrightarrow> (r_available_at r, r_id r) \<le> (r_available_at r', r_id r'))"
    and "\<forall>i. i \<notin> m_id ` set ms \<longrightarrow> row_of i t' = row_of i t"
    and "length ms < limit \<Longrightarrow> \<forall>r \<in> set t. claim_due stream now locked r \<longrightarrow> r_id r \<in> m_id ` set ms"
proof -
  let ?ids = "due_ids stream limit now locked t"
  note ids = claimed_ids [OF assms]
  have set_ids: "m_id ` set ms = set ?ids" using ids(1) by simp
  show "length ms \<le> limit" using ids(3) by (simp add: due_ids_def)
  show "distinct (map m_id ms)" by (rule ids(2))
  show "\<forall>m \<in> set ms. \<exists>r. row_of (m_id m) t = Some r \<and> claim_due stream now locked r
           \<and> row_of (m_id m) t' = Some (r\<lparr>r_status := StatusProcessing,
                r_lease_token := Some (l_token lease),
                r_lease_until := Some (now + make_interval (l_until lease - go_now)),
                r_owner := Some (l_owner lease)\<rparr>)
           \<and> (\<forall>r' \<in> set t. claim_due stream now locked r' \<and> r_id r' \<notin> m_id ` set ms
                \<longrightarrow> (r_available_at r, r_id r) \<le> (r_available_at r', r_id r'))"
    using claimed_row [OF assms] unfolding leased_row_def by blast
  show "\<forall>i. i \<notin> m_id ` set ms \<longrightarrow> row_of i t' = row_of i t"
  proof (intro allI impI)
    fix i assume "i \<notin> m_id ` set ms"
    then show "row_of i t' = row_of i t"
      using set_ids by (cases "row_of i t") (auto simp: claim_rows [OF assms(2)] id_in_def dest!: row_of_SomeD)
  qed
  show "length ms < limit \<Longrightarrow> \<forall>r \<in> set t. claim_due stream now locked r \<longrightarrow> r_id r \<in> m_id ` set ms"
    using ids(3) set_ids by (auto intro: due_ids_all)
qed

subsection \<open>Properties\<close>

text \<open>
  C9.  What a claim does.  A successful claim returns at most \<open>limit\<close> messages, without repetition.
  Each was pending, due and unlocked in the claimed stream, and its row now carries the caller's
  token, owner and a lease that ends \<open>TTL\<close> after the database's \<open>now()\<close>, everything else being
  unchanged.  Rows it did not return are untouched; a due row it left out is not earlier, in
  \<open>(available_at, id)\<close>, than any it took; and a batch that is not full leaves no due row behind.
\<close>

theorem claim_leases_earliest_due:
  assumes "table_ok t" and "Claim f go_now now locked stream limit lease t = (t', Inr ms)"
  shows "length ms \<le> limit \<and> distinct (map m_id ms)
    \<and> (\<forall>m \<in> set ms. \<exists>r. row_of (m_id m) t = Some r \<and> claim_due stream now locked r
           \<and> row_of (m_id m) t' = Some (r\<lparr>r_status := StatusProcessing,
                r_lease_token := Some (l_token lease),
                r_lease_until := Some (now + make_interval (l_until lease - go_now)),
                r_owner := Some (l_owner lease)\<rparr>)
           \<and> (\<forall>r' \<in> set t. claim_due stream now locked r' \<and> r_id r' \<notin> m_id ` set ms
                \<longrightarrow> (r_available_at r, r_id r) \<le> (r_available_at r', r_id r')))
    \<and> (\<forall>i. i \<notin> m_id ` set ms \<longrightarrow> row_of i t' = row_of i t)
    \<and> (length ms < limit \<longrightarrow>
          (\<forall>r \<in> set t. claim_due stream now locked r \<longrightarrow> r_id r \<in> m_id ` set ms))"
  by (intro conjI impI claim_spec [OF assms])

theorem claim_leases_earliest_due_witness:
  "\<exists>t' ms. Claim NoFault 0 2000 [] ''local'' 10 \<lparr>l_token = ''tok1'', l_owner = ''pod-a'', l_until = 60000000000\<rparr>
       [demo_row] = (t', Inr ms) \<and> length ms \<le> 10 \<and> distinct (map m_id ms)"
proof -
  let ?c = "Claim NoFault 0 2000 [] ''local'' 10 \<lparr>l_token = ''tok1'', l_owner = ''pod-a'', l_until = 60000000000\<rparr> [demo_row]"
  obtain t' ms where c: "?c = (t', Inr ms)"
    by (simp add: Claim_def query_def claim_stmt_def returning_def due_ids_def claim_due_def
        id_in_def demo_row_def insert_row_def scan_message_def claim_set_def)
  from claim_leases_earliest_due [OF _ c] c show ?thesis by auto
qed

text \<open>
  A row that does not decode stalls its batch.  When one row of the batch carries headers or a
  target that \<open>encoding/json\<close> rejects, the claim returns an error after the UPDATE was committed:
  every row of the batch stays leased to a token nobody will present, is charged no attempt and is
  published by nobody until the lease expires - and the reclaimed row is claimed again.
\<close>

lemma undecodable_row_strands_batch:
  assumes "table_ok t" and "go_now < l_until lease"
    and "r \<in> set t" and "r_id r \<in> set (due_ids stream limit now locked t)"
    and "decode_headers (r_headers r) = None \<or> decode_target (r_target r) = None"
  shows "\<exists>t' e. Claim NoFault go_now now locked stream limit lease t = (t', Inl e)
     \<and> (\<forall>i \<in> set (due_ids stream limit now locked t). \<exists>q q'.
           row_of i t = Some q \<and> row_of i t' = Some q' \<and> r_status q' = StatusProcessing
           \<and> r_lease_token q' = Some (l_token lease) \<and> r_attempts q' = r_attempts q
           \<and> r_lease_until q' = Some (now + make_interval (l_until lease - go_now)))"
proof -
  let ?ids = "due_ids stream limit now locked t"
  let ?upd = "claim_set now (l_token lease) (l_until lease - go_now) (l_owner lease)"
  have "\<exists>e0. scan_message r = Inl e0"
    using assms(5) by (cases "decode_headers (r_headers r)") (auto simp: scan_message_def)
  then obtain e0 where "scan_message (?upd r) = Inl e0" by auto
  then obtain e where e: "scan_messages (returning (id_in ?ids) ?upd t) = Inl e"
    using assms(3,4) scan_messages_Inl [of "?upd r" "returning (id_in ?ids) ?upd t"]
    by (auto simp: returning_def id_in_def)
  have "Claim NoFault go_now now locked stream limit lease t = (update_where (id_in ?ids) ?upd t, Inl e)"
    using assms(2) e by (simp add: Claim_def query_def claim_stmt_def Let_def)
  moreover have "\<exists>q. row_of i t = Some q \<and> row_of i (update_where (id_in ?ids) ?upd t) = Some (?upd q)"
    if "i \<in> set ?ids" for i
  proof -
    from that obtain q where "q \<in> set t" "r_id q = i" using due_ids_subset by fastforce
    with assms(1) have "row_of i t = Some q" by (metis row_of_in)
    with that \<open>r_id q = i\<close> show ?thesis by (simp add: claim_upd.row_of_update id_in_def)
  qed
  ultimately show ?thesis by (fastforce simp: claim_set_def)
qed

lemma undecodable_row_strands_batch_witness:
  "\<exists>t' e. Claim NoFault 0 2000 [] ''local'' 10
       \<lparr>l_token = ''tok1'', l_owner = ''pod-a'', l_until = 60000000000\<rparr>
       [demo_row\<lparr>r_headers := JObj [(''n'', JInt 1)]\<rparr>] = (t', Inl e)"
proof -
  let ?r = "demo_row\<lparr>r_headers := JObj [(''n'', JInt 1)]\<rparr>"
  have "table_ok [?r]"
    by (simp add: demo_row_def insert_row_def table_ok_def inv_defs max_int32_def)
  moreover have "r_id ?r \<in> set (due_ids ''local'' 10 2000 [] [?r])"
    by (simp add: due_ids_def claim_due_def demo_row_def insert_row_def)
  ultimately show ?thesis
    using undecodable_row_strands_batch [of "[?r]" 0
        "\<lparr>l_token = ''tok1'', l_owner = ''pod-a'', l_until = 60000000000\<rparr>" ?r "''local''" 10 2000 "[]"]
    by auto
qed

end
