(* ===== verification/Go_Float.thy ===== *)
theory Go_Float
  imports Complex_Main
begin

text \<open>
  Values of type \<open>float64\<close> and how they compare.  A finite one is a rational; the comparisons of Go are those
  of IEEE 754, so every comparison with a NaN is false.  The two zeros are one value here: no comparison and
  no conversion of the source tells them apart.
\<close>

datatype float64 = Finite rat | PosInf | NegInf | NaN

fun f_less :: "float64 \<Rightarrow> float64 \<Rightarrow> bool" where
  "f_less NaN y \<longleftrightarrow> False"
| "f_less x NaN \<longleftrightarrow> False"
| "f_less (Finite a) (Finite b) \<longleftrightarrow> a < b"
| "f_less NegInf y \<longleftrightarrow> y \<noteq> NegInf"
| "f_less x PosInf \<longleftrightarrow> x \<noteq> PosInf"
| "f_less PosInf y \<longleftrightarrow> False"
| "f_less x NegInf \<longleftrightarrow> False"

fun f_sgn :: "float64 \<Rightarrow> rat" where
  "f_sgn (Finite a) = sgn a"
| "f_sgn PosInf = 1"
| "f_sgn NegInf = - 1"
| "f_sgn NaN = 0"

text \<open>What a test \<open>x < lo || x > hi\<close> lets through: the values between the bounds, and NaN.\<close>

lemma f_between:
  "\<not> f_less x (Finite lo) \<and> \<not> f_less (Finite hi) x \<longleftrightarrow> x = NaN \<or> (\<exists>q. x = Finite q \<and> lo \<le> q \<and> q \<le> hi)"
  by (cases x) auto

end
