(* ===== verification/Core_Backoff.thy ===== *)
theory Core_Backoff
  imports Go_Float "HOL-Library.Log_Nat" Outbox_Prelude
begin

text \<open>
  \<open>internal/core/backoff.go\<close>: the delay before the next attempt, with the \<open>float64\<close> arithmetic it is
  computed in.

  A finite \<open>float64\<close> is a rational; \<open>fl64\<close> rounds an exact result to the nearest value with a 53-bit
  significand, ties to even, which is what every operation of the source does.  The magnitudes that
  occur lie between \<open>2^-1000\<close> and \<open>2^200\<close>, so underflow and overflow of the exponent are left out.
  A jitter that is infinite or not a number goes through the same operations.
  Rounding is used through the laws of the locale \<open>rounding\<close> only.
\<close>

subsection \<open>Rounding\<close>

definition pow2 :: "int \<Rightarrow> rat" where
  "pow2 e = (if 0 \<le> e then 2 ^ nat e else 1 / 2 ^ nat (- e))"

text \<open>Round to the nearest integer, ties to even.\<close>

definition round_even :: "rat \<Rightarrow> int" where
  "round_even x =
     (let f = \<lfloor>x\<rfloor>; d = x - of_int f in
      if d < 1 / 2 then f else if d > 1 / 2 then f + 1 else if even f then f else f + 1)"

text \<open>The binary exponent of a positive rational: the \<open>e\<close> with \<open>2^e \<le> x < 2^(e+1)\<close>.\<close>

definition exponent2 :: "rat \<Rightarrow> int" where
  "exponent2 x =
     (if 1 \<le> x then int (floorlog 2 (nat \<lfloor>x\<rfloor>)) - 1
      else - int (floorlog 2 (nat \<lceil>1 / x\<rceil> - 1)))"

definition fl64_pos :: "rat \<Rightarrow> rat" where
  "fl64_pos x = (let u = pow2 (exponent2 x - 52) in of_int (round_even (x / u)) * u)"

definition fl64 :: "rat \<Rightarrow> rat" where
  "fl64 x = (if x = 0 then 0 else if 0 < x then fl64_pos x else - fl64_pos (- x))"

subsection \<open>The policy\<close>

record backoff_policy =
  bp_base :: duration
  bp_max :: duration
  bp_jitter :: float64

text \<open>
  \<open>time.Duration(x)\<close> of a \<open>float64\<close> truncates towards zero.  Out of the range of \<open>int64\<close> the result
  is left to the implementation by the language: the argument \<open>wild\<close>.
\<close>

definition float_to_int64 :: "(float64 \<Rightarrow> int) \<Rightarrow> float64 \<Rightarrow> int" where
  "float_to_int64 wild v =
     (case v of
        Finite x \<Rightarrow>
          (let n = (if 0 \<le> x then \<lfloor>x\<rfloor> else \<lceil>x\<rceil>) in
           if - (2 ^ 63) \<le> n \<and> n < 2 ^ 63 then n else wild v)
      | _ \<Rightarrow> wild v)"

text \<open>Product and sum, rounded; a product of an infinity has the sign of the factors, or none.\<close>

definition signed_inf :: "rat \<Rightarrow> float64" where
  "signed_inf s = (if 0 < s then PosInf else if s < 0 then NegInf else NaN)"

fun f_mult :: "float64 \<Rightarrow> float64 \<Rightarrow> float64" where
  "f_mult (Finite a) (Finite b) = Finite (fl64 (a * b))"
| "f_mult NaN y = NaN"
| "f_mult x NaN = NaN"
| "f_mult x y = signed_inf (f_sgn x * f_sgn y)"

fun f_add :: "float64 \<Rightarrow> float64 \<Rightarrow> float64" where
  "f_add (Finite a) (Finite b) = Finite (fl64 (a + b))"
| "f_add NaN y = NaN"
| "f_add x NaN = NaN"
| "f_add (Finite a) y = y"
| "f_add x (Finite b) = x"
| "f_add x y = (if x = y then x else NaN)"

text \<open>The nominal delay: \<open>Base * 2^(attempts-1)\<close>, the exponent capped at 62, the product at \<open>Max\<close>.\<close>

definition nominal_delay :: "backoff_policy \<Rightarrow> int \<Rightarrow> rat" where
  "nominal_delay p attempts =
     (let base = (if bp_base p \<le> 0 then second else bp_base p);
          e = wrap64 (attempts - 1);
          e = (if e < 0 then 0 else e);
          e = (if e > 62 then 62 else e);
          delay = fl64 (fl64 (of_int base) * 2 ^ nat e) in
      if bp_max p > 0 \<and> delay > fl64 (of_int (bp_max p)) then fl64 (of_int (bp_max p)) else delay)"

text \<open>The argument \<open>x\<close> is what \<open>rand.Float64()\<close> returned.\<close>

definition Next :: "(float64 \<Rightarrow> int) \<Rightarrow> rat \<Rightarrow> backoff_policy \<Rightarrow> int \<Rightarrow> duration" where
  "Next wild x p attempts =
     (let delay = Finite (nominal_delay p attempts);
          delay =
            (if f_less (Finite 0) (bp_jitter p) then
               f_mult delay (f_add (Finite 1) (f_mult (bp_jitter p) (Finite (fl64 (fl64 (2 * x) - 1)))))
             else delay) in
      if f_less delay (Finite 0) then 0 else float_to_int64 wild delay)"

subsection \<open>Laws of rounding\<close>

locale rounding =
  fixes fl :: "rat \<Rightarrow> rat"
  assumes fl_zero: "fl 0 = 0"
    and fl_one: "fl 1 = 1"
    and fl_two: "fl 2 = 2"
    and fl_minus: "fl (- x) = - fl x"
    and fl_mono: "x \<le> y \<Longrightarrow> fl x \<le> fl y"
begin

lemma fl_nonneg: "0 \<le> x \<Longrightarrow> 0 \<le> fl x"
  using fl_mono [of 0 x] by (simp add: fl_zero)

lemma fl_le_one: "x \<le> 1 \<Longrightarrow> fl x \<le> 1"
  using fl_mono [of x 1] by (simp add: fl_one)

lemma fl_ge_minus_one: "- 1 \<le> x \<Longrightarrow> - 1 \<le> fl x"
  using fl_mono [of "- 1" x] by (simp add: fl_one fl_minus)

text \<open>The spread \<open>J * (2 x - 1)\<close> stays within the jitter fraction when that fraction is a float.\<close>

lemma fl_spread:
  assumes "0 \<le> x" and "x \<le> 1" and "0 \<le> j" and "fl j = j"
  shows "\<bar>fl (j * fl (fl (2 * x) - 1))\<bar> \<le> j"
proof -
  have "fl (2 * x) \<le> 2" using fl_mono [of "2 * x" 2] assms(2) by (simp add: fl_two)
  moreover have "0 \<le> fl (2 * x)" using assms(1) by (simp add: fl_nonneg)
  ultimately have "\<bar>fl (fl (2 * x) - 1)\<bar> \<le> 1"
    by (simp add: abs_le_iff fl_le_one fl_ge_minus_one minus_le_iff)
  then have "\<bar>j * fl (fl (2 * x) - 1)\<bar> \<le> j"
    using assms(3) by (simp add: abs_mult mult_left_le)
  then have "- j \<le> j * fl (fl (2 * x) - 1)" and "j * fl (fl (2 * x) - 1) \<le> j"
    by (simp_all add: abs_le_iff)
  from fl_mono [OF this(1)] fl_mono [OF this(2)] show ?thesis
    by (simp add: fl_minus assms(4) abs_le_iff)
qed

end

subsection \<open>The rounding of binary64 satisfies them\<close>

lemma pow2_pos [simp]: "0 < pow2 e"
  by (simp add: pow2_def)

lemma pow2_nz [simp]: "pow2 e \<noteq> 0"
  by (simp add: pow2_def)

lemma pow2_Suc: "pow2 (e + 1) = 2 * pow2 e"
proof -
  consider "0 \<le> e" | "e = - 1" | "e < - 1" by linarith
  then show ?thesis
  proof cases
    case 1
    then show ?thesis by (simp add: pow2_def nat_add_distrib)
  next
    case 2
    then show ?thesis by (simp add: pow2_def)
  next
    case 3
    then have "nat (- e) = Suc (nat (- e - 1))" by simp
    with 3 show ?thesis by (simp add: pow2_def)
  qed
qed

lemma pow2_add_nat: "pow2 (e + int n) = 2 ^ n * pow2 e"
proof (induction n)
  case (Suc n)
  have "pow2 (e + int (Suc n)) = pow2 ((e + int n) + 1)" by (simp add: algebra_simps)
  then show ?case using Suc by (simp only: pow2_Suc power_Suc mult.assoc)
qed simp

lemma pow2_mono: "e \<le> e' \<Longrightarrow> pow2 e \<le> pow2 e'"
proof -
  assume "e \<le> e'"
  then have "e' = e + int (nat (e' - e))" by simp
  then have "pow2 e' = 2 ^ nat (e' - e) * pow2 e" by (metis pow2_add_nat)
  moreover have "(1 :: rat) \<le> 2 ^ nat (e' - e)" by simp
  ultimately show ?thesis
    using mult_right_mono [of 1 "2 ^ nat (e' - e)" "pow2 e"] less_imp_le [OF pow2_pos [of e]] by simp
qed

lemma pow2_of_nat: "pow2 (int n) = 2 ^ n"
  by (simp add: pow2_def)

lemma round_even_bounds: "\<lfloor>x\<rfloor> \<le> round_even x \<and> round_even x \<le> \<lfloor>x\<rfloor> + 1"
  by (simp add: round_even_def Let_def)

lemma round_even_of_int [simp]: "round_even (of_int n) = n"
  by (simp add: round_even_def)

lemma round_even_mono: "x \<le> y \<Longrightarrow> round_even x \<le> round_even y"
proof -
  assume xy: "x \<le> y"
  show ?thesis
  proof (cases "\<lfloor>x\<rfloor> = \<lfloor>y\<rfloor>")
    case True
    with xy show ?thesis by (auto simp: round_even_def Let_def)
  next
    case False
    with floor_mono [OF xy] have "\<lfloor>x\<rfloor> + 1 \<le> \<lfloor>y\<rfloor>" by simp
    with round_even_bounds [of x] round_even_bounds [of y] show ?thesis by linarith
  qed
qed

lemma exponent2_ge_one:
  assumes "1 \<le> x"
  shows "pow2 (exponent2 x) \<le> x \<and> x < pow2 (exponent2 x + 1)"
proof -
  let ?n = "nat \<lfloor>x\<rfloor>" and ?k = "floorlog 2 (nat \<lfloor>x\<rfloor>)"
  have n: "0 < ?n" using assms by simp
  then have k: "2 ^ (?k - 1) \<le> ?n \<and> ?n < 2 ^ ?k" by (intro floorlog_bounds) simp_all
  have "0 < ?k" using n by (simp add: floorlog_def)
  then have e: "exponent2 x = int (?k - 1)" and e1: "exponent2 x + 1 = int ?k"
    using assms by (simp_all add: exponent2_def of_nat_diff)
  have "of_nat ?n \<le> x" and "x < of_nat ?n + 1"
    using assms floor_less_iff [of x "\<lfloor>x\<rfloor> + 1"] by simp_all
  moreover have "(2 :: rat) ^ (?k - 1) \<le> of_nat ?n"
    using k by (metis of_nat_le_iff of_nat_numeral of_nat_power)
  moreover have "of_nat ?n + 1 \<le> (2 :: rat) ^ ?k"
    using k by (metis Suc_eq_plus1 Suc_le_eq of_nat_1 of_nat_add of_nat_le_iff of_nat_numeral of_nat_power)
  ultimately show ?thesis unfolding e1 unfolding e pow2_of_nat by linarith
qed

lemma exponent2_lt_one:
  assumes "0 < x" and "x < 1"
  shows "pow2 (exponent2 x) \<le> x \<and> x < pow2 (exponent2 x + 1)"
proof -
  let ?m = "nat \<lceil>1 / x\<rceil>" and ?k = "floorlog 2 (nat \<lceil>1 / x\<rceil> - 1)"
  have y: "1 < 1 / x" using assms by simp
  then have "1 < \<lceil>1 / x\<rceil>" by (simp add: less_ceiling_iff)
  then have m: "0 < ?m - 1" by simp
  then have k: "2 ^ (?k - 1) \<le> ?m - 1 \<and> ?m - 1 < 2 ^ ?k" by (intro floorlog_bounds) simp_all
  have k0: "0 < ?k" using m by (simp add: floorlog_def)
  have e: "exponent2 x = - int ?k" using assms by (simp add: exponent2_def)
  define y where "y = 1 / x"
  have "rat_of_int (\<lceil>y\<rceil> - 1) < y" by (simp add: ceiling_correct [THEN conjunct1])
  moreover have "rat_of_nat (nat \<lceil>y\<rceil> - 1) = rat_of_int (\<lceil>y\<rceil> - 1)"
  proof -
    have "nat \<lceil>y\<rceil> - 1 = nat (\<lceil>y\<rceil> - 1)" by simp
    then show ?thesis using \<open>1 < \<lceil>1 / x\<rceil>\<close> unfolding y_def by (simp only: of_nat_nat)
  qed
  ultimately have "of_nat (?m - 1) < 1 / x" by (simp only: y_def)
  moreover have "1 / x \<le> of_nat ?m" using \<open>1 < \<lceil>1 / x\<rceil>\<close> by simp
  moreover have "(2 :: rat) ^ (?k - 1) \<le> of_nat (?m - 1)"
    using k by (metis of_nat_le_iff of_nat_numeral of_nat_power)
  moreover have "of_nat ?m \<le> (2 :: rat) ^ ?k"
  proof -
    have "a \<le> b" if "a - 1 < b" for a b :: nat using that by simp
    then have "?m \<le> 2 ^ ?k" using k by blast
    then have "rat_of_nat ?m \<le> of_nat (2 ^ ?k)" by (simp only: of_nat_le_iff)
    then show ?thesis by (simp only: of_nat_power of_nat_numeral)
  qed
  ultimately have lo: "2 ^ (?k - 1) < 1 / x" and hi: "1 / x \<le> 2 ^ ?k" by linarith+
  have "1 / 2 ^ ?k \<le> x" using hi assms(1) by (simp add: field_simps)
  moreover have "x < 1 / 2 ^ (?k - 1)" using lo assms(1) by (simp add: field_simps)
  moreover have "pow2 (- int ?k) = 1 / 2 ^ ?k" using k0 by (simp add: pow2_def)
  moreover have "pow2 (- int ?k + 1) = 1 / 2 ^ (?k - 1)"
  proof -
    have "2 * pow2 (- int ?k) = 1 / 2 ^ (?k - 1)"
      using k0 \<open>pow2 (- int ?k) = 1 / 2 ^ ?k\<close> by (cases ?k) simp_all
    then show ?thesis by (simp only: pow2_Suc)
  qed
  ultimately show ?thesis unfolding e by simp
qed

lemma exponent2: "0 < x \<Longrightarrow> pow2 (exponent2 x) \<le> x \<and> x < pow2 (exponent2 x + 1)"
  using exponent2_ge_one exponent2_lt_one by (cases "1 \<le> x") auto

lemma exponent2_unique:
  assumes "0 < x" and "pow2 e \<le> x" and "x < pow2 (e + 1)"
  shows "exponent2 x = e"
proof (rule ccontr)
  assume "exponent2 x \<noteq> e"
  then have "exponent2 x + 1 \<le> e \<or> e + 1 \<le> exponent2 x" by linarith
  with exponent2 [OF assms(1)] pow2_mono [of "exponent2 x + 1" e] pow2_mono [of "e + 1" "exponent2 x"]
    assms(2,3) show False by linarith
qed

lemma exponent2_mono: "0 < x \<Longrightarrow> x \<le> y \<Longrightarrow> exponent2 x \<le> exponent2 y"
proof (rule ccontr)
  assume "0 < x" "x \<le> y" and "\<not> exponent2 x \<le> exponent2 y"
  then have "pow2 (exponent2 y + 1) \<le> pow2 (exponent2 x)" by (intro pow2_mono) simp
  with exponent2 [of x] exponent2 [of y] \<open>0 < x\<close> \<open>x \<le> y\<close> show False by linarith
qed

text \<open>Rounding does not leave the binade, its upper end included.\<close>

lemma fl64_pos_bounds:
  assumes "0 < x"
  shows "pow2 (exponent2 x) \<le> fl64_pos x \<and> fl64_pos x \<le> pow2 (exponent2 x + 1)"
proof -
  let ?u = "pow2 (exponent2 x - 52)"
  have lo: "pow2 (exponent2 x) = of_int (2 ^ 52) * ?u" and hi: "pow2 (exponent2 x + 1) = of_int (2 ^ 53) * ?u"
    using pow2_add_nat [of "exponent2 x - 52" 52] pow2_add_nat [of "exponent2 x - 52" 53]
    by (simp_all add: algebra_simps)
  have "of_int (2 ^ 52) \<le> x / ?u" and "x / ?u \<le> of_int (2 ^ 53)"
    using exponent2 [OF assms] lo hi by (simp_all add: pos_le_divide_eq pos_divide_le_eq)
  then have "2 ^ 52 \<le> round_even (x / ?u)" and "round_even (x / ?u) \<le> 2 ^ 53"
    by (metis round_even_mono round_even_of_int)+
  then have "(of_int (2 ^ 52) :: rat) \<le> of_int (round_even (x / ?u))"
    and "(of_int (round_even (x / ?u)) :: rat) \<le> of_int (2 ^ 53)"
    by (simp_all only: of_int_le_iff)
  then show ?thesis unfolding lo hi fl64_pos_def Let_def by (simp add: mult_right_mono less_imp_le)
qed

lemma fl64_pos_mono:
  assumes "0 < x" and "x \<le> y"
  shows "fl64_pos x \<le> fl64_pos y"
proof (cases "exponent2 x = exponent2 y")
  case True
  let ?u = "pow2 (exponent2 x - 52)"
  have "x / ?u \<le> y / ?u" using assms(2) by (simp add: divide_right_mono less_imp_le)
  then have "round_even (x / ?u) \<le> round_even (y / ?u)" by (rule round_even_mono)
  with True show ?thesis by (simp add: fl64_pos_def Let_def mult_right_mono less_imp_le)
next
  case False
  with exponent2_mono [OF assms] have "exponent2 x + 1 \<le> exponent2 y" by simp
  then have "pow2 (exponent2 x + 1) \<le> pow2 (exponent2 y)" by (rule pow2_mono)
  with fl64_pos_bounds [of x] fl64_pos_bounds [of y] assms show ?thesis by linarith
qed

text \<open>An integer of at most 53 bits, times a power of two, is a float.\<close>

lemma fl64_exact:
  assumes "0 < n" and "n < 2 ^ 53"
  shows "fl64 (of_int n * 2 ^ k) = of_int n * 2 ^ k"
proof -
  let ?x = "of_int n * 2 ^ k :: rat"
  have pos: "0 < ?x" using assms(1) by simp
  have "rat_of_int n < of_int (2 ^ 53)" using assms(2) by (simp only: of_int_less_iff)
  then have "?x < 2 ^ 53 * 2 ^ k" by (intro mult_strict_right_mono) simp_all
  also have "\<dots> = pow2 (int (53 + k))" unfolding pow2_of_nat power_add ..
  finally have "pow2 (exponent2 ?x) < pow2 (int (53 + k))"
    using exponent2 [OF pos] by (meson le_less_trans)
  then have "\<not> int (53 + k) \<le> exponent2 ?x" using pow2_mono leD by blast
  then have "exponent2 ?x < int (53 + k)" by (rule not_le_imp_less)
  define d where "d = exponent2 ?x - 52"
  have d: "d \<le> int k" using \<open>exponent2 ?x < int (53 + k)\<close> by (simp add: d_def)
  have "?x / pow2 d = of_int (n * 2 ^ nat (int k - d))"
  proof -
    have "pow2 (int k) = 2 ^ nat (int k - d) * pow2 d"
      using pow2_add_nat [of d "nat (int k - d)"] d by simp
    then show ?thesis by (simp add: pow2_of_nat)
  qed
  then have "fl64_pos ?x = ?x / pow2 d * pow2 d"
    unfolding fl64_pos_def Let_def d_def [symmetric] by (simp only: round_even_of_int)
  with pos show ?thesis by (simp only: fl64_def) simp
qed

text \<open>Rounding twice is rounding once.\<close>

lemma fl64_pos_float:
  assumes "2 ^ 52 \<le> k" and "k < 2 ^ 53"
  shows "fl64_pos (of_int k * pow2 d) = of_int k * pow2 d"
proof -
  let ?x = "of_int k * pow2 d"
  have "rat_of_int (2 ^ 52) \<le> of_int k" and "rat_of_int k < of_int (2 ^ 53)"
    using assms by (simp_all only: of_int_le_iff of_int_less_iff)
  then have "2 ^ 52 * pow2 d \<le> ?x" and "?x < 2 ^ 53 * pow2 d"
    by (simp_all add: mult_right_mono less_imp_le)
  then have "pow2 (d + int 52) \<le> ?x" and "?x < pow2 (d + int 53)"
    unfolding pow2_add_nat by simp_all
  moreover have "d + int 53 = (d + int 52) + 1" by simp
  moreover have "0 < ?x" using assms(1) by simp
  ultimately have e: "exponent2 ?x = d + int 52" by (metis exponent2_unique)
  have "?x / pow2 d = of_int k" by simp
  with e show ?thesis by (simp add: fl64_pos_def Let_def)
qed

lemma fl64_pos_idem:
  assumes "0 < x"
  shows "fl64_pos (fl64_pos x) = fl64_pos x"
proof -
  let ?d = "exponent2 x - 52" and ?k = "round_even (x / pow2 (exponent2 x - 52))"
  have x: "fl64_pos x = of_int ?k * pow2 ?d" by (simp add: fl64_pos_def Let_def)
  have lo: "pow2 (exponent2 x) = of_int (2 ^ 52) * pow2 ?d"
    and hi: "pow2 (exponent2 x + 1) = of_int (2 ^ 53) * pow2 ?d"
    using pow2_add_nat [of ?d 52] pow2_add_nat [of ?d 53] by (simp_all add: algebra_simps)
  have "(of_int (2 ^ 52) :: rat) \<le> of_int ?k" and "(of_int ?k :: rat) \<le> of_int (2 ^ 53)"
    using fl64_pos_bounds [OF assms] unfolding x lo hi by (simp_all only: mult_le_cancel_right_pos pow2_pos)
  then have k: "2 ^ 52 \<le> ?k" "?k \<le> 2 ^ 53" by (simp_all only: of_int_le_iff)
  show ?thesis
  proof (cases "?k = 2 ^ 53")
    case False
    with k show ?thesis unfolding x by (intro fl64_pos_float) simp_all
  next
    case True
    have "fl64_pos x = of_int (2 ^ 52) * pow2 (?d + 1)"
      unfolding x True pow2_Suc by simp
    then show ?thesis using fl64_pos_float [of "2 ^ 52" "?d + 1"] by simp
  qed
qed

lemma fl64_pos_pos: "0 < x \<Longrightarrow> 0 < fl64_pos x"
  using fl64_pos_bounds [of x] pow2_pos [of "exponent2 x"] by linarith

lemma fl64_idem [simp]: "fl64 (fl64 x) = fl64 x"
proof -
  consider "x = 0" | "0 < x" | "0 < - x" by linarith
  then show ?thesis
  proof cases
    case 2
    then show ?thesis using fl64_pos_pos [OF 2] fl64_pos_idem [OF 2] by (simp add: fl64_def)
  next
    case 3
    then show ?thesis using fl64_pos_pos [OF 3] fl64_pos_idem [OF 3] by (simp add: fl64_def)
  qed (simp add: fl64_def)
qed

interpretation binary64: rounding fl64
proof
  show "fl64 0 = 0" by (simp add: fl64_def)
  show "fl64 1 = 1" using fl64_exact [of 1 0] by simp
  show "fl64 2 = 2" using fl64_exact [of 2 0] by simp
  show "fl64 (- x) = - fl64 x" for x by (simp add: fl64_def)
  show "fl64 x \<le> fl64 y" if "x \<le> y" for x y
  proof -
    consider "0 < x" | "y < 0" | "x \<le> 0" "0 \<le> y" by linarith
    then show ?thesis
    proof cases
      case 1
      with that show ?thesis by (simp add: fl64_def fl64_pos_mono)
    next
      case 2
      with that show ?thesis by (simp add: fl64_def fl64_pos_mono)
    next
      case 3
      then show ?thesis using fl64_pos_pos [of "- x"] fl64_pos_pos [of y] by (auto simp: fl64_def)
    qed
  qed
qed

subsection \<open>Lemmas on the delay\<close>

lemma nominal_delay_nonneg: "0 \<le> nominal_delay p n"
proof -
  have "0 \<le> fl64 (of_int (if bp_base p \<le> 0 then second else bp_base p))"
    by (intro binary64.fl_nonneg) (simp add: second_def)
  then show ?thesis
    by (simp add: nominal_delay_def Let_def binary64.fl_nonneg)
qed

lemma nominal_delay_capped: "0 < bp_max p \<Longrightarrow> nominal_delay p n \<le> fl64 (of_int (bp_max p))"
  by (simp add: nominal_delay_def Let_def)

lemma float_to_int64_trunc:
  assumes "0 \<le> x" and "x < 2 ^ 63"
  shows "float_to_int64 wild (Finite x) = \<lfloor>x\<rfloor>"
proof -
  have "\<lfloor>x\<rfloor> < 2 ^ 63" using assms(2) by (simp add: floor_less_iff)
  moreover have "0 \<le> \<lfloor>x\<rfloor>" using assms(1) by simp
  ultimately show ?thesis using assms(1) by (simp add: float_to_int64_def Let_def)
qed

lemma jittered_delay_bounds:
  assumes "0 \<le> j" and "j \<le> 1" and "fl64 j = j" and "0 \<le> x" and "x \<le> 1" and "0 \<le> d" and "d \<le> m"
  shows "0 \<le> fl64 (d * fl64 (1 + fl64 (j * fl64 (fl64 (2 * x) - 1))))"
    and "fl64 (d * fl64 (1 + fl64 (j * fl64 (fl64 (2 * x) - 1)))) \<le> fl64 (m * fl64 (1 + j))"
proof -
  let ?s = "fl64 (j * fl64 (fl64 (2 * x) - 1))"
  have s: "\<bar>?s\<bar> \<le> j" using assms(1,3-5) by (intro binary64.fl_spread)
  then have "- j \<le> ?s" and sj: "?s \<le> j" by (simp_all add: abs_le_iff)
  with assms(2) have "0 \<le> 1 + ?s" by simp
  then have f0: "0 \<le> fl64 (1 + ?s)" by (rule binary64.fl_nonneg)
  then show "0 \<le> fl64 (d * fl64 (1 + ?s))" using assms(6) by (simp add: binary64.fl_nonneg)
  have "fl64 (1 + ?s) \<le> fl64 (1 + j)" using sj by (intro binary64.fl_mono) simp
  then show "fl64 (d * fl64 (1 + ?s)) \<le> fl64 (m * fl64 (1 + j))"
    using mult_mono [OF assms(7) _ order_trans [OF assms(6,7)] f0] by (intro binary64.fl_mono)
qed

lemma fl64_pow2_bound: "0 \<le> x \<Longrightarrow> x \<le> 2 ^ k \<Longrightarrow> fl64 x \<le> 2 ^ k"
  using binary64.fl_mono [of x "2 ^ k"] fl64_exact [of 1 k] by simp

lemma fl64_small: "0 < n \<Longrightarrow> n < 2 ^ 53 \<Longrightarrow> fl64 (of_int n) = of_int n"
  using fl64_exact [of n 0] by simp

subsection \<open>Properties\<close>

text \<open>A jitter that is not a number fails the test for spreading, so it spreads nothing.\<close>

lemma Next_finite:
  assumes "bp_jitter p = Finite j"
  shows "Next wild x p n =
    (let d = (if 0 < j then fl64 (nominal_delay p n * fl64 (1 + fl64 (j * fl64 (fl64 (2 * x) - 1)))) else nominal_delay p n) in
     if d < 0 then 0 else float_to_int64 wild (Finite d))"
  using assms by (simp add: Next_def Let_def)

lemma Next_NaN: "bp_jitter p = NaN \<Longrightarrow> Next wild x p n = Next wild x (p\<lparr>bp_jitter := Finite 0\<rparr>) n"
proof -
  have "nominal_delay (p\<lparr>bp_jitter := y\<rparr>) n = nominal_delay p n" for y
    unfolding nominal_delay_def by (cases p) (simp only: backoff_policy.simps)
  then show "bp_jitter p = NaN \<Longrightarrow> Next wild x p n = Next wild x (p\<lparr>bp_jitter := Finite 0\<rparr>) n"
    by (simp add: Next_def Let_def)
qed

lemma Next_bounds:
  assumes "0 < bp_max p" and "bp_max p \<le> 2 ^ 61" and j: "bp_jitter p = Finite j" and "0 \<le> j" and "j \<le> 1"
    and "fl64 j = j" and "0 \<le> x" and "x \<le> 1"
  shows "0 \<le> Next wild x p n \<and> of_int (Next wild x p n) \<le> fl64 (fl64 (of_int (bp_max p)) * fl64 (1 + j))"
proof -
  let ?m = "fl64 (of_int (bp_max p))"
  let ?d = "if 0 < j then fl64 (nominal_delay p n * fl64 (1 + fl64 (j * fl64 (fl64 (2 * x) - 1))))
            else nominal_delay p n"
  have m0: "0 \<le> ?m" using assms(1) by (simp add: binary64.fl_nonneg)
  have m61: "?m \<le> 2 ^ 61"
  proof (rule fl64_pow2_bound)
    have "rat_of_int (bp_max p) \<le> of_int (2 ^ 61)" using assms(2) by (simp only: of_int_le_iff)
    then show "rat_of_int (bp_max p) \<le> 2 ^ 61" by simp
  qed (use assms(1) in simp)
  have j2: "fl64 (1 + j) \<le> 2" using assms(4,5) fl64_pow2_bound [of "1 + j" 1] by simp
  have "0 \<le> fl64 (1 + j)" using assms(4) by (simp add: binary64.fl_nonneg)
  have "?m * fl64 (1 + j) \<le> 2 ^ 62"
    using mult_mono [OF m61 j2] \<open>0 \<le> fl64 (1 + j)\<close> by simp
  then have top: "fl64 (?m * fl64 (1 + j)) \<le> 2 ^ 62"
    using m0 \<open>0 \<le> fl64 (1 + j)\<close> by (intro fl64_pow2_bound) simp_all
  have d: "0 \<le> ?d \<and> ?d \<le> fl64 (?m * fl64 (1 + j))"
  proof (cases "0 < j")
    case True
    with jittered_delay_bounds [OF assms(4-8) nominal_delay_nonneg [of p n]
        nominal_delay_capped [OF assms(1), of n]]
    show ?thesis by simp
  next
    case False
    with assms(4) have "j = 0" by simp
    then show ?thesis
      using nominal_delay_nonneg [of p n] nominal_delay_capped [OF assms(1), of n]
      by (simp add: binary64.fl_one)
  qed
  then have "Next wild x p n = \<lfloor>?d\<rfloor>"
    using top by (simp add: Next_finite [OF j] Let_def float_to_int64_trunc)
  then show ?thesis using d by (simp add: of_int_floor_le order_trans [OF of_int_floor_le])
qed

text \<open>
  C15.  The backoff stays in its band.  With a positive cap of at most \<open>2^61\<close> nanoseconds (73 years)
  and a jitter that \<open>Validate\<close> accepts - a fraction \<open>j\<close> between 0 and 1, or not a number, which spreads
  nothing - for every attempt number, every base and every random
  draw, the delay is never negative and never exceeds the cap by more than the jitter fraction,
  up to the rounding of the two \<open>float64\<close> operations that apply it.  Without a cap it may
  (\<open>uncapped_backoff_overflows\<close>).
\<close>

theorem backoff_stays_in_band:
  assumes "0 < bp_max p" and "bp_max p \<le> 2 ^ 61" and "0 \<le> x" and "x \<le> 1"
    and "bp_jitter p = Finite j \<and> 0 \<le> j \<and> j \<le> 1 \<and> fl64 j = j \<or> bp_jitter p = NaN \<and> j = 0"
  shows "0 \<le> Next wild x p n \<and> of_int (Next wild x p n) \<le> fl64 (fl64 (of_int (bp_max p)) * fl64 (1 + j))"
  using assms(5)
proof
  assume "bp_jitter p = Finite j \<and> 0 \<le> j \<and> j \<le> 1 \<and> fl64 j = j"
  then show ?thesis using Next_bounds [OF assms(1,2) _ _ _ _ assms(3,4)] by blast
next
  assume nan: "bp_jitter p = NaN \<and> j = 0"
  let ?p = "p\<lparr>bp_jitter := Finite 0\<rparr>"
  show ?thesis
    using Next_bounds [of ?p 0 x wild n] assms(1-4) nan by (simp add: Next_NaN binary64.fl_zero)
qed

theorem backoff_stays_in_band_witness:
  "0 \<le> Next (\<lambda>_. 0) (1 / 2) \<lparr>bp_base = 60 * second, bp_max = 3600 * second, bp_jitter = Finite (1 / 4)\<rparr> 7"
proof -
  let ?p = "\<lparr>bp_base = 60 * second, bp_max = 3600 * second, bp_jitter = Finite (1 / 4)\<rparr>"
  have "fl64 (1 / 4) = 1 / 4" by code_simp
  then show ?thesis
    using backoff_stays_in_band [of ?p "1 / 2" "1 / 4" "\<lambda>_. 0" 7] by (simp add: second_def)
qed

text \<open>
  The nominal delays.  Without jitter, and with a base and a cap below \<open>2^53\<close> nanoseconds (104
  days), the delay after the n-th failure is exactly \<open>Base * 2^(n-1)\<close>, capped: the floating-point
  route loses nothing.
\<close>

lemma backoff_doubles_up_to_cap:
  assumes "bp_jitter p = Finite 0" and "0 < bp_base p" and "bp_base p < 2 ^ 53"
    and "0 < bp_max p" and "bp_max p < 2 ^ 53" and "1 \<le> n" and "n \<le> 63"
  shows "Next wild x p n = min (bp_base p * 2 ^ nat (n - 1)) (bp_max p)"
proof -
  let ?d = "rat_of_int (bp_base p * 2 ^ nat (n - 1))" and ?m = "rat_of_int (bp_max p)"
  have "nominal_delay p n = (if ?d > ?m then ?m else ?d)"
    using assms(2-7) fl64_exact [of "bp_base p" "nat (n - 1)"]
    by (simp add: nominal_delay_def Let_def fl64_small)
  then have nd: "nominal_delay p n = of_int (min (bp_base p * 2 ^ nat (n - 1)) (bp_max p))"
    by (simp only: of_int_less_iff min_def) (simp add: not_le)
  let ?r = "min (bp_base p * 2 ^ nat (n - 1)) (bp_max p)"
  have r: "0 \<le> ?r" "?r < 2 ^ 63" "\<not> ?r < 0" using assms(2-5) by (simp_all add: min_less_iff_disj not_less)
  then have "rat_of_int ?r < of_int (2 ^ 63)" by (simp only: of_int_less_iff)
  then have "rat_of_int ?r < 2 ^ 63" by simp
  then have "float_to_int64 wild (Finite (of_int ?r)) = \<lfloor>rat_of_int ?r\<rfloor>"
    using r(1) by (intro float_to_int64_trunc) simp_all
  then show ?thesis using assms(1) r(3) unfolding Next_def Let_def nd by (simp del: min_less_iff_disj)
qed

lemma backoff_doubles_up_to_cap_witness:
  "Next (\<lambda>_. 0) 0 \<lparr>bp_base = 60 * second, bp_max = 3600 * second, bp_jitter = Finite 0\<rparr> 4 = 480 * second"
  using backoff_doubles_up_to_cap
    [of "\<lparr>bp_base = 60 * second, bp_max = 3600 * second, bp_jitter = Finite 0\<rparr>" 4 "\<lambda>_. 0" 0]
  by (simp add: second_def)

text \<open>
  Without a cap the delay leaves \<open>int64\<close>.  \<open>BackoffMax = 0\<close> is accepted and means no cap; at the
  default base of one minute the 29th failure asks for \<open>60e9 * 2^28\<close> nanoseconds, which no \<open>int64\<close>
  holds, and the returned duration is whatever the implementation's conversion gives - the most
  negative duration on amd64.
\<close>

lemma uncapped_backoff_overflows:
  "Next wild x \<lparr>bp_base = 60 * second, bp_max = 0, bp_jitter = Finite 0\<rparr> 29 = wild (Finite (60000000000 * 2 ^ 28))"
proof -
  let ?p = "\<lparr>bp_base = 60 * second, bp_max = 0, bp_jitter = Finite 0\<rparr>"
  have "nominal_delay ?p 29 = of_int 60000000000 * 2 ^ 28"
    using fl64_exact [of 60000000000 28] fl64_small [of 60000000000]
    by (simp add: nominal_delay_def second_def)
  then show ?thesis by (simp add: Next_def float_to_int64_def)
qed

end
