(* ===== verification/Dispatch_Breaker.thy ===== *)
theory Dispatch_Breaker
  imports Outbox_Prelude
begin

text \<open>
  \<open>internal/dispatch/breaker.go\<close>, with the \<open>Result\<close> of a cycle from \<open>pipeline.go\<close> that it reads: the
  breaker that keeps a pipeline from claiming work for a broker that could not be reached.
\<close>

subsection \<open>The result of a cycle\<close>

record cycle_result =
  res_claimed :: int
  res_delivered :: int
  res_deferred :: int

definition zero_result :: cycle_result where
  "zero_result = \<lparr>res_claimed = 0, res_delivered = 0, res_deferred = 0\<rparr>"

definition unreachable :: "cycle_result \<Rightarrow> bool" where
  "unreachable r \<longleftrightarrow> res_deferred r > 0 \<and> res_delivered r = 0"

subsection \<open>The breaker\<close>

record breaker =
  b_first :: duration
  b_ceiling :: duration
  b_until :: go_time
  b_pause :: duration

definition newBreaker :: "duration \<Rightarrow> duration \<Rightarrow> breaker" where
  "newBreaker first ceiling =
     \<lparr>b_first = (if first \<le> 0 then second else first), b_ceiling = ceiling,
      b_until = zero_time, b_pause = 0\<rparr>"

definition breaker_open :: "breaker \<Rightarrow> bool" where
  "breaker_open b \<longleftrightarrow> \<not> is_zero_time (b_until b)"

definition blocks :: "breaker \<Rightarrow> go_time \<Rightarrow> bool" where
  "blocks b now \<longleftrightarrow> breaker_open b \<and> now < b_until b"

text \<open>The pause after one more cycle that found the broker gone; \<open>b.pause * 2\<close> is \<open>int64\<close> arithmetic.\<close>

definition next_pause :: "breaker \<Rightarrow> duration" where
  "next_pause b =
     (if b_pause b \<le> 0 then b_first b
      else if wrap64 (b_pause b * 2) \<le> b_ceiling b then wrap64 (b_pause b * 2)
      else b_ceiling b)"

definition breaker_observe :: "go_time \<Rightarrow> cycle_result \<Rightarrow> breaker \<Rightarrow> breaker \<times> bool" where
  "breaker_observe now res b =
     (if b_ceiling b \<le> 0 then (b, False)
      else
        (let b' = (if unreachable res
                   then b\<lparr>b_pause := next_pause b, b_until := now + next_pause b\<rparr>
                   else b\<lparr>b_until := zero_time, b_pause := 0\<rparr>) in
         (b', breaker_open b \<noteq> breaker_open b')))"

definition breaker_wait :: "breaker \<Rightarrow> duration" where
  "breaker_wait b = b_pause b"

text \<open>A run of cycles, each observed at its own time, oldest first.\<close>

fun observe_all :: "(go_time \<times> cycle_result) list \<Rightarrow> breaker \<Rightarrow> breaker" where
  "observe_all [] b = b"
| "observe_all ((now, res) # obs) b = observe_all obs (fst (breaker_observe now res b))"

subsection \<open>Invariant\<close>

text \<open>
  What every observation keeps of a breaker built with \<open>first\<close> and \<open>ceiling\<close>: it is open exactly while
  it has a pause, and the pause lies between the first one and the larger of the two settings.
\<close>

definition breaker_ok :: "breaker \<Rightarrow> bool" where
  "breaker_ok b \<longleftrightarrow>
     0 < b_first b \<and> 0 \<le> b_pause b
     \<and> (breaker_open b \<longleftrightarrow> 0 < b_pause b)
     \<and> b_pause b \<le> max (b_first b) (b_ceiling b)"

lemma newBreaker_ok: "breaker_ok (newBreaker first ceiling)"
  by (auto simp: breaker_ok_def newBreaker_def breaker_open_def is_zero_time_def second_def)

lemma next_pause_bounds:
  assumes "breaker_ok b" and "0 < b_ceiling b" and "b_ceiling b < 2 ^ 62" and "b_first b < 2 ^ 62"
  shows "0 < next_pause b \<and> next_pause b \<le> max (b_first b) (b_ceiling b)"
proof -
  have "b_pause b < 2 ^ 62" using assms by (auto simp: breaker_ok_def)
  then have "wrap64 (b_pause b * 2) = b_pause b * 2"
    using assms(1) by (intro wrap64_id) (simp_all add: breaker_ok_def)
  with assms(1,2) show ?thesis by (auto simp: next_pause_def breaker_ok_def le_max_iff_disj)
qed

lemma breaker_observe_ok:
  assumes "breaker_ok b" and "0 < now" and "b_ceiling b < 2 ^ 62" and "b_first b < 2 ^ 62"
  shows "breaker_ok (fst (breaker_observe now res b))"
  using assms next_pause_bounds [of b]
  by (auto simp: breaker_observe_def Let_def breaker_ok_def breaker_open_def is_zero_time_def
      zero_time_def)

lemma breaker_observe_settings [simp]:
  "b_first (fst (breaker_observe now res b)) = b_first b"
  "b_ceiling (fst (breaker_observe now res b)) = b_ceiling b"
  by (simp_all add: breaker_observe_def Let_def)

lemma observe_all_ok:
  assumes "breaker_ok b" and "b_ceiling b < 2 ^ 62" and "b_first b < 2 ^ 62"
    and "\<forall>(now, res) \<in> set obs. 0 < now"
  shows "breaker_ok (observe_all obs b) \<and> b_first (observe_all obs b) = b_first b
    \<and> b_ceiling (observe_all obs b) = b_ceiling b"
  using assms
proof (induction obs arbitrary: b)
  case (Cons o' obs)
  obtain now res where o': "o' = (now, res)" by (cases o')
  have "breaker_ok (fst (breaker_observe now res b))"
    using Cons.prems o' by (intro breaker_observe_ok) auto
  with Cons.prems Cons.IH [of "fst (breaker_observe now res b)"] o' show ?case by simp
qed simp

text \<open>The pause after a number of consecutive cycles that found the broker gone.\<close>

lemma observe_failures_pause:
  assumes "b_pause b = min (f * 2 ^ k) c" and "b_ceiling b = c" and "b_first b = f"
    and "0 < f" and "f \<le> c" and "c < 2 ^ 62" and "\<forall>(now, res) \<in> set obs. unreachable res"
  shows "b_pause (observe_all obs b) = min (f * 2 ^ (k + length obs)) c"
  using assms
proof (induction obs arbitrary: b k)
  case (Cons o' obs)
  obtain now res where o': "o' = (now, res)" by (cases o')
  let ?b = "fst (breaker_observe now res b)"
  have pos: "0 < b_pause b" using Cons.prems by simp
  have "b_pause b < 2 ^ 62" using Cons.prems(1,6) by simp
  then have "wrap64 (b_pause b * 2) = b_pause b * 2" using pos by (intro wrap64_id) simp_all
  then have "b_pause ?b = min (2 * b_pause b) c"
    using Cons.prems pos o' by (simp add: breaker_observe_def Let_def next_pause_def min_def)
  also have "\<dots> = min (f * 2 ^ Suc k) c"
    using Cons.prems(1,4,5) by (simp add: min_def)
  finally have "b_pause (observe_all obs ?b) = min (f * 2 ^ (Suc k + length obs)) c"
    using Cons.prems by (intro Cons.IH) auto
  with o' show ?case by simp
qed simp

subsection \<open>Properties\<close>

text \<open>
  The breaker's state over any run.  However cycles turn out, a breaker built by \<open>newBreaker\<close>
  holds claims back exactly while it has a positive pause, and that pause never exceeds the larger
  of the first pause and the ceiling; doubling it never overflows.
\<close>

lemma breaker_pause_is_bounded:
  assumes "ceiling < 2 ^ 62" and "first < 2 ^ 62" and "\<forall>(now, res) \<in> set obs. 0 < now"
    and "b = observe_all obs (newBreaker first ceiling)"
  shows "(breaker_open b \<longleftrightarrow> 0 < b_pause b)
    \<and> b_pause b \<le> max (if first \<le> 0 then second else first) ceiling"
proof -
  have "breaker_ok b \<and> b_first b = b_first (newBreaker first ceiling)
      \<and> b_ceiling b = b_ceiling (newBreaker first ceiling)"
    unfolding assms(4) using assms(1-3)
    by (intro observe_all_ok newBreaker_ok) (auto simp: newBreaker_def second_def)
  then show ?thesis by (auto simp: breaker_ok_def newBreaker_def)
qed

lemma breaker_pause_is_bounded_witness:
  "b_pause (observe_all [(7, \<lparr>res_claimed = 3, res_delivered = 0, res_deferred = 3\<rparr>)]
     (newBreaker (5 * second) (30 * second))) \<le> 30 * second"
  using breaker_pause_is_bounded [of "30 * second" "5 * second"
      "[(7, \<lparr>res_claimed = 3, res_delivered = 0, res_deferred = 3\<rparr>)]", OF _ _ _ refl]
  by (simp add: second_def)

text \<open>
  The schedule of an outage.  The n-th consecutive cycle that finds the broker gone sets a pause
  of \<open>first * 2^(n-1)\<close>, capped at the ceiling, and one cycle that does anything else - a delivery,
  an ordinary failure or an empty claim - closes the breaker and resets the schedule.
\<close>

lemma breaker_doubles_then_resets:
  assumes "0 < first" and "first \<le> ceiling" and "ceiling < 2 ^ 62"
    and "\<forall>(now, res) \<in> set obs. unreachable res" and "obs \<noteq> []" and "\<not> unreachable res'"
  shows "b_pause (observe_all obs (newBreaker first ceiling)) = min (first * 2 ^ (length obs - 1)) ceiling
    \<and> \<not> breaker_open (observe_all (obs @ [(now', res')]) (newBreaker first ceiling))
    \<and> observe_all (obs @ [(now', res')]) (newBreaker first ceiling) = newBreaker first ceiling"
proof -
  have append: "observe_all (xs @ [(now', res')]) b = fst (breaker_observe now' res' (observe_all xs b))"
    for xs b by (induction xs arbitrary: b) auto
  have settings: "b_first (observe_all xs b) = b_first b \<and> b_ceiling (observe_all xs b) = b_ceiling b"
    for xs b by (induction xs arbitrary: b) (auto simp: case_prod_beta)
  obtain now res obs' where obs: "obs = (now, res) # obs'"
    using assms(5) by (cases obs) auto
  let ?b = "fst (breaker_observe now res (newBreaker first ceiling))"
  have "b_pause ?b = min (first * 2 ^ 0) ceiling" and "b_ceiling ?b = ceiling" and "b_first ?b = first"
    using assms obs by (simp_all add: newBreaker_def breaker_observe_def next_pause_def Let_def)
  then have "b_pause (observe_all obs' ?b) = min (first * 2 ^ (0 + length obs')) ceiling"
    using assms obs by (intro observe_failures_pause) auto
  moreover have "observe_all (obs @ [(now', res')]) (newBreaker first ceiling) = newBreaker first ceiling"
    unfolding append using assms(1-3,6) settings [of obs "newBreaker first ceiling"]
    by (simp add: breaker_observe_def Let_def newBreaker_def)
  ultimately show ?thesis
    using obs by (simp add: newBreaker_def breaker_open_def is_zero_time_def)
qed

lemma breaker_doubles_then_resets_witness:
  "b_pause (observe_all [(7, \<lparr>res_claimed = 3, res_delivered = 0, res_deferred = 3\<rparr>),
       (9, \<lparr>res_claimed = 3, res_delivered = 0, res_deferred = 3\<rparr>)]
     (newBreaker (5 * second) (30 * second))) = 10 * second"
  using breaker_doubles_then_resets [of "5 * second" "30 * second"
      "[(7, \<lparr>res_claimed = 3, res_delivered = 0, res_deferred = 3\<rparr>),
        (9, \<lparr>res_claimed = 3, res_delivered = 0, res_deferred = 3\<rparr>)]" zero_result 11]
  by (simp add: second_def unreachable_def zero_result_def)

text \<open>
  The ceiling does not bound the first pause.  When the poll interval exceeds the ceiling, the
  first cycle that finds the broker gone pauses for the poll interval, above the ceiling; only the
  second one comes down to it.
\<close>

lemma first_pause_ignores_ceiling:
  assumes "0 < ceiling" and "ceiling < first" and "unreachable res"
  shows "b_pause (fst (breaker_observe now res (newBreaker first ceiling))) = first"
  using assms by (simp add: breaker_observe_def newBreaker_def next_pause_def Let_def)

lemma first_pause_ignores_ceiling_witness:
  "b_pause (fst (breaker_observe 7 \<lparr>res_claimed = 1, res_delivered = 0, res_deferred = 1\<rparr>
     (newBreaker (60 * second) (30 * second)))) = 60 * second"
  by (rule first_pause_ignores_ceiling) (simp_all add: second_def unreachable_def)

end
