(* ===== verification/Config_Types.thy ===== *)
theory Config_Types
  imports Go_Float Outbox_Prelude
begin

text \<open>
  The configuration of \<open>internal/config/config.go\<close> and \<open>broker.go\<close> as data, field for field, the
  naming rules and the lookups of the routing table.  A \<open>map\<close> of Go is an association list with
  distinct keys; its iteration order is unspecified, so nothing depends on the order of the list
  unless the code sorts first.  A \<open>float64\<close> setting is a rational.
\<close>

subsection \<open>Sections\<close>

record app_config =
  app_name :: string
  app_env :: string
  app_instance :: string
  app_shutdown_timeout :: duration

definition IsProduction :: "app_config \<Rightarrow> bool" where
  "IsProduction c \<longleftrightarrow> app_env c = ''prod'' \<or> app_env c = ''production''"

record log_config =
  log_level :: string
  log_format :: string
  log_caller :: bool

record db_config =
  db_dsn :: string
  db_host :: string
  db_port :: int
  db_user :: string
  db_password :: string
  db_name :: string
  db_ssl_mode :: string
  db_schema :: string
  db_table :: string
  db_max_conns :: int
  db_min_conns :: int
  db_connect_timeout :: duration
  db_statement_timeout :: duration
  db_max_conn_lifetime :: duration
  db_max_conn_idle_time :: duration
  db_auto_migrate :: bool
  db_migration_lock_key :: int

record dispatch_config =
  dc_poll_interval :: duration
  dc_batch_size :: int
  dc_workers :: int
  dc_lease_ttl :: duration
  dc_max_attempts :: int
  dc_max_defer :: duration
  dc_backoff_base :: duration
  dc_backoff_max :: duration
  dc_backoff_jitter :: float64
  dc_pause_max :: duration
  dc_publish_timeout :: duration
  dc_write_back_timeout :: duration
  dc_notify_enabled :: bool
  dc_notify_channel :: string
  dc_notify_debounce :: duration
  dc_notify_jitter :: duration

record janitor_config =
  jc_enabled :: bool
  jc_reclaim_interval :: duration
  jc_stats_interval :: duration
  jc_partition_ahead :: int
  jc_retention :: duration
  jc_retention_interval :: duration
  jc_retention_batch :: int
  jc_lock_key :: int

record http_config =
  http_enabled :: bool
  http_port :: int
  http_read_timeout :: duration
  http_write_timeout :: duration
  http_shutdown_timeout :: duration
  http_admin_token :: string

record metrics_config =
  mc_enabled :: bool
  mc_port :: int
  mc_path :: string

record otel_config =
  otel_endpoint :: string
  otel_insecure :: bool
  otel_sampling :: float64

record dlq_config =
  dlq_enabled :: bool
  dlq_stream :: string
  dlq_topic :: string

subsection \<open>Streams and drivers\<close>

datatype driver_type = DriverRabbitMQ | DriverKafka | DriverPostgres

fun driver_type_string :: "driver_type \<Rightarrow> string" where
  "driver_type_string DriverRabbitMQ = ''rabbitmq''"
| "driver_type_string DriverKafka = ''kafka''"
| "driver_type_string DriverPostgres = ''postgres''"

record naming =
  n_prefix :: string
  n_prefix_sep :: string
  n_version_sep :: string

definition Format :: "naming \<Rightarrow> string \<Rightarrow> int \<Rightarrow> string" where
  "Format n topic version =
     (let name = (if version > 0 then topic @ n_version_sep n @ ''v'' @ itoa version else topic) in
      if n_prefix n = [] then name else n_prefix n @ n_prefix_sep n @ name)"

record stream_config =
  sc_name :: string
  sc_driver :: string

record rabbitmq_driver =
  rd_name :: string
  rd_naming :: naming
  rd_dsn :: string
  rd_channels :: int
  rd_declare :: bool
  rd_mandatory :: bool
  rd_publish_timeout :: duration
  rd_reconnect_delay :: duration

record kafka_driver =
  kd_name :: string
  kd_naming :: naming
  kd_brokers :: "string list"
  kd_security_protocol :: string
  kd_sasl_mechanism :: string
  kd_sasl_username :: string
  kd_sasl_password :: string
  kd_ssl_ca_pem :: bytes
  kd_ssl_cert_pem :: bytes
  kd_ssl_key_pem :: bytes
  kd_compression :: string
  kd_required_acks :: string
  kd_max_attempts :: int
  kd_write_timeout :: duration
  kd_allow_auto_topic_creation :: bool

record postgres_driver =
  pd_name :: string
  pd_naming :: naming
  pd_dsn :: string
  pd_same_database :: bool
  pd_schema :: string
  pd_table :: string
  pd_write_timeout :: duration
  pd_max_conns :: int

datatype driver_config =
    RabbitMQDriver rabbitmq_driver
  | KafkaDriver kafka_driver
  | PostgresDriver postgres_driver

fun driver_name :: "driver_config \<Rightarrow> string" where
  "driver_name (RabbitMQDriver d) = rd_name d"
| "driver_name (KafkaDriver d) = kd_name d"
| "driver_name (PostgresDriver d) = pd_name d"

fun driver_naming :: "driver_config \<Rightarrow> naming" where
  "driver_naming (RabbitMQDriver d) = rd_naming d"
| "driver_naming (KafkaDriver d) = kd_naming d"
| "driver_naming (PostgresDriver d) = pd_naming d"

fun driver_type_of :: "driver_config \<Rightarrow> driver_type" where
  "driver_type_of (RabbitMQDriver d) = DriverRabbitMQ"
| "driver_type_of (KafkaDriver d) = DriverKafka"
| "driver_type_of (PostgresDriver d) = DriverPostgres"

record broker_config =
  bc_streams :: "(string \<times> stream_config) list"
  bc_drivers :: "(string \<times> driver_config) list"

definition StreamNames :: "broker_config \<Rightarrow> string list" where
  "StreamNames c = sort (map fst (bc_streams c))"

definition config_DriverFor :: "broker_config \<Rightarrow> string \<Rightarrow> string option" where
  "config_DriverFor c stream = map_option sc_driver (map_of (bc_streams c) (to_lower stream))"

record config =
  cfg_app :: app_config
  cfg_log :: log_config
  cfg_db :: db_config
  cfg_dispatch :: dispatch_config
  cfg_janitor :: janitor_config
  cfg_http :: http_config
  cfg_metrics :: metrics_config
  cfg_otel :: otel_config
  cfg_dlq :: dlq_config
  cfg_brokers :: broker_config

end
