(* ===== verification/Broker_Router.thy ===== *)
theory Broker_Router
  imports Core_Message Config_Types
begin

text \<open>
  \<open>internal/broker/broker.go\<close>: the destination of a message and the router that sends a batch to the
  publisher of its stream.

  A publisher is the record of what one call of each of its methods returns, a function of the
  batch for \<open>Publish\<close>: the context, the clock and the network are in the choice of that function.
  The locale \<open>publisher\<close> is the contract the \<open>Publisher\<close> interface documents - one result per message,
  in order; the pipeline relies on it and the router provides it whatever its publishers do.
\<close>

subsection \<open>Destinations\<close>

record destination =
  dst_topic :: string
  dst_key :: "bytes option"
  dst_exchange :: string
  dst_routing_key :: string

definition Resolve :: "naming \<Rightarrow> message \<Rightarrow> destination" where
  "Resolve n msg =
     (let topic = Format n (m_topic msg) (t_version (m_target msg));
          rk = t_routing_key (m_target msg);
          key = trim_space (t_key (m_target msg)) in
      \<lparr>dst_topic = topic,
       dst_key = (if key \<noteq> [] then Some key else None),
       dst_exchange = t_exchange (m_target msg),
       dst_routing_key = (if rk = [] then topic else rk)\<rparr>)"

subsection \<open>Router\<close>

record publisher_ops =
  pub_publish :: "message list \<Rightarrow> err option list"
  pub_health :: "err option"
  pub_close :: "err option"

record router =
  ro_streams :: "(string \<times> string) list"
  ro_publisher :: "(string \<times> publisher_ops) list"

definition repeat :: "nat \<Rightarrow> err \<Rightarrow> err option list" where
  "repeat n e = replicate n (Some e)"

fun router_streams ::
  "(string \<times> publisher_ops) list \<Rightarrow> (string \<times> stream_config) list \<Rightarrow> err + (string \<times> string) list" where
  "router_streams pubs [] = Inr []"
| "router_streams pubs ((name, stream) # rest) =
     (if map_of pubs (sc_driver stream) = None then
        Inl (Errorf (''stream '' @ go_quote name @ '' needs driver '' @ go_quote (sc_driver stream)
               @ '', which was not built: '') ErrUnknownDriver [])
      else
        (case router_streams pubs rest of
           Inl e \<Rightarrow> Inl e
         | Inr ss \<Rightarrow> Inr ((name, sc_driver stream) # ss)))"

definition NewRouter :: "broker_config \<Rightarrow> (string \<times> publisher_ops) list \<Rightarrow> err + router" where
  "NewRouter brokers pubs =
     (case router_streams pubs (bc_streams brokers) of
        Inl e \<Rightarrow> Inl e
      | Inr ss \<Rightarrow> Inr \<lparr>ro_streams = ss, ro_publisher = pubs\<rparr>)"

definition DriverFor :: "router \<Rightarrow> string \<Rightarrow> string option" where
  "DriverFor r stream = map_of (ro_streams r) (to_lower stream)"

definition short_answer :: "string \<Rightarrow> nat \<Rightarrow> nat \<Rightarrow> err" where
  "short_answer driver got want =
     ErrorString (''driver '' @ go_quote driver @ '' returned '' @ itoa (int got) @ '' results for ''
       @ itoa (int want) @ '' messages'')"

definition Router_Publish :: "router \<Rightarrow> string \<Rightarrow> message list \<Rightarrow> err option list" where
  "Router_Publish r stream msgs =
     (if msgs = [] then []
      else
        (case DriverFor r stream of
           None \<Rightarrow> repeat (length msgs)
             (Permanent ''unknown stream'' (Some (Errorf [] ErrUnknownStream ('': '' @ stream))))
         | Some driver \<Rightarrow>
            (case map_of (ro_publisher r) driver of
               None \<Rightarrow> repeat (length msgs)
                 (Permanent ''unknown driver'' (Some (Errorf [] ErrUnknownDriver ('': '' @ driver))))
             | Some p \<Rightarrow>
                (let results = pub_publish p msgs in
                 if length results \<noteq> length msgs
                 then repeat (length msgs) (short_answer driver (length results) (length msgs))
                 else results))))"

definition Router_HealthCheck :: "router \<Rightarrow> err option" where
  "Router_HealthCheck r =
     (case filter (\<lambda>(name, p). pub_health p \<noteq> None) (ro_publisher r) of
        [] \<Rightarrow> None
      | (name, p) # _ \<Rightarrow> Some (Errorf (''driver '' @ go_quote name @ '': '') (the (pub_health p)) []))"

text \<open>\<open>Close\<close> calls every publisher and keeps the first error; the names are the calls it made.\<close>

fun close_all :: "(string \<times> publisher_ops) list \<Rightarrow> err option \<Rightarrow> string list \<Rightarrow> err option \<times> string list" where
  "close_all [] first names = (first, names)"
| "close_all ((name, p) # ps) first names =
     close_all ps
       (case (pub_close p, first) of
          (Some e, None) \<Rightarrow> Some (Errorf (''close driver '' @ go_quote name @ '': '') e [])
        | _ \<Rightarrow> first)
       (names @ [name])"

definition Router_Close :: "router \<Rightarrow> err option \<times> string list" where
  "Router_Close r = close_all (ro_publisher r) None []"

text \<open>A message and a router whose publisher never answers, for the witnesses.\<close>

definition demo_message :: message where
  "demo_message = \<lparr>m_id = ''m1'', m_stream = ''local'', m_topic = ''orders'', m_payload = ''x'',
     m_headers = [], m_target = zero_target, m_attempts = 0, m_created_at = 1000\<rparr>"

definition mute_router :: router where
  "mute_router = \<lparr>ro_streams = [([], ''rmq'')], ro_publisher = [(''rmq'',
     \<lparr>pub_publish = (\<lambda>_. []), pub_health = None, pub_close = None\<rparr>)]\<rparr>"

subsection \<open>The contract of a publisher\<close>

locale publisher =
  fixes publish :: "message list \<Rightarrow> err option list"
  assumes length_publish: "length (publish msgs) = length msgs"
begin

lemma publish_nil [simp]: "publish [] = []"
  using length_publish [of "[]"] by simp

lemma publish_nth_defined: "i < length msgs \<Longrightarrow> i < length (publish msgs)"
  by (simp add: length_publish)

end

lemma length_repeat [simp]: "length (repeat n e) = n"
  by (simp add: repeat_def)

interpretation routed: publisher "Router_Publish r stream" for r stream
  by unfold_locales (simp add: Router_Publish_def Let_def split: option.split)

subsection \<open>Lemmas\<close>

lemma router_streams_keys:
  "router_streams pubs cs = Inr ss \<Longrightarrow> map fst ss = map fst cs
     \<and> (\<forall>(name, d) \<in> set ss. map_of pubs d \<noteq> None)
     \<and> map_of ss = (\<lambda>s. map_option sc_driver (map_of cs s))"
proof (induction cs arbitrary: ss)
  case (Cons c cs)
  obtain name stream where c: "c = (name, stream)" by (cases c)
  from Cons.prems obtain ss' where ss': "router_streams pubs cs = Inr ss'"
    and ss: "ss = (name, sc_driver stream) # ss'" and d: "map_of pubs (sc_driver stream) \<noteq> None"
    by (auto simp: c split: if_splits sum.splits)
  from Cons.IH [OF ss'] d show ?case by (auto simp: ss c)
qed auto

lemma close_all_names: "snd (close_all ps first names) = names @ map fst ps"
  by (induction ps first names rule: close_all.induct) auto

lemma close_all_first: "first \<noteq> None \<Longrightarrow> fst (close_all ps first names) = first"
  by (induction ps arbitrary: first names) (auto split: option.splits)

subsection \<open>Properties\<close>

text \<open>
  A router that was built can route.  If \<open>NewRouter\<close> accepts a configuration, every configured
  stream, written in lower case, has a publisher, and publishing to it hands the batch to that
  publisher; no message of a configured stream is failed for an unknown stream or driver.
\<close>

lemma built_router_routes_every_stream:
  assumes "NewRouter brokers pubs = Inr r" and "map_of (bc_streams brokers) stream = Some c"
    and "to_lower stream = stream"
  shows "\<exists>p. map_of pubs (sc_driver c) = Some p \<and> DriverFor r stream = Some (sc_driver c)
    \<and> (length (pub_publish p msgs) = length msgs \<longrightarrow> Router_Publish r stream msgs = pub_publish p msgs)"
proof -
  from assms(1) obtain ss where ss: "router_streams pubs (bc_streams brokers) = Inr ss"
    and r: "r = \<lparr>ro_streams = ss, ro_publisher = pubs\<rparr>"
    by (auto simp: NewRouter_def split: sum.splits)
  note k = router_streams_keys [OF ss]
  from k assms(2) have d: "map_of ss stream = Some (sc_driver c)" by simp
  then have "(stream, sc_driver c) \<in> set ss" by (rule map_of_SomeD)
  with k obtain p where p: "map_of pubs (sc_driver c) = Some p" by auto
  with d assms(3) show ?thesis
    by (auto simp: DriverFor_def Router_Publish_def r)
qed

lemma built_router_routes_every_stream_witness:
  "\<exists>r. NewRouter \<lparr>bc_streams = [(''local'', \<lparr>sc_name = ''local'', sc_driver = ''rmq''\<rparr>)], bc_drivers = []\<rparr>
        [(''rmq'', \<lparr>pub_publish = map (\<lambda>_. None), pub_health = None, pub_close = None\<rparr>)] = Inr r
     \<and> DriverFor r ''local'' = Some ''rmq''"
proof -
  let ?b = "\<lparr>bc_streams = [(''local'', \<lparr>sc_name = ''local'', sc_driver = ''rmq''\<rparr>)], bc_drivers = []\<rparr>"
  let ?p = "[(''rmq'', \<lparr>pub_publish = map (\<lambda>_. None), pub_health = None, pub_close = None\<rparr>)]"
  obtain r where r: "NewRouter ?b ?p = Inr r" by (simp add: NewRouter_def)
  have "to_lower ''local'' = ''local''"
    by (simp add: to_lower_def lower_char_def is_upper_def less_eq_char_def)
  with built_router_routes_every_stream [OF r, of "''local''" "\<lparr>sc_name = ''local'', sc_driver = ''rmq''\<rparr>"] r
  show ?thesis by auto
qed

text \<open>
  The router answers for every message.  Whatever the configuration and whatever its publishers
  return, \<open>Publish\<close> gives one result per message; a publisher that answers for a different number
  of messages fails the whole batch with a retryable error, so that nothing counts as delivered.
\<close>

lemma router_answers_every_message:
  "length (Router_Publish r stream msgs) = length msgs
   \<and> (\<forall>driver p. DriverFor r stream = Some driver \<and> map_of (ro_publisher r) driver = Some p
        \<and> length (pub_publish p msgs) \<noteq> length msgs
        \<longrightarrow> (\<forall>e \<in> set (Router_Publish r stream msgs).
              \<exists>x. e = Some x \<and> \<not> IsPermanent x \<and> \<not> IsUnavailable x))"
proof (intro conjI allI impI ballI)
  show "length (Router_Publish r stream msgs) = length msgs" by (rule routed.length_publish)
next
  fix driver p e
  assume "DriverFor r stream = Some driver \<and> map_of (ro_publisher r) driver = Some p
      \<and> length (pub_publish p msgs) \<noteq> length msgs" and "e \<in> set (Router_Publish r stream msgs)"
  then have "e = Some (short_answer driver (length (pub_publish p msgs)) (length msgs))"
    by (auto simp: Router_Publish_def repeat_def split: if_splits)
  then show "\<exists>x. e = Some x \<and> \<not> IsPermanent x \<and> \<not> IsUnavailable x"
    by (simp add: short_answer_def IsPermanent_iff IsUnavailable_iff)
qed

lemma router_answers_every_message_witness:
  "list_all (\<lambda>e. \<exists>x. e = Some x \<and> \<not> IsPermanent x) (Router_Publish mute_router [] [demo_message])"
  unfolding list_all_iff
  using router_answers_every_message [of mute_router "[]" "[demo_message]"]
  by (simp add: mute_router_def DriverFor_def to_lower_def) blast

end
