(* ===== verification/Dispatch_Publish.thy ===== *)
theory Dispatch_Publish
  imports Store_Ops Broker_Router
begin

text \<open>
  \<open>internal/dispatch/publish.go\<close>: a batch is cut into spans, each span is published by a goroutine of
  its own, and the outcomes are collected by position.

  What the environment decides is an argument: whether the context was done when the loop reached
  the k-th span, what the k-th call of the router returned and how long it took, and the order in
  which the goroutines reached the mutex that guards the results.
\<close>

subsection \<open>Spans\<close>

record span =
  sp_start :: nat
  sp_end :: nat

fun chunk_loop :: "nat \<Rightarrow> nat \<Rightarrow> nat \<Rightarrow> nat \<Rightarrow> nat \<Rightarrow> span list" where
  "chunk_loop 0 i start sz remainder = []"
| "chunk_loop (Suc k) i start sz remainder =
     (let e = start + sz; e = (if i < remainder then e + 1 else e) in
      \<lparr>sp_start = start, sp_end = e\<rparr> # chunk_loop k (i + 1) e sz remainder)"

definition chunk :: "nat \<Rightarrow> int \<Rightarrow> span list" where
  "chunk n workers =
     (if n = 0 then []
      else
        (let w = (if workers < 1 then 1 else nat workers);
             w = (if w > n then n else w) in
         chunk_loop w 0 0 (n div w) (n mod w)))"

definition slice :: "span \<Rightarrow> 'a list \<Rightarrow> 'a list" where
  "slice c xs = take (sp_end c - sp_start c) (drop (sp_start c) xs)"

subsection \<open>Outcomes\<close>

text \<open>\<open>events.Publish\<close>.\<close>

record publish_event =
  ev_id :: uuid
  ev_duration :: duration
  ev_err :: "err option"
  ev_permanent :: bool
  ev_deferred :: bool

definition zero_publish :: publish_event where
  "zero_publish = \<lparr>ev_id = [], ev_duration = 0, ev_err = None, ev_permanent = False, ev_deferred = False\<rparr>"

definition outcome_event :: "duration \<Rightarrow> message \<Rightarrow> err option \<Rightarrow> publish_event" where
  "outcome_event elapsed msg e =
     (let permanent = (case e of None \<Rightarrow> False | Some x \<Rightarrow> IsPermanent x) in
      \<lparr>ev_id = m_id msg, ev_duration = elapsed, ev_err = e, ev_permanent = permanent,
       ev_deferred = (case e of None \<Rightarrow> False | Some x \<Rightarrow> \<not> permanent \<and> IsUnavailable x)\<rparr>)"

text \<open>\<open>results[c.start+i] = ...\<close> for each message of a span, in order.\<close>

fun store_results :: "nat \<Rightarrow> publish_event list \<Rightarrow> publish_event list \<Rightarrow> publish_event list" where
  "store_results s [] rs = rs"
| "store_results s (p # ps) rs = store_results (Suc s) ps (rs[s := p])"

subsection \<open>Tracing\<close>

text \<open>
  \<open>tracing.Tracer.Publish\<close>: with tracing on, the headers of each message of the span are rewritten in
  place; \<open>inject\<close> stands for OpenTelemetry's propagator, which writes the new parent into them.
\<close>

definition tracer_Publish :: "bool \<Rightarrow> (message \<Rightarrow> headers) \<Rightarrow> message list \<Rightarrow> message list" where
  "tracer_Publish on inject msgs = (if \<not> on then msgs else map (\<lambda>m. m\<lparr>m_headers := inject m\<rparr>) msgs)"

subsection \<open>Publish\<close>

record publish_env =
  pe_ctx_done :: "nat \<Rightarrow> bool"
  pe_router :: "nat \<Rightarrow> message list \<Rightarrow> err option list"
  pe_elapsed :: "nat \<Rightarrow> duration"
  pe_order :: "nat list"
  pe_tracing :: bool
  pe_inject :: "message \<Rightarrow> headers"

text \<open>One goroutine: \<open>errs[i]\<close> panics when the router answered for too few messages.\<close>

definition goroutine ::
  "publish_env \<Rightarrow> message list \<Rightarrow> nat \<Rightarrow> span \<Rightarrow> publish_event list \<Rightarrow> publish_event list go" where
  "goroutine pe msgs k c rs =
     (let part = slice c msgs;
          errs = pe_router pe k (tracer_Publish (pe_tracing pe) (pe_inject pe) part) in
      if length errs < length part then Panic ''index out of range''
      else Return (store_results (sp_start c) (map2 (outcome_event (pe_elapsed pe k)) part errs) rs))"

fun goroutines ::
  "publish_env \<Rightarrow> message list \<Rightarrow> span list \<Rightarrow> nat list \<Rightarrow> publish_event list \<Rightarrow> publish_event list go" where
  "goroutines pe msgs spans [] rs = Return rs"
| "goroutines pe msgs spans (k # ks) rs =
     (case goroutine pe msgs k (spans ! k) rs of
        Panic s \<Rightarrow> Panic s
      | Return rs' \<Rightarrow> goroutines pe msgs spans ks rs')"

text \<open>The spans the loop started before it saw the context done.\<close>

fun started_spans :: "(nat \<Rightarrow> bool) \<Rightarrow> nat \<Rightarrow> span list \<Rightarrow> span list" where
  "started_spans halted k [] = []"
| "started_spans halted k (c # cs) = (if halted k then [] else c # started_spans halted (Suc k) cs)"

definition publish ::
  "publish_env \<Rightarrow> int \<Rightarrow> message list \<Rightarrow> publish_event list go \<times> nat" where
  "publish pe workers msgs =
     (let started = started_spans (pe_ctx_done pe) 0 (chunk (length msgs) workers) in
      (goroutines pe msgs started (pe_order pe) (replicate (length msgs) zero_publish),
       if started = [] then 0 else sp_end (last started)))"

text \<open>The order of completion lists every goroutine that was started, once.\<close>

definition completes :: "publish_env \<Rightarrow> int \<Rightarrow> message list \<Rightarrow> bool" where
  "completes pe workers msgs \<longleftrightarrow>
     distinct (pe_order pe)
     \<and> set (pe_order pe) = {..< length (started_spans (pe_ctx_done pe) 0 (chunk (length msgs) workers))}"

text \<open>Two messages published by two goroutines, the second finishing first, for the witness.\<close>

definition demo_env :: publish_env where
  "demo_env = \<lparr>pe_ctx_done = (\<lambda>_. False),
     pe_router = (\<lambda>k ms. map (\<lambda>_. if k = 0 then None else Some (NetError ''refused'')) ms),
     pe_elapsed = (\<lambda>_. 5), pe_order = [1, 0], pe_tracing = False, pe_inject = (\<lambda>_. [])\<rparr>"

text \<open>What the router answered for a span.\<close>

definition answers :: "publish_env \<Rightarrow> message list \<Rightarrow> nat \<Rightarrow> span \<Rightarrow> err option list" where
  "answers pe msgs k c = pe_router pe k (tracer_Publish (pe_tracing pe) (pe_inject pe) (slice c msgs))"

subsection \<open>Lemmas on spans\<close>

definition effective_workers :: "nat \<Rightarrow> int \<Rightarrow> nat" where
  "effective_workers n workers = min (max 1 (nat workers)) n"

lemma chunk_eq:
  "0 < n \<Longrightarrow> chunk n workers =
     chunk_loop (effective_workers n workers) 0 0 (n div effective_workers n workers)
       (n mod effective_workers n workers)"
  by (auto simp: chunk_def effective_workers_def Let_def)

lemma length_chunk_loop [simp]: "length (chunk_loop k i start sz remainder) = k"
  by (induction k arbitrary: i start) (auto simp: Let_def)

lemma chunk_loop_nth:
  "j < k \<Longrightarrow> i \<le> remainder \<or> remainder \<le> i \<Longrightarrow>
   chunk_loop k i start sz remainder ! j =
     \<lparr>sp_start = start + j * sz + (min (i + j) remainder - min i remainder),
      sp_end = start + (j + 1) * sz + (min (i + j + 1) remainder - min i remainder)\<rparr>"
proof (induction k arbitrary: i start j)
  case (Suc k)
  show ?case
  proof (cases j)
    case 0
    then show ?thesis by (auto simp: Let_def)
  next
    case (Suc j')
    with Suc.prems have "j' < k" by simp
    with Suc Suc.IH [of j' "i + 1"] show ?thesis by (auto simp: Let_def)
  qed
qed simp

lemma length_chunk: "length (chunk n workers) = effective_workers n workers"
  by (cases "n = 0") (simp_all add: chunk_eq, simp_all add: chunk_def effective_workers_def)

lemma chunk_nth:
  assumes "j < effective_workers n workers"
  shows "chunk n workers ! j =
     \<lparr>sp_start = j * (n div effective_workers n workers) + min j (n mod effective_workers n workers),
      sp_end = (j + 1) * (n div effective_workers n workers)
                 + min (j + 1) (n mod effective_workers n workers)\<rparr>"
proof -
  have "0 < n" using assms by (auto simp: effective_workers_def)
  with assms show ?thesis
    by (simp add: chunk_eq chunk_loop_nth [where i = 0, simplified])
qed

lemma upt_join: "a \<le> b \<Longrightarrow> [a..<b] @ [b..<b + d] = [a..<b + d]"
  using upt_add_eq_append [of a b d] by simp

lemma chunk_loop_concat:
  "concat (map (\<lambda>c. [sp_start c..<sp_end c]) (chunk_loop k i start sz remainder)) =
     [start..<start + (k * sz + (min (i + k) remainder - min i remainder))]"
proof (induction k arbitrary: i start)
  case (Suc k)
  let ?e = "if i < remainder then start + sz + 1 else start + sz"
  let ?d = "k * sz + (min (i + 1 + k) remainder - min (i + 1) remainder)"
  have "concat (map (\<lambda>c. [sp_start c..<sp_end c]) (chunk_loop (Suc k) i start sz remainder))
      = [start..<?e] @ [?e..<?e + ?d]"
    using Suc.IH [of "i + 1" ?e] by (simp add: Let_def del: upt_Suc)
  also have "\<dots> = [start..<?e + ?d]" by (rule upt_join) simp
  also have "?e + ?d = start + (Suc k * sz + (min (i + Suc k) remainder - min i remainder))"
    by auto
  finally show ?case .
qed simp

lemma chunk_concat: "concat (map (\<lambda>c. [sp_start c..<sp_end c]) (chunk n workers)) = [0..<n]"
proof (cases "n = 0")
  case False
  let ?w = "effective_workers n workers"
  have "0 < ?w" using False by (simp add: effective_workers_def)
  then have "n mod ?w < ?w" by simp
  then have "min ?w (n mod ?w) = n mod ?w" by simp
  then have "?w * (n div ?w) + (min (0 + ?w) (n mod ?w) - min 0 (n mod ?w)) = n" by simp
  with False show ?thesis by (simp add: chunk_eq chunk_loop_concat del: min_0L)
qed (simp add: chunk_def)

lemma chunk_end_le:
  assumes "j < k" and "k < length (chunk n workers)"
  shows "sp_end (chunk n workers ! j) \<le> sp_start (chunk n workers ! k)"
proof -
  let ?w = "effective_workers n workers"
  have "(j + 1) * (n div ?w) \<le> k * (n div ?w)" using assms(1) by (intro mult_le_mono1) simp
  moreover have "min (j + 1) (n mod ?w) \<le> min k (n mod ?w)" using assms(1) by simp
  ultimately show ?thesis using assms by (simp add: length_chunk chunk_nth)
qed

lemma chunk_span:
  assumes "k < length (chunk n workers)"
  shows "sp_start (chunk n workers ! k) < sp_end (chunk n workers ! k)"
    and "sp_end (chunk n workers ! k) \<le> n"
    and "sp_end (chunk n workers ! k) - sp_start (chunk n workers ! k)
           \<in> {n div effective_workers n workers, n div effective_workers n workers + 1}"
proof -
  let ?w = "effective_workers n workers" and ?c = "chunk n workers ! k"
  have "?w \<le> n" by (simp add: effective_workers_def)
  moreover have "0 < ?w" using assms by (simp add: length_chunk)
  ultimately have "0 < n div ?w" by (simp add: div_greater_zero_iff)
  then show lt: "sp_start ?c < sp_end ?c"
    and "sp_end ?c - sp_start ?c \<in> {n div ?w, n div ?w + 1}"
    using assms by (auto simp: length_chunk chunk_nth min_def)
  have "?c \<in> set (chunk n workers)" using assms by simp
  moreover have "sp_end ?c - 1 \<in> set [sp_start ?c..<sp_end ?c]" using lt by simp
  ultimately have "sp_end ?c - 1 \<in> set (concat (map (\<lambda>c. [sp_start c..<sp_end c]) (chunk n workers)))"
    by (simp only: set_concat set_map UN_iff image_iff) blast
  then show "sp_end ?c \<le> n" unfolding chunk_concat by auto
qed

subsection \<open>Lemmas on results\<close>

lemma length_store_results [simp]: "length (store_results s ps rs) = length rs"
  by (induction s ps rs rule: store_results.induct) auto

lemma store_results_nth:
  "s + length ps \<le> length rs \<Longrightarrow> i < length rs \<Longrightarrow>
   store_results s ps rs ! i = (if s \<le> i \<and> i < s + length ps then ps ! (i - s) else rs ! i)"
proof (induction s ps rs rule: store_results.induct)
  case (2 s p ps rs)
  then show ?case by (auto simp: nth_Cons' nth_list_update)
qed auto

lemma started_spans_take: "\<exists>m. started_spans halted k cs = take m cs"
proof (induction cs arbitrary: k)
  case (Cons c cs)
  from Cons obtain m where "started_spans halted (Suc k) cs = take m cs" by blast
  then show ?case by (cases "halted k") (auto intro: exI [of _ 0] exI [of _ "Suc m"])
qed simp

lemma length_slice:
  "sp_start c \<le> sp_end c \<Longrightarrow> sp_end c \<le> length xs \<Longrightarrow> length (slice c xs) = sp_end c - sp_start c"
  by (simp add: slice_def)

lemma slice_nth:
  "sp_end c \<le> length xs \<Longrightarrow> sp_start c \<le> i \<Longrightarrow> i < sp_end c \<Longrightarrow> slice c xs ! (i - sp_start c) = xs ! i"
  by (simp add: slice_def)

lemma length_tracer_Publish [simp]: "length (tracer_Publish on inject msgs) = length msgs"
  by (simp add: tracer_Publish_def)

lemma goroutine_result:
  assumes "sp_start c \<le> sp_end c" and "sp_end c \<le> length msgs" and "length rs = length msgs"
    and "length (answers pe msgs k c) = sp_end c - sp_start c"
  shows "\<exists>rs'. goroutine pe msgs k c rs = Return rs' \<and> length rs' = length msgs
    \<and> (\<forall>i < length msgs. rs' ! i =
          (if sp_start c \<le> i \<and> i < sp_end c
           then outcome_event (pe_elapsed pe k) (msgs ! i) (answers pe msgs k c ! (i - sp_start c))
           else rs ! i))"
proof -
  let ?ps = "map2 (outcome_event (pe_elapsed pe k)) (slice c msgs) (answers pe msgs k c)"
  have len: "length ?ps = sp_end c - sp_start c" using assms by (simp add: length_slice)
  have "goroutine pe msgs k c rs = Return (store_results (sp_start c) ?ps rs)"
    using assms by (simp add: goroutine_def Let_def answers_def length_slice)
  moreover have "store_results (sp_start c) ?ps rs ! i =
          (if sp_start c \<le> i \<and> i < sp_end c
           then outcome_event (pe_elapsed pe k) (msgs ! i) (answers pe msgs k c ! (i - sp_start c))
           else rs ! i)" if "i < length msgs" for i
    using that assms len by (auto simp: store_results_nth length_slice slice_nth)
  ultimately show ?thesis using assms(3) by auto
qed

lemma spans_apart:
  assumes "\<forall>j \<in> S. \<forall>k \<in> S. j < k \<longrightarrow> sp_end (spans ! j) \<le> sp_start (spans ! k)"
    and "j \<in> S" and "k \<in> S" and "j \<noteq> k" and "sp_start (spans ! k) \<le> i" and "i < sp_end (spans ! k)"
  shows "\<not> (sp_start (spans ! j) \<le> i \<and> i < sp_end (spans ! j))"
proof (cases j k rule: linorder_cases)
  case less
  then have "sp_end (spans ! j) \<le> sp_start (spans ! k)" using assms(1-3) by blast
  then show ?thesis using assms(5) by simp
next
  case equal
  then show ?thesis using assms(4) by simp
next
  case greater
  then have "sp_end (spans ! k) \<le> sp_start (spans ! j)" using assms(1-3) by blast
  then show ?thesis using assms(6) by simp
qed

lemma goroutines_result:
  assumes "distinct ks" and "\<forall>k \<in> set ks. sp_start (spans ! k) \<le> sp_end (spans ! k)
        \<and> sp_end (spans ! k) \<le> length msgs
        \<and> length (answers pe msgs k (spans ! k)) = sp_end (spans ! k) - sp_start (spans ! k)"
    and "\<forall>j \<in> set ks. \<forall>k \<in> set ks. j < k \<longrightarrow> sp_end (spans ! j) \<le> sp_start (spans ! k)"
    and "length rs = length msgs"
  shows "\<exists>rs'. goroutines pe msgs spans ks rs = Return rs' \<and> length rs' = length msgs
    \<and> (\<forall>k \<in> set ks. \<forall>i. sp_start (spans ! k) \<le> i \<and> i < sp_end (spans ! k) \<longrightarrow>
          rs' ! i = outcome_event (pe_elapsed pe k) (msgs ! i)
                      (answers pe msgs k (spans ! k) ! (i - sp_start (spans ! k))))
    \<and> (\<forall>i < length msgs. (\<forall>k \<in> set ks. \<not> (sp_start (spans ! k) \<le> i \<and> i < sp_end (spans ! k)))
          \<longrightarrow> rs' ! i = rs ! i)"
  using assms
proof (induction ks arbitrary: rs)
  case (Cons k ks)
  let ?c = "spans ! k"
  have "sp_start ?c \<le> sp_end ?c" "sp_end ?c \<le> length msgs"
    "length (answers pe msgs k ?c) = sp_end ?c - sp_start ?c"
    using Cons.prems(2) by simp_all
  from goroutine_result [OF this(1,2) Cons.prems(4) this(3)] obtain rs1
    where g: "goroutine pe msgs k ?c rs = Return rs1" and len1: "length rs1 = length msgs"
      and rs1: "\<forall>i < length msgs. rs1 ! i =
          (if sp_start ?c \<le> i \<and> i < sp_end ?c
           then outcome_event (pe_elapsed pe k) (msgs ! i) (answers pe msgs k ?c ! (i - sp_start ?c))
           else rs ! i)"
    by blast
  have "distinct ks" "k \<notin> set ks" using Cons.prems(1) by simp_all
  from Cons.IH [OF this(1) _ _ len1] Cons.prems(2,3) obtain rs'
    where h: "goroutines pe msgs spans ks rs1 = Return rs'" and len': "length rs' = length msgs"
      and in': "\<forall>j \<in> set ks. \<forall>i. sp_start (spans ! j) \<le> i \<and> i < sp_end (spans ! j) \<longrightarrow>
          rs' ! i = outcome_event (pe_elapsed pe j) (msgs ! i)
                      (answers pe msgs j (spans ! j) ! (i - sp_start (spans ! j)))"
      and out': "\<forall>i < length msgs. (\<forall>j \<in> set ks. \<not> (sp_start (spans ! j) \<le> i \<and> i < sp_end (spans ! j)))
          \<longrightarrow> rs' ! i = rs1 ! i"
    by auto
  have apart: "\<not> (sp_start (spans ! j) \<le> i \<and> i < sp_end (spans ! j))"
    if "j \<in> set ks" "sp_start ?c \<le> i" "i < sp_end ?c" for i j
    using spans_apart [OF Cons.prems(3), of j k i] that \<open>k \<notin> set ks\<close> by auto
  have ends: "sp_end ?c \<le> length msgs" using Cons.prems(2) by simp
  have "rs' ! i = outcome_event (pe_elapsed pe k) (msgs ! i) (answers pe msgs k ?c ! (i - sp_start ?c))"
    if "sp_start ?c \<le> i" "i < sp_end ?c" for i
    using that ends apart [OF _ that] out' rs1 by (metis order_less_le_trans)
  moreover have "rs' ! i = rs ! i"
    if "i < length msgs" "\<forall>j \<in> set (k # ks). \<not> (sp_start (spans ! j) \<le> i \<and> i < sp_end (spans ! j))" for i
    using that out' rs1 by (metis list.set_intros)
  ultimately show ?case using g h len' in' by auto
qed simp

text \<open>The spans a publish starts, and what is known of them.\<close>

abbreviation started :: "publish_env \<Rightarrow> int \<Rightarrow> message list \<Rightarrow> span list" where
  "started pe workers msgs \<equiv> started_spans (pe_ctx_done pe) 0 (chunk (length msgs) workers)"

lemma started_nth:
  assumes "k < length (started pe workers msgs)"
  shows "started pe workers msgs ! k = chunk (length msgs) workers ! k"
    and "k < length (chunk (length msgs) workers)"
  using assms started_spans_take [of "pe_ctx_done pe" 0 "chunk (length msgs) workers"] by auto

lemma attempted_le: "snd (publish pe workers msgs) \<le> length msgs"
proof (cases "started pe workers msgs = []")
  case False
  then have "length (started pe workers msgs) - 1 < length (started pe workers msgs)" by simp
  from started_nth [OF this] chunk_span(2) False show ?thesis
    by (simp add: publish_def Let_def last_conv_nth)
qed (simp add: publish_def Let_def)

lemma beyond_attempted:
  assumes "snd (publish pe workers msgs) \<le> i" and "k < length (started pe workers msgs)"
  shows "sp_end (started pe workers msgs ! k) \<le> i"
proof -
  let ?s = "started pe workers msgs" and ?l = "length (started pe workers msgs) - 1"
  have l: "?l < length ?s" "?s \<noteq> []" using assms(2) by auto
  have last: "sp_end (?s ! ?l) \<le> i" using assms(1) l by (simp add: publish_def Let_def last_conv_nth)
  show ?thesis
  proof (cases "k = ?l")
    case False
    with assms(2) have "k < ?l" by simp
    from chunk_end_le [OF this started_nth(2) [OF l(1)]] chunk_span(1) [OF started_nth(2) [OF l(1)]]
      last started_nth(1) [OF l(1)] started_nth(1) [OF assms(2)]
    show ?thesis by simp
  qed (use last in simp)
qed

lemma publish_result:
  assumes "completes pe workers msgs" and "\<forall>k ms. length (pe_router pe k ms) = length ms"
  shows "\<exists>rs. publish pe workers msgs = (Return rs, snd (publish pe workers msgs))
    \<and> length rs = length msgs
    \<and> (\<forall>k < length (started_spans (pe_ctx_done pe) 0 (chunk (length msgs) workers)).
         \<forall>i. sp_start (chunk (length msgs) workers ! k) \<le> i \<and> i < sp_end (chunk (length msgs) workers ! k) \<longrightarrow>
           i < snd (publish pe workers msgs)
           \<and> rs ! i = outcome_event (pe_elapsed pe k) (msgs ! i)
                (answers pe msgs k (chunk (length msgs) workers ! k)
                   ! (i - sp_start (chunk (length msgs) workers ! k))))
    \<and> (\<forall>i < length msgs. snd (publish pe workers msgs) \<le> i \<longrightarrow> rs ! i = zero_publish)"
proof -
  let ?s = "started pe workers msgs" and ?c = "chunk (length msgs) workers"
  let ?att = "snd (publish pe workers msgs)"
  have ord: "distinct (pe_order pe)" "set (pe_order pe) = {..< length ?s}"
    using assms(1) by (simp_all add: completes_def)
  have nth: "?s ! k = ?c ! k" "k < length ?c" if "k < length ?s" for k
    using started_nth that by blast+
  have "sp_start (?s ! k) \<le> sp_end (?s ! k) \<and> sp_end (?s ! k) \<le> length msgs
      \<and> length (answers pe msgs k (?s ! k)) = sp_end (?s ! k) - sp_start (?s ! k)"
    if "k < length ?s" for k
    using chunk_span(1,2) [OF nth(2) [OF that]] nth(1) [OF that] assms(2)
    by (simp add: answers_def length_slice)
  moreover have "sp_end (?s ! j) \<le> sp_start (?s ! k)" if "j < k" "k < length ?s" for j k
    using chunk_end_le [OF that(1) nth(2) [OF that(2)]] nth(1) that by simp
  ultimately obtain rs where rs: "goroutines pe msgs ?s (pe_order pe) (replicate (length msgs) zero_publish) = Return rs"
    and len: "length rs = length msgs"
    and ins: "\<forall>k < length ?s. \<forall>i. sp_start (?s ! k) \<le> i \<and> i < sp_end (?s ! k) \<longrightarrow>
          rs ! i = outcome_event (pe_elapsed pe k) (msgs ! i)
                      (answers pe msgs k (?s ! k) ! (i - sp_start (?s ! k)))"
    and out: "\<forall>i < length msgs. (\<forall>k < length ?s. \<not> (sp_start (?s ! k) \<le> i \<and> i < sp_end (?s ! k)))
          \<longrightarrow> rs ! i = replicate (length msgs) zero_publish ! i"
    using goroutines_result [of "pe_order pe" ?s msgs pe "replicate (length msgs) zero_publish"] ord
    by auto
  have "publish pe workers msgs = (Return rs, ?att)" using rs by (simp add: publish_def Let_def)
  moreover have "i < ?att" if "k < length ?s" "i < sp_end (?s ! k)" for k i
    using beyond_attempted [of pe workers msgs i k] that by linarith
  moreover have "rs ! i = zero_publish" if "i < length msgs" "?att \<le> i" for i
    using out that beyond_attempted [OF that(2)] by fastforce
  ultimately show ?thesis using len ins nth by auto
qed

subsection \<open>Properties\<close>

text \<open>
  Cutting the batch.  For every batch size and every worker setting, the spans number
  \<open>min (max 1 workers) n\<close>, list every position of the batch exactly once and in order, are never
  empty, and differ in size by at most one.
\<close>

lemma chunk_partitions_batch:
  "length (chunk n workers) = min (max 1 (nat workers)) n
   \<and> concat (map (\<lambda>c. [sp_start c..<sp_end c]) (chunk n workers)) = [0..<n]
   \<and> (\<forall>c \<in> set (chunk n workers). sp_start c < sp_end c
        \<and> (\<forall>c' \<in> set (chunk n workers). sp_end c - sp_start c \<le> sp_end c' - sp_start c' + 1))"
proof (intro conjI ballI)
  fix c assume "c \<in> set (chunk n workers)"
  then obtain k where k: "k < length (chunk n workers)" "c = chunk n workers ! k"
    by (auto simp: in_set_conv_nth)
  then show "sp_start c < sp_end c" using chunk_span(1) by simp
  fix c' assume "c' \<in> set (chunk n workers)"
  then obtain k' where "k' < length (chunk n workers)" "c' = chunk n workers ! k'"
    by (auto simp: in_set_conv_nth)
  with k chunk_span(3) [of k n workers] chunk_span(3) [of k' n workers]
  show "sp_end c - sp_start c \<le> sp_end c' - sp_start c' + 1" by auto
qed (simp_all add: length_chunk chunk_concat effective_workers_def)

lemma chunk_partitions_batch_witness:
  "chunk 5 2 = [\<lparr>sp_start = 0, sp_end = 3\<rparr>, \<lparr>sp_start = 3, sp_end = 5\<rparr>]
   \<and> concat (map (\<lambda>c. [sp_start c..<sp_end c]) (chunk 5 2)) = [0..<5]"
proof
  show "chunk 5 2 = [\<lparr>sp_start = 0, sp_end = 3\<rparr>, \<lparr>sp_start = 3, sp_end = 5\<rparr>]" by code_simp
qed (use chunk_partitions_batch [of 5 2] in blast)

text \<open>
  C14.  Publishing is positional and its interleaving is invisible.  When the router answers for every
  message, no goroutine panics; whatever order the goroutines finish in, the results have one entry
  per message, entry \<open>i\<close> of a started span is the classified answer the router gave for message
  \<open>i\<close>, and every position from \<open>attempted\<close> on is untouched.  The count covers exactly the started
  spans, so a message beyond it was never handed to the broker.
\<close>

theorem publish_is_positional:
  assumes "completes pe workers msgs" and "\<forall>k ms. length (pe_router pe k ms) = length ms"
  shows "\<exists>rs. publish pe workers msgs = (Return rs, snd (publish pe workers msgs))
    \<and> length rs = length msgs
    \<and> (\<forall>k < length (started_spans (pe_ctx_done pe) 0 (chunk (length msgs) workers)).
         \<forall>i. sp_start (chunk (length msgs) workers ! k) \<le> i \<and> i < sp_end (chunk (length msgs) workers ! k) \<longrightarrow>
           i < snd (publish pe workers msgs)
           \<and> rs ! i = outcome_event (pe_elapsed pe k) (msgs ! i)
                (answers pe msgs k (chunk (length msgs) workers ! k)
                   ! (i - sp_start (chunk (length msgs) workers ! k))))
    \<and> (\<forall>i < length msgs. snd (publish pe workers msgs) \<le> i \<longrightarrow> rs ! i = zero_publish)"
  using assms by (rule publish_result)

theorem publish_is_positional_witness:
  "\<exists>rs. publish demo_env 2 [demo_message, demo_message] = (Return rs, 2)
    \<and> ev_err (rs ! 0) = None \<and> ev_err (rs ! 1) = Some (NetError ''refused'')"
proof -
  let ?ms = "[demo_message, demo_message]"
  have c: "chunk (length ?ms) 2 = [\<lparr>sp_start = 0, sp_end = 1\<rparr>, \<lparr>sp_start = 1, sp_end = 2\<rparr>]"
    by code_simp
  have st: "started_spans (pe_ctx_done demo_env) 0 (chunk (length ?ms) 2) = chunk (length ?ms) 2"
    unfolding c by (simp add: demo_env_def)
  have att: "snd (publish demo_env 2 ?ms) = 2" unfolding publish_def Let_def st unfolding c by simp
  have "completes demo_env 2 ?ms" unfolding completes_def st unfolding c by (auto simp: demo_env_def)
  moreover have "\<forall>k ms. length (pe_router demo_env k ms) = length ms" by (simp add: demo_env_def)
  ultimately obtain rs where rs: "publish demo_env 2 ?ms = (Return rs, 2)"
    and nth: "\<forall>k < length (started_spans (pe_ctx_done demo_env) 0 (chunk (length ?ms) 2)).
         \<forall>i. sp_start (chunk (length ?ms) 2 ! k) \<le> i \<and> i < sp_end (chunk (length ?ms) 2 ! k) \<longrightarrow>
           rs ! i = outcome_event (pe_elapsed demo_env k) (?ms ! i)
                (answers demo_env ?ms k (chunk (length ?ms) 2 ! k) ! (i - sp_start (chunk (length ?ms) 2 ! k)))"
    using publish_is_positional [of demo_env 2 ?ms] unfolding att by blast
  have "rs ! 0 = outcome_event 5 demo_message None"
    and "rs ! 1 = outcome_event 5 demo_message (Some (NetError ''refused''))"
    using nth [unfolded st, unfolded c, rule_format, of 0 0] nth [unfolded st, unfolded c, rule_format, of 1 1]
    by (simp_all add: answers_def demo_env_def slice_def tracer_Publish_def)
  then show ?thesis using rs by (simp add: outcome_event_def Let_def)
qed

end
