(* ===== verification/Dispatch_Pipeline.thy ===== *)
theory Dispatch_Pipeline
  imports Store_Claim Core_Backoff Dispatch_Breaker Dispatch_Publish
begin

text \<open>
  \<open>internal/dispatch/pipeline.go\<close>: one claim-publish-write-back cycle of one stream.

  Everything the process does not decide is in the record \<open>cycle_env\<close>: the clocks, the token that was
  generated, the failures of each database call, the answers of the broker, the random draws of the
  backoff, and the statements other replicas, janitors, operators and producers execute between the
  statements of this cycle.  With those fixed, \<open>RunOnce\<close> is a function from the table to the table.
\<close>

subsection \<open>Events\<close>

record delivery =
  dl_id :: uuid
  dl_lag :: duration

record terminal =
  tm_id :: uuid
  tm_attempts :: int
  tm_permanent :: bool
  tm_deferred :: bool

record iteration =
  it_stream :: string
  it_driver :: string
  it_claimed :: int
  it_retries :: int
  it_publishes :: "publish_event list"
  it_delivered :: "delivery list"
  it_requeued :: "uuid list"
  it_failed :: "terminal list"
  it_deferred :: "uuid list"
  it_conflicts :: int
  it_released :: int
  it_duration :: duration

subsection \<open>The pipeline\<close>

text \<open>The channel \<open>wake\<close> has capacity one: it is full or empty.\<close>

record pipeline =
  p_stream :: string
  p_driver :: string
  p_cfg :: dispatch_config
  p_backoff :: backoff_policy
  p_owner :: string
  p_breaker :: breaker
  p_system :: string
  p_wake :: bool

definition New :: "string \<Rightarrow> router \<Rightarrow> config \<Rightarrow> pipeline" where
  "New stream r cfg =
     (let driver = (case DriverFor r stream of None \<Rightarrow> [] | Some d \<Rightarrow> d);
          d = cfg_dispatch cfg in
      \<lparr>p_stream = stream, p_driver = driver, p_cfg = d,
       p_backoff = \<lparr>bp_base = dc_backoff_base d, bp_max = dc_backoff_max d,
                    bp_jitter = dc_backoff_jitter d\<rparr>,
       p_owner = app_instance (cfg_app cfg),
       p_breaker = newBreaker (dc_poll_interval d) (dc_pause_max d),
       p_system = (case map_of (bc_drivers (cfg_brokers cfg)) driver of
                     None \<Rightarrow> []
                   | Some dr \<Rightarrow> driver_type_string (driver_type_of dr)),
       p_wake = False\<rparr>)"

text \<open>\<open>Wake\<close> sends without blocking: into a full channel it does nothing.\<close>

definition Wake :: "pipeline \<Rightarrow> pipeline" where
  "Wake p = p\<lparr>p_wake := True\<rparr>"

subsection \<open>One cycle\<close>

record cycle_env =
  ce_started :: go_time
  ce_token :: uuid
  ce_claim_go_now :: go_time
  ce_claim_fault :: fault
  ce_claim_now :: timestamptz
  ce_locked :: "uuid list"
  ce_publish :: publish_env
  ce_before_release :: "stmt list"
  ce_release_fault :: fault
  ce_release_seen :: nat
  ce_release_now :: timestamptz
  ce_before_ack :: "stmt list"
  ce_ack_fault :: fault
  ce_ack_now :: timestamptz
  ce_before_nack :: "stmt list"
  ce_nack_fault :: fault
  ce_nack_now :: timestamptz
  ce_wild :: "float64 \<Rightarrow> int"
  ce_draw :: "nat \<Rightarrow> rat"
  ce_elapsed :: duration

definition countRetries :: "message list \<Rightarrow> int" where
  "countRetries msgs = int (length (filter (\<lambda>m. m_attempts m > 0) msgs))"

text \<open>
  \<open>split\<close> walks the messages that were attempted; the results are at least as many, so \<open>publishes[i]\<close>
  is always in range.  The argument \<open>i\<close> counts the messages, to name the random draw of each.
\<close>

fun split ::
  "(float64 \<Rightarrow> int) \<Rightarrow> (nat \<Rightarrow> rat) \<Rightarrow> backoff_policy \<Rightarrow> nat \<Rightarrow> message list \<Rightarrow> publish_event list
   \<Rightarrow> uuid list \<times> outcome list" where
  "split wild draw backoff i (m # ms) (p # ps) =
     (let (acked, nacked) = split wild draw backoff (Suc i) ms ps in
      if ev_err p = None then (m_id m # acked, nacked)
      else (acked,
            \<lparr>o_id = m_id m, o_err = ev_err p, o_permanent = ev_permanent p, o_deferred = ev_deferred p,
             o_delay = Next wild (draw i) backoff (m_attempts m + 1)\<rparr> # nacked))"
| "split wild draw backoff i _ _ = ([], [])"

definition outcomeFor :: "uuid \<Rightarrow> outcome list \<Rightarrow> outcome" where
  "outcomeFor i outcomes =
     (case find (\<lambda>x. o_id x = i) outcomes of
        Some x \<Rightarrow> x
      | None \<Rightarrow> \<lparr>o_id = i, o_err = None, o_permanent = False, o_deferred = False, o_delay = 0\<rparr>)"

text \<open>One entry of a \<open>NackResult\<close> goes to exactly one of the three lists of the event.\<close>

fun record_nacks :: "outcome list \<Rightarrow> nack_outcome list \<Rightarrow> iteration \<Rightarrow> iteration" where
  "record_nacks nacked [] ev = ev"
| "record_nacks nacked (x # xs) ev =
     record_nacks nacked xs
       (if no_status x = StatusFailed then
          (let sent = outcomeFor (no_id x) nacked in
           ev\<lparr>it_failed := it_failed ev @
                [\<lparr>tm_id = no_id x, tm_attempts = no_attempts x, tm_permanent = o_permanent sent,
                  tm_deferred = (o_deferred sent \<and> \<not> o_permanent sent)\<rparr>]\<rparr>)
        else if no_deferred x then ev\<lparr>it_deferred := it_deferred ev @ [no_id x]\<rparr>
        else ev\<lparr>it_requeued := it_requeued ev @ [no_id x]\<rparr>)"

definition write_ack ::
  "cycle_env \<Rightarrow> uuid list \<Rightarrow> uuid \<Rightarrow> iteration \<Rightarrow> table \<Rightarrow> table \<times> iteration \<times> err option" where
  "write_ack ce acked token ev t =
     (if acked = [] then (t, ev, None)
      else
        (case Ack (ce_ack_fault ce) (ce_ack_now ce) acked token t of
           (t', Inl e) \<Rightarrow> (t', ev, Some e)
         | (t', Inr r) \<Rightarrow>
             (t', ev\<lparr>it_conflicts := it_conflicts ev + ar_conflicts r,
                     it_delivered := it_delivered ev
                       @ map (\<lambda>d. \<lparr>dl_id = d_id d, dl_lag = d_lag d\<rparr>) (ar_delivered r)\<rparr>, None)))"

definition write_nack ::
  "cycle_env \<Rightarrow> dispatch_config \<Rightarrow> outcome list \<Rightarrow> uuid \<Rightarrow> iteration \<Rightarrow> table
   \<Rightarrow> table \<times> iteration \<times> err option" where
  "write_nack ce cfg nacked token ev t =
     (if nacked = [] then (t, ev, None)
      else
        (case Nack (ce_nack_fault ce) (ce_nack_now ce) nacked token
                \<lparr>rl_max_attempts = dc_max_attempts cfg, rl_max_defer = dc_max_defer cfg\<rparr> t of
           (t', Inl e) \<Rightarrow> (t', ev, Some e)
         | (t', Inr r) \<Rightarrow>
             (t', record_nacks nacked (nr_outcomes r)
                    (ev\<lparr>it_conflicts := it_conflicts ev + nr_conflicts r\<rparr>), None)))"

definition writeBack ::
  "cycle_env \<Rightarrow> dispatch_config \<Rightarrow> uuid list \<Rightarrow> outcome list \<Rightarrow> uuid \<Rightarrow> iteration \<Rightarrow> table
   \<Rightarrow> table \<times> iteration \<times> err option" where
  "writeBack ce cfg acked nacked token ev t =
     (let (t1, ev1, e1) = write_ack ce acked token ev t;
          (t2, ev2, e2) = write_nack ce cfg nacked token ev1 (run_stmts (ce_before_nack ce) t1) in
      (t2, ev2, errors_join [e1, e2]))"

definition release ::
  "cycle_env \<Rightarrow> message list \<Rightarrow> uuid \<Rightarrow> table \<Rightarrow> table \<times> nat \<times> err option" where
  "release ce msgs token t =
     ReleaseLease (ce_release_fault ce) (ce_release_seen ce) (ce_release_now ce) (map m_id msgs) token t"

definition cycle_lease :: "cycle_env \<Rightarrow> pipeline \<Rightarrow> lease" where
  "cycle_lease ce p = \<lparr>l_token = ce_token ce, l_owner = p_owner p,
     l_until = ce_started ce + dc_lease_ttl (p_cfg p)\<rparr>"

text \<open>
  After a successful claim: publish, hand back what was not attempted, write back.  The result is the
  table, the summary for the run loop, the error, and the event when one is emitted.
\<close>

definition finish_cycle ::
  "cycle_env \<Rightarrow> pipeline \<Rightarrow> message list \<Rightarrow> publish_event list \<Rightarrow> nat \<Rightarrow> table
   \<Rightarrow> table \<times> cycle_result \<times> err option \<times> iteration option" where
  "finish_cycle ce p msgs publishes attempted t =
     (let ev = \<lparr>it_stream = p_stream p, it_driver = p_driver p, it_claimed = int (length msgs),
                it_retries = countRetries msgs, it_publishes = publishes, it_delivered = [],
                it_requeued = [], it_failed = [], it_deferred = [], it_conflicts = 0,
                it_released = 0, it_duration = 0\<rparr>;
          (t1, released) =
            (if attempted < length msgs
             then (case release ce (drop attempted msgs) (ce_token ce) (run_stmts (ce_before_release ce) t) of
                     (t', n, _) \<Rightarrow> (t', int n))
             else (run_stmts (ce_before_release ce) t, 0));
          (acked, nacked) =
            split (ce_wild ce) (ce_draw ce) (p_backoff p) 0 (take attempted msgs) publishes;
          (t2, ev2, e) =
            writeBack ce (p_cfg p) acked nacked (ce_token ce) (ev\<lparr>it_released := released\<rparr>)
              (run_stmts (ce_before_ack ce) t1) in
      case e of
        Some x \<Rightarrow> (t2, zero_result\<lparr>res_claimed := int (length msgs)\<rparr>, Some x, None)
      | None \<Rightarrow>
          (t2, \<lparr>res_claimed = int (length msgs), res_delivered = int (length (it_delivered ev2)),
                res_deferred = int (length (it_deferred ev2))\<rparr>,
           None, Some (ev2\<lparr>it_duration := ce_elapsed ce\<rparr>)))"

definition RunOnce ::
  "cycle_env \<Rightarrow> pipeline \<Rightarrow> table \<Rightarrow> (table \<times> cycle_result \<times> err option \<times> iteration option) go" where
  "RunOnce ce p t =
     (case Claim (ce_claim_fault ce) (ce_claim_go_now ce) (ce_claim_now ce) (ce_locked ce) (p_stream p)
             (nat (dc_batch_size (p_cfg p))) (cycle_lease ce p) t of
        (t1, Inl e) \<Rightarrow> Return (t1, zero_result, Some e, None)
      | (t1, Inr msgs) \<Rightarrow>
          if msgs = [] then Return (t1, zero_result, None, None)
          else
            (case publish (ce_publish ce) (dc_workers (p_cfg p)) msgs of
               (Panic s, _) \<Rightarrow> Panic s
             | (Return publishes, attempted) \<Rightarrow>
                 Return (finish_cycle ce p msgs publishes attempted t1)))"

end
