(* ===== verification/Pipeline_Facts.thy ===== *)
theory Pipeline_Facts
  imports Dispatch_Pipeline
begin

text \<open>
  What a cycle does to the table.  A cycle is refined to the statements it executes: its effect is
  the effect of a history that interleaves its own statements with those of everybody else, so that
  the theorems of \<open>Store_Safety\<close> and \<open>Store_Retry\<close> apply to running pipelines.
\<close>

subsection \<open>Definitions\<close>

text \<open>The messages of a batch the broker accepted: the router's answer for them was nil.\<close>

definition broker_accepted :: "publish_env \<Rightarrow> int \<Rightarrow> message list \<Rightarrow> uuid set" where
  "broker_accepted pe workers msgs =
     {m_id (msgs ! i) | i k. k < length (started pe workers msgs)
        \<and> sp_start (chunk (length msgs) workers ! k) \<le> i \<and> i < sp_end (chunk (length msgs) workers ! k)
        \<and> answers pe msgs k (chunk (length msgs) workers ! k)
            ! (i - sp_start (chunk (length msgs) workers ! k)) = None}"

text \<open>The environment of a publish behaves: every goroutine finishes once, the router answers.\<close>

definition publish_ok :: "publish_env \<Rightarrow> int \<Rightarrow> message list \<Rightarrow> bool" where
  "publish_ok pe workers msgs \<longleftrightarrow>
     completes pe workers msgs \<and> (\<forall>k ms. length (pe_router pe k ms) = length ms)"

text \<open>The claim of a cycle, and that the publish of the batch it returned behaves.\<close>

definition cycle_claim :: "cycle_env \<Rightarrow> pipeline \<Rightarrow> table \<Rightarrow> table \<times> (err + message list)" where
  "cycle_claim ce p t =
     Claim (ce_claim_fault ce) (ce_claim_go_now ce) (ce_claim_now ce) (ce_locked ce) (p_stream p)
       (nat (dc_batch_size (p_cfg p))) (cycle_lease ce p) t"

definition cycle_ok :: "cycle_env \<Rightarrow> pipeline \<Rightarrow> table \<Rightarrow> bool" where
  "cycle_ok ce p t \<longleftrightarrow>
     (case snd (cycle_claim ce p t) of
        Inl _ \<Rightarrow> True
      | Inr msgs \<Rightarrow> msgs \<noteq> [] \<longrightarrow> publish_ok (ce_publish ce) (dc_workers (p_cfg p)) msgs)"

text \<open>The statements other parties execute during a cycle.\<close>

definition ce_others :: "cycle_env \<Rightarrow> stmt set" where
  "ce_others ce = set (ce_before_release ce) \<union> set (ce_before_ack ce) \<union> set (ce_before_nack ce)"

text \<open>The statements of the cycle itself, for the claimed batch \<open>msgs\<close>.\<close>

definition own_stmt :: "cycle_env \<Rightarrow> pipeline \<Rightarrow> message list \<Rightarrow> stmt \<Rightarrow> bool" where
  "own_stmt ce p msgs s \<longleftrightarrow>
     s = SClaim (p_stream p) (nat (dc_batch_size (p_cfg p))) (ce_token ce)
           (ce_started ce + dc_lease_ttl (p_cfg p) - ce_claim_go_now ce) (p_owner p)
           (ce_claim_now ce) (ce_locked ce)
     \<or> (\<exists>n. s = SRelease (map m_id (drop n msgs)) (ce_token ce) (ce_release_now ce))
     \<or> (\<exists>ids. s = SAck ids (ce_token ce) (ce_ack_now ce)
             \<and> set ids \<subseteq> broker_accepted (ce_publish ce) (dc_workers (p_cfg p)) msgs)
     \<or> (\<exists>ins. s = SNack (ce_token ce) (dc_max_attempts (p_cfg p)) ins (dc_max_defer (p_cfg p))
                  (ce_nack_now ce)
             \<and> ni_id ` set ins \<subseteq> m_id ` set msgs)"

fun acks :: "uuid \<Rightarrow> stmt \<Rightarrow> bool" where
  "acks i (SAck ids token now) \<longleftrightarrow> i \<in> set ids"
| "acks i s \<longleftrightarrow> False"

subsection \<open>The store's methods as statements\<close>

lemma Claim_stmt:
  "Claim f go_now now locked stream limit lease t = (t', r) \<Longrightarrow>
     t' = t \<or> t' = exec (SClaim stream limit (l_token lease) (l_until lease - go_now) (l_owner lease) now locked) t"
  by (auto simp: Claim_def Let_def query_def split: if_splits fault.splits prod.splits sum.splits)

lemma Ack_stmt: "Ack f now ids token t = (t', r) \<Longrightarrow> t' = t \<or> t' = exec (SAck ids token now) t"
  by (auto simp: Ack_def query_def split: if_splits fault.splits prod.splits sum.splits)

lemma Nack_stmt:
  "Nack f now outcomes token limits t = (t', r) \<Longrightarrow>
     t' = t \<or> t' = exec (SNack token (rl_max_attempts limits) (map input_of outcomes) (rl_max_defer limits) now) t"
  by (auto simp: Nack_def Let_def query_def
      split: if_splits fault.splits prod.splits sum.splits option.splits)

lemma ReleaseLease_stmt:
  "ReleaseLease f seen now ids token t = (t', n, e) \<Longrightarrow> t' = t \<or> t' = exec (SRelease ids token now) t"
  by (auto simp: ReleaseLease_def query_def split: if_splits fault.splits prod.splits sum.splits)

subsection \<open>Published batches\<close>

lemma started_covers:
  assumes "i < snd (publish pe workers msgs)"
  obtains k where "k < length (started pe workers msgs)"
    and "sp_start (chunk (length msgs) workers ! k) \<le> i" and "i < sp_end (chunk (length msgs) workers ! k)"
proof -
  let ?c = "chunk (length msgs) workers" and ?s = "started pe workers msgs"
  have "i \<in> set (concat (map (\<lambda>c. [sp_start c..<sp_end c]) ?c))"
    unfolding chunk_concat using assms attempted_le [of pe workers msgs] by simp
  then obtain c where "c \<in> set ?c" and c: "sp_start c \<le> i" "i < sp_end c" by auto
  then obtain k where k: "k < length ?c" "?c ! k = c" by (auto simp: in_set_conv_nth)
  have "k < length ?s"
  proof (rule ccontr)
    assume "\<not> k < length ?s"
    moreover have ne: "?s \<noteq> []" using assms by (auto simp: publish_def Let_def)
    ultimately have "length ?s - 1 < k" by (cases "?s") auto
    then have "sp_end (?c ! (length ?s - 1)) \<le> sp_start (?c ! k)" using k(1) by (rule chunk_end_le)
    moreover have "snd (publish pe workers msgs) = sp_end (?c ! (length ?s - 1))"
      using ne started_nth(1) [where k = "length ?s - 1" and pe = pe and workers = workers and msgs = msgs]
      by (simp add: publish_def Let_def last_conv_nth)
    ultimately show False using assms c(1) k(2) by simp
  qed
  with c k(2) that show thesis by blast
qed

lemma publish_ok_result:
  assumes "publish_ok pe workers msgs" and "publish pe workers msgs = (r, attempted)"
  obtains rs where "r = Return rs" and "length rs = length msgs" and "attempted \<le> length msgs"
    and "\<And>i. i < attempted \<Longrightarrow> ev_err (rs ! i) = None \<Longrightarrow> m_id (msgs ! i) \<in> broker_accepted pe workers msgs"
proof -
  have att: "attempted = snd (publish pe workers msgs)" using assms(2) by simp
  obtain rs where rs: "publish pe workers msgs = (Return rs, attempted)" "length rs = length msgs"
    and nth: "\<forall>k < length (started pe workers msgs).
         \<forall>i. sp_start (chunk (length msgs) workers ! k) \<le> i \<and> i < sp_end (chunk (length msgs) workers ! k) \<longrightarrow>
           rs ! i = outcome_event (pe_elapsed pe k) (msgs ! i)
                (answers pe msgs k (chunk (length msgs) workers ! k)
                   ! (i - sp_start (chunk (length msgs) workers ! k)))"
    using publish_result [of pe workers msgs] assms(1) unfolding publish_ok_def att by blast
  have "r = Return rs" using rs(1) assms(2) by simp
  moreover have "attempted \<le> length msgs" using attempted_le [of pe workers msgs] att by simp
  moreover have "m_id (msgs ! i) \<in> broker_accepted pe workers msgs" if "i < attempted" "ev_err (rs ! i) = None" for i
  proof -
    from that(1) obtain k where k: "k < length (started pe workers msgs)"
      "sp_start (chunk (length msgs) workers ! k) \<le> i" "i < sp_end (chunk (length msgs) workers ! k)"
      unfolding att by (rule started_covers)
    with nth that(2) show ?thesis
      by (auto simp: broker_accepted_def outcome_event_def Let_def)
  qed
  ultimately show thesis using rs(2) that by blast
qed

lemma split_acked:
  "i \<in> set (fst (split wild draw backoff n ms ps)) \<Longrightarrow>
     \<exists>j < length ms. j < length ps \<and> m_id (ms ! j) = i \<and> ev_err (ps ! j) = None"
proof (induction wild draw backoff n ms ps rule: split.induct)
  case (1 wild draw backoff n m ms p ps)
  then show ?case by (fastforce simp: case_prod_beta Let_def split: if_splits)
qed auto

lemma split_nacked_ids: "o_id ` set (snd (split wild draw backoff n ms ps)) \<subseteq> m_id ` set ms"
  by (induction wild draw backoff n ms ps rule: split.induct) (auto simp: case_prod_beta Let_def)

lemma input_of_id [simp]: "ni_id (input_of x) = o_id x"
  by (simp add: input_of_def)

subsection \<open>The phases of a cycle as statements\<close>

lemma write_ack_stmts:
  assumes "write_ack ce acked token ev t = (t', ev', e)"
  shows "\<exists>ss. t' = run_stmts ss t \<and> set ss \<subseteq> {SAck acked token (ce_ack_now ce)}"
proof (cases "acked = []")
  case True
  with assms show ?thesis by (auto simp: write_ack_def intro: exI [of _ "[]"])
next
  case False
  obtain r where "Ack (ce_ack_fault ce) (ce_ack_now ce) acked token t = (t', r)"
    using assms False by (auto simp: write_ack_def split: prod.splits sum.splits)
  from Ack_stmt [OF this] show ?thesis
    by (auto intro: exI [of _ "[]"] exI [of _ "[SAck acked token (ce_ack_now ce)]"])
qed

lemma write_nack_stmts:
  assumes "write_nack ce cfg nacked token ev t = (t', ev', e)"
  shows "\<exists>ss. t' = run_stmts ss t
    \<and> set ss \<subseteq> {SNack token (dc_max_attempts cfg) (map input_of nacked) (dc_max_defer cfg) (ce_nack_now ce)}"
proof (cases "nacked = []")
  case True
  with assms show ?thesis by (auto simp: write_nack_def intro: exI [of _ "[]"])
next
  case False
  obtain r where "Nack (ce_nack_fault ce) (ce_nack_now ce) nacked token
      \<lparr>rl_max_attempts = dc_max_attempts cfg, rl_max_defer = dc_max_defer cfg\<rparr> t = (t', r)"
    using assms False by (auto simp: write_nack_def split: prod.splits sum.splits)
  from Nack_stmt [OF this] show ?thesis
    by (auto simp del: exec.simps intro: exI [of _ "[]"]
        exI [of _ "[SNack token (dc_max_attempts cfg) (map input_of nacked) (dc_max_defer cfg) (ce_nack_now ce)]"])
qed

lemma release_stmts:
  assumes "release ce msgs token t = (t', n, e)"
  shows "\<exists>ss. t' = run_stmts ss t \<and> set ss \<subseteq> {SRelease (map m_id msgs) token (ce_release_now ce)}"
  using ReleaseLease_stmt [OF assms [unfolded release_def]]
  by (auto simp del: exec.simps intro: exI [of _ "[]"]
      exI [of _ "[SRelease (map m_id msgs) token (ce_release_now ce)]"])

lemma writeBack_stmts:
  assumes "writeBack ce cfg acked nacked token ev t = (t', ev', e)"
  shows "\<exists>ack nack. t' = run_stmts (ack @ ce_before_nack ce @ nack) t
    \<and> set ack \<subseteq> {SAck acked token (ce_ack_now ce)}
    \<and> set nack \<subseteq> {SNack token (dc_max_attempts cfg) (map input_of nacked) (dc_max_defer cfg) (ce_nack_now ce)}"
proof -
  obtain t1 ev1 e1 where a: "write_ack ce acked token ev t = (t1, ev1, e1)" by (metis prod_cases3)
  obtain t2 ev2 e2 where n: "write_nack ce cfg nacked token ev1 (run_stmts (ce_before_nack ce) t1) = (t2, ev2, e2)"
    by (metis prod_cases3)
  have "t' = t2" using assms by (simp add: writeBack_def a n)
  with write_ack_stmts [OF a] write_nack_stmts [OF n] show ?thesis
    by (auto simp: run_stmts_append)
qed

lemma finish_cycle_stmts:
  assumes "finish_cycle ce p msgs publishes attempted t = (t', res, e, ev)"
  obtains rel ack nack where
    "t' = run_stmts (ce_before_release ce @ rel @ ce_before_ack ce @ ack @ ce_before_nack ce @ nack) t"
    "set rel \<subseteq> {SRelease (map m_id (drop attempted msgs)) (ce_token ce) (ce_release_now ce)}"
    "set ack \<subseteq> {SAck (fst (split (ce_wild ce) (ce_draw ce) (p_backoff p) 0 (take attempted msgs) publishes))
                     (ce_token ce) (ce_ack_now ce)}"
    "set nack \<subseteq> {SNack (ce_token ce) (dc_max_attempts (p_cfg p))
        (map input_of (snd (split (ce_wild ce) (ce_draw ce) (p_backoff p) 0 (take attempted msgs) publishes)))
        (dc_max_defer (p_cfg p)) (ce_nack_now ce)}"
proof -
  let ?t0 = "run_stmts (ce_before_release ce) t"
  obtain acked nacked where sp: "split (ce_wild ce) (ce_draw ce) (p_backoff p) 0 (take attempted msgs) publishes = (acked, nacked)"
    by (metis surj_pair)
  obtain t1 n e1 where r: "release ce (drop attempted msgs) (ce_token ce) ?t0 = (t1, n, e1)"
    by (metis prod_cases3)
  define t2 where "t2 = (if attempted < length msgs then t1 else ?t0)"
  define ev0 where "ev0 = \<lparr>it_stream = p_stream p, it_driver = p_driver p, it_claimed = int (length msgs),
                it_retries = countRetries msgs, it_publishes = publishes, it_delivered = [],
                it_requeued = [], it_failed = [], it_deferred = [], it_conflicts = 0,
                it_released = (if attempted < length msgs then int n else 0), it_duration = 0\<rparr>"
  obtain t3 ev3 e3 where w: "writeBack ce (p_cfg p) acked nacked (ce_token ce) ev0
      (run_stmts (ce_before_ack ce) t2) = (t3, ev3, e3)"
    by (metis prod_cases3)
  have "t' = t3"
    using assms w by (auto simp: finish_cycle_def Let_def sp r t2_def ev0_def split: if_splits option.splits)
  moreover obtain rel where "t2 = run_stmts rel ?t0"
    "set rel \<subseteq> {SRelease (map m_id (drop attempted msgs)) (ce_token ce) (ce_release_now ce)}"
    using release_stmts [OF r] by (cases "attempted < length msgs") (auto simp: t2_def intro: that [of "[]"])
  ultimately show thesis
    using writeBack_stmts [OF w] that [of rel] by (auto simp: run_stmts_append sp)
qed

lemma claim_history:
  assumes "cycle_claim ce p t = (t1, r)"
  shows "\<exists>cl. t1 = run_stmts cl t \<and> (\<forall>msgs. \<forall>s \<in> set cl. own_stmt ce p msgs s)"
proof -
  let ?claim = "SClaim (p_stream p) (nat (dc_batch_size (p_cfg p))) (ce_token ce)
           (ce_started ce + dc_lease_ttl (p_cfg p) - ce_claim_go_now ce) (p_owner p)
           (ce_claim_now ce) (ce_locked ce)"
  obtain cl where "t1 = run_stmts cl t" "set cl \<subseteq> {?claim}"
    using Claim_stmt [OF assms [unfolded cycle_claim_def]]
    by (auto simp del: exec.simps simp: cycle_lease_def intro: that [of "[]"] that [of "[?claim]"])
  moreover from this(2) have "\<forall>s \<in> set cl. own_stmt ce p msgs s" for msgs by (auto simp: own_stmt_def)
  ultimately show ?thesis by blast
qed

lemma finish_history:
  assumes "finish_cycle ce p msgs rs attempted t1 = (t', res, e, ev)"
    and acc: "\<And>i. i < attempted \<Longrightarrow> ev_err (rs ! i) = None \<Longrightarrow>
      m_id (msgs ! i) \<in> broker_accepted (ce_publish ce) (dc_workers (p_cfg p)) msgs"
  shows "\<exists>ss. t' = run_stmts ss t1 \<and> (\<forall>s \<in> set ss. s \<in> ce_others ce \<or> own_stmt ce p msgs s)"
proof -
  let ?sp = "split (ce_wild ce) (ce_draw ce) (p_backoff p) 0 (take attempted msgs) rs"
  from assms(1) obtain rel ack nack where t': "t' = run_stmts (ce_before_release ce @ rel @ ce_before_ack ce @ ack @ ce_before_nack ce @ nack) t1"
    and rel: "set rel \<subseteq> {SRelease (map m_id (drop attempted msgs)) (ce_token ce) (ce_release_now ce)}"
    and ack: "set ack \<subseteq> {SAck (fst ?sp) (ce_token ce) (ce_ack_now ce)}"
    and nack: "set nack \<subseteq> {SNack (ce_token ce) (dc_max_attempts (p_cfg p)) (map input_of (snd ?sp))
        (dc_max_defer (p_cfg p)) (ce_nack_now ce)}"
    by (rule finish_cycle_stmts)
  have accepted: "set (fst ?sp) \<subseteq> broker_accepted (ce_publish ce) (dc_workers (p_cfg p)) msgs"
  proof
    fix i assume "i \<in> set (fst ?sp)"
    from split_acked [OF this] acc show "i \<in> broker_accepted (ce_publish ce) (dc_workers (p_cfg p)) msgs" by auto
  qed
  have nacked: "o_id ` set (snd ?sp) \<subseteq> m_id ` set msgs"
    using split_nacked_ids [of "ce_wild ce" "ce_draw ce" "p_backoff p" 0 "take attempted msgs" rs]
    by (auto dest: in_set_takeD)
  have "\<forall>s \<in> set rel \<union> set ack \<union> set nack. own_stmt ce p msgs s"
    using rel ack nack accepted nacked by (auto simp: own_stmt_def image_image)
  then show ?thesis using t'
    by (intro exI [of _ "ce_before_release ce @ rel @ ce_before_ack ce @ ack @ ce_before_nack ce @ nack"]) (auto simp: ce_others_def)
qed

text \<open>A cycle executes a history of its own statements and those of others.\<close>

lemma RunOnce_stmts:
  assumes "RunOnce ce p t = Return (t', res, e, ev)"
    and "cycle_ok ce p t"
  shows "\<exists>ss msgs. t' = run_stmts ss t \<and> (\<forall>s \<in> set ss. s \<in> ce_others ce \<or> own_stmt ce p msgs s)
    \<and> (msgs \<noteq> [] \<longrightarrow> snd (cycle_claim ce p t) = Inr msgs)"
proof -
  obtain t1 r where c: "cycle_claim ce p t = (t1, r)" by (metis surj_pair)
  obtain cl where cl: "t1 = run_stmts cl t" "\<And>msgs. \<forall>s \<in> set cl. own_stmt ce p msgs s"
    using claim_history [OF c] by blast
  show ?thesis
  proof (cases "\<exists>msgs. r = Inr msgs \<and> msgs \<noteq> []")
    case False
    then have "t' = t1" using assms(1) c by (cases r) (auto simp: RunOnce_def cycle_claim_def)
    with cl(1) cl(2) [of "[]"] show ?thesis by blast
  next
    case True
    then obtain msgs where r: "r = Inr msgs" "msgs \<noteq> []" by blast
    let ?w = "dc_workers (p_cfg p)"
    obtain x attempted where pub: "publish (ce_publish ce) ?w msgs = (x, attempted)" by (metis surj_pair)
    obtain rs where rs: "x = Return rs" "length rs = length msgs" "attempted \<le> length msgs"
      and acc: "\<And>i. i < attempted \<Longrightarrow> ev_err (rs ! i) = None \<Longrightarrow> m_id (msgs ! i) \<in> broker_accepted (ce_publish ce) ?w msgs"
      using publish_ok_result [OF _ pub] assms(2) c r by (auto simp: cycle_ok_def)
    have "finish_cycle ce p msgs rs attempted t1 = (t', res, e, ev)"
      using assms(1) c r pub rs(1) by (simp add: RunOnce_def cycle_claim_def)
    from finish_history [OF this acc] obtain ss where ss: "t' = run_stmts ss t1" "\<forall>s \<in> set ss. s \<in> ce_others ce \<or> own_stmt ce p msgs s"
      by blast
    have "t' = run_stmts (cl @ ss) t" "\<forall>s \<in> set (cl @ ss). s \<in> ce_others ce \<or> own_stmt ce p msgs s"
      using cl(1) cl(2) [of msgs] ss by (auto simp: run_stmts_append)
    moreover have "snd (cycle_claim ce p t) = Inr msgs" using c r(1) by simp
    ultimately show ?thesis by blast
  qed
qed

end
