(* ===== verification/Pipeline_Safety.thy ===== *)
theory Pipeline_Safety
  imports Pipeline_Facts
begin

text \<open>
  Properties of a cycle: it marks nothing sent that the broker did not accept, it settles every lease
  it took, its event accounts for every message it claimed, and each message ends where the broker's
  answer sends it - under any interleaving with other parties where the statement allows one.
\<close>

subsection \<open>Definitions\<close>

text \<open>The rows that hold a token are among the rows \<open>S\<close>.\<close>

definition token_within :: "uuid \<Rightarrow> uuid set \<Rightarrow> table \<Rightarrow> bool" where
  "token_within token S t \<longleftrightarrow> (\<forall>r \<in> set t. r_lease_token r = Some token \<longrightarrow> r_id r \<in> S)"

text \<open>A pipeline, and a cycle over one pending message that the broker accepts, for the witnesses.\<close>

definition demo_dispatch :: dispatch_config where
  "demo_dispatch = \<lparr>dc_poll_interval = 5 * second, dc_batch_size = 10, dc_workers = 1,
     dc_lease_ttl = 120 * second, dc_max_attempts = 5, dc_max_defer = 0, dc_backoff_base = 60 * second,
     dc_backoff_max = 3600 * second, dc_backoff_jitter = Finite 0, dc_pause_max = 30 * second,
     dc_publish_timeout = 15 * second, dc_write_back_timeout = 30 * second, dc_notify_enabled = True,
     dc_notify_channel = ''outbox_new'', dc_notify_debounce = 50 * millisecond,
     dc_notify_jitter = 100 * millisecond\<rparr>"

definition demo_pipeline :: pipeline where
  "demo_pipeline = \<lparr>p_stream = ''local'', p_driver = ''rmq'', p_cfg = demo_dispatch,
     p_backoff = \<lparr>bp_base = 60 * second, bp_max = 3600 * second, bp_jitter = Finite 0\<rparr>, p_owner = ''pod-a'',
     p_breaker = newBreaker (5 * second) (30 * second), p_system = ''rabbitmq'', p_wake = False\<rparr>"

definition demo_cycle :: "err option \<Rightarrow> fault \<Rightarrow> cycle_env" where
  "demo_cycle answer ack_fault = \<lparr>ce_started = 1, ce_token = ''tok1'', ce_claim_go_now = 1,
     ce_claim_fault = NoFault, ce_claim_now = 2000, ce_locked = [],
     ce_publish = \<lparr>pe_ctx_done = (\<lambda>_. False), pe_router = (\<lambda>k ms. map (\<lambda>_. answer) ms),
       pe_elapsed = (\<lambda>_. 5), pe_order = [0], pe_tracing = False, pe_inject = (\<lambda>_. [])\<rparr>,
     ce_before_release = [], ce_release_fault = NoFault, ce_release_seen = 0, ce_release_now = 2500,
     ce_before_ack = [], ce_ack_fault = ack_fault, ce_ack_now = 3000,
     ce_before_nack = [], ce_nack_fault = NoFault, ce_nack_now = 3000,
     ce_wild = (\<lambda>_. 0), ce_draw = (\<lambda>_. 0), ce_elapsed = 7\<rparr>"

subsection \<open>Rows that hold a token\<close>

lemma update_where_token:
  assumes "r' \<in> set (update_where sel upd t)" and "r_lease_token r' = Some token"
    and "\<And>r. sel r \<Longrightarrow> r_lease_token (upd r) \<noteq> Some token"
  shows "r' \<in> set t \<and> \<not> sel r'"
proof -
  from assms(1) obtain r where r: "r \<in> set t" "r' = (if sel r then upd r else r)"
    by (auto simp: update_where_def)
  then have "\<not> sel r" using assms(2,3) by fastforce
  with r show ?thesis by simp
qed

text \<open>Only a claim gives a token: a row that holds one after another statement was not changed by it.\<close>

lemma exec_token:
  assumes "\<not> claims_with token s" and "r' \<in> set (exec s t)" and "r_lease_token r' = Some token"
  shows "r' \<in> set t"
proof (cases s)
  case (SInsert now i stream topic payload hdrs tgt available)
  with assms show ?thesis by (auto simp: insert_stmt_def insert_row_def split: if_splits)
next
  case (SNack tok ma ins md now)
  with assms(2,3) show ?thesis
    by (auto simp del: exec.simps(4) simp: exec_nack nack_set_token dest!: update_where_token
        split: if_splits)
next
  case (SPurge retention limit now locked)
  with assms(2) show ?thesis by (auto simp: purge_stmt_def Let_def)
qed (use assms in \<open>auto simp: claim_stmt_def ack_stmt_def release_stmt_def reclaim_stmt_def
      requeue_stmt_def requeue_before_stmt_def requeue_before_write_def Let_def claim_set_def ack_set_def pending_set_def
      requeue_set_def dest!: update_where_token\<close>)

lemma token_within_exec:
  "token_within token S t \<Longrightarrow> \<not> claims_with token s \<Longrightarrow> token_within token S (exec s t)"
  unfolding token_within_def using exec_token by blast

lemma token_within_run:
  "token_within token S t \<Longrightarrow> \<forall>s \<in> set ss. \<not> claims_with token s \<Longrightarrow> token_within token S (run_stmts ss t)"
  by (induction ss arbitrary: t) (auto simp del: exec.simps intro: token_within_exec)

lemma token_within_ack:
  assumes "token_within token S t"
  shows "token_within token (S - set ids) (exec (SAck ids token now) t)"
  using assms by (auto simp: token_within_def ack_stmt_def held_def ack_set_def dest!: update_where_token)

lemma token_within_release:
  assumes "token_within token S t" and "table_ok t"
  shows "token_within token (S - set ids) (exec (SRelease ids token now) t)"
  using assms held_processing table_okD
  by (fastforce simp: token_within_def release_stmt_def release_sel_def held_def pending_set_def
      dest!: update_where_token)

lemma token_within_nack:
  assumes "token_within token S t" and "nack_stmt token ma ins md now t \<noteq> None"
  shows "token_within token (S - ni_id ` set ins) (exec (SNack token ma ins md now) t)"
proof -
  have no: "\<not> (\<exists>r \<in> set t. nack_overflows ins token r)"
    using assms(2) by (auto simp: nack_stmt_def split: if_splits)
  have "r \<in> set t \<and> \<not> nack_safe ins token r"
    if "r \<in> set (exec (SNack token ma ins md now) t)" "r_lease_token r = Some token" for r
    using that no by (auto simp del: exec.simps(4) simp: exec_nack nack_set_token dest!: update_where_token)
  moreover have "r_id r \<notin> ni_id ` set ins"
    if "r \<in> set t" "\<not> nack_safe ins token r" "r_lease_token r = Some token" for r
    using that no by (auto simp: nack_safe_def nack_sel_def nack_input_for_def find_None_iff)
  ultimately show ?thesis using assms(1) unfolding token_within_def by blast
qed

lemma token_within_claim:
  assumes "\<forall>r \<in> set t. r_lease_token r \<noteq> Some token"
  shows "token_within token (set (due_ids stream limit now locked t))
    (exec (SClaim stream limit token ttl owner now locked) t)"
  using assms by (auto simp: token_within_def claim_stmt_def Let_def set_update_where id_in_def claim_set_def)

subsection \<open>The write-backs of a cycle that returned no error\<close>

lemma exec_ack_nil [simp]: "exec (SAck [] token now) t = t"
  by (simp add: ack_stmt_def update_where_none held_def)

lemma write_ack_ok:
  assumes "write_ack ce acked token ev t = (t', ev', None)"
  shows "t' = exec (SAck acked token (ce_ack_now ce)) t"
  using assms
  by (auto simp del: exec.simps(3) simp: write_ack_def split: if_splits prod.splits sum.splits)
    (auto simp: Ack_def query_def split: if_splits fault.splits prod.splits)

lemma write_nack_ok:
  assumes "write_nack ce cfg nacked token ev t = (t', ev', None)"
  shows "t' = exec (SNack token (dc_max_attempts cfg) (map input_of nacked) (dc_max_defer cfg) (ce_nack_now ce)) t"
    and "nacked \<noteq> [] \<Longrightarrow>
      nack_stmt token (dc_max_attempts cfg) (map input_of nacked) (dc_max_defer cfg) (ce_nack_now ce) t \<noteq> None"
proof -
  have nil: "exec (SNack token ma [] md now) t = t" for ma md now
    by (simp add: exec_nack nack_safe_def nack_sel_def nack_input_for_def update_where_none
        del: exec.simps)
  show "t' = exec (SNack token (dc_max_attempts cfg) (map input_of nacked) (dc_max_defer cfg) (ce_nack_now ce)) t"
    using assms nil
    by (auto simp: write_nack_def Nack_def Let_def query_def
        split: if_splits prod.splits sum.splits fault.splits option.splits)
  show "nacked \<noteq> [] \<Longrightarrow>
      nack_stmt token (dc_max_attempts cfg) (map input_of nacked) (dc_max_defer cfg) (ce_nack_now ce) t \<noteq> None"
    using assms
    by (auto simp: write_nack_def Nack_def Let_def query_def
        split: if_splits prod.splits sum.splits fault.splits option.splits)
qed

lemma split_ids:
  "length ms \<le> length ps \<Longrightarrow>
   set (fst (split wild draw backoff n ms ps)) \<union> o_id ` set (snd (split wild draw backoff n ms ps))
     = m_id ` set ms"
proof (induction wild draw backoff n ms ps rule: split.induct)
  case (1 wild draw backoff n m ms p ps)
  then show ?case by (auto simp: case_prod_beta Let_def)
qed auto

subsection \<open>The parts of a cycle\<close>

lemma finish_cycle_parts:
  assumes "finish_cycle ce p msgs publishes attempted t = (t', res, e, ev)"
    and "split (ce_wild ce) (ce_draw ce) (p_backoff p) 0 (take attempted msgs) publishes = (acked, nacked)"
  obtains t2 ev0 ev3 where
    "t2 = (if attempted < length msgs
           then fst (release ce (drop attempted msgs) (ce_token ce) (run_stmts (ce_before_release ce) t))
           else run_stmts (ce_before_release ce) t)"
    "it_claimed ev0 = int (length msgs)" "it_publishes ev0 = publishes" "it_delivered ev0 = []"
    "it_requeued ev0 = []" "it_failed ev0 = []" "it_deferred ev0 = []" "it_conflicts ev0 = 0"
    "it_retries ev0 = countRetries msgs"
    "writeBack ce (p_cfg p) acked nacked (ce_token ce) ev0 (run_stmts (ce_before_ack ce) t2) = (t', ev3, e)"
    "e = None \<Longrightarrow> ev = Some (ev3\<lparr>it_duration := ce_elapsed ce\<rparr>)"
proof -
  let ?t0 = "run_stmts (ce_before_release ce) t"
  obtain t1 n e1 where r: "release ce (drop attempted msgs) (ce_token ce) ?t0 = (t1, n, e1)"
    by (metis prod_cases3)
  define t2 where "t2 = (if attempted < length msgs then t1 else ?t0)"
  define ev0 where "ev0 = \<lparr>it_stream = p_stream p, it_driver = p_driver p, it_claimed = int (length msgs),
                it_retries = countRetries msgs, it_publishes = publishes, it_delivered = [],
                it_requeued = [], it_failed = [], it_deferred = [], it_conflicts = 0,
                it_released = (if attempted < length msgs then int n else 0), it_duration = 0\<rparr>"
  obtain t3 ev3 e3 where w: "writeBack ce (p_cfg p) acked nacked (ce_token ce) ev0
      (run_stmts (ce_before_ack ce) t2) = (t3, ev3, e3)"
    by (metis prod_cases3)
  have fin: "t' = t3 \<and> e = e3 \<and> (e3 = None \<longrightarrow> ev = Some (ev3\<lparr>it_duration := ce_elapsed ce\<rparr>))"
    using assms(1) w
    by (auto simp: finish_cycle_def Let_def assms(2) r t2_def ev0_def split: if_splits option.splits)
  show thesis
    by (rule that [of t2 ev0 ev3]) (use fin w r in \<open>auto simp: ev0_def t2_def\<close>)
qed

lemma writeBack_parts:
  assumes "writeBack ce cfg acked nacked token ev t = (t', ev', None)"
  obtains t1 ev1 where "write_ack ce acked token ev t = (t1, ev1, None)"
    and "write_nack ce cfg nacked token ev1 (run_stmts (ce_before_nack ce) t1) = (t', ev', None)"
proof -
  obtain t1 ev1 e1 where a: "write_ack ce acked token ev t = (t1, ev1, e1)" by (metis prod_cases3)
  obtain t2 ev2 e2 where n: "write_nack ce cfg nacked token ev1 (run_stmts (ce_before_nack ce) t1) = (t2, ev2, e2)"
    by (metis prod_cases3)
  have "errors_join [e1, e2] = None" and "t' = t2" and "ev' = ev2"
    using assms by (simp_all add: writeBack_def a n)
  moreover from this(1) have "e1 = None" "e2 = None" by (simp_all add: errors_join_None_iff)
  ultimately show thesis using that a n by simp
qed

lemma RunOnce_parts:
  assumes "RunOnce ce p t = Return (t', res, None, ev)" and "cycle_ok ce p t"
  obtains (Empty) "cycle_claim ce p t = (t', Inr [])" "ev = None"
  | (Batch) t1 msgs publishes attempted where
      "cycle_claim ce p t = (t1, Inr msgs)" "msgs \<noteq> []"
      "publish (ce_publish ce) (dc_workers (p_cfg p)) msgs = (Return publishes, attempted)"
      "length publishes = length msgs" "attempted \<le> length msgs"
      "finish_cycle ce p msgs publishes attempted t1 = (t', res, None, ev)"
proof -
  obtain t1 r where c: "cycle_claim ce p t = (t1, r)" by (metis surj_pair)
  then obtain msgs where r: "r = Inr msgs"
    using assms(1) by (cases r) (auto simp: RunOnce_def cycle_claim_def)
  show thesis
  proof (cases "msgs = []")
    case True
    with assms(1) c r Empty show thesis by (simp add: RunOnce_def cycle_claim_def)
  next
    case False
    obtain x attempted where pub: "publish (ce_publish ce) (dc_workers (p_cfg p)) msgs = (x, attempted)"
      by (metis surj_pair)
    have "publish_ok (ce_publish ce) (dc_workers (p_cfg p)) msgs"
      using assms(2) c r False by (simp add: cycle_ok_def)
    from publish_ok_result [OF this pub] obtain rs
      where "x = Return rs" "length rs = length msgs" "attempted \<le> length msgs"
      by blast
    with Batch [OF _ False _ this(2,3)] assms(1) c r False pub show thesis
      by (simp add: RunOnce_def cycle_claim_def)
  qed
qed

lemma cycle_claim_ok:
  assumes "cycle_claim ce p t = (t1, Inr msgs)"
  shows "t1 = exec (SClaim (p_stream p) (nat (dc_batch_size (p_cfg p))) (ce_token ce)
           (ce_started ce + dc_lease_ttl (p_cfg p) - ce_claim_go_now ce) (p_owner p)
           (ce_claim_now ce) (ce_locked ce)) t"
  using Claim_ok_cases(1) [OF assms [unfolded cycle_claim_def]]
  by (simp add: claim_stmt_def Let_def cycle_lease_def)

lemma release_NoFault:
  assumes "ce_release_fault ce = NoFault"
  shows "fst (release ce msgs token t) = exec (SRelease (map m_id msgs) token (ce_release_now ce)) t"
  using assms
  by (auto simp: release_def ReleaseLease_def query_def release_stmt_def release_sel_def held_def
      update_where_none split: prod.splits)

subsection \<open>Counting\<close>

lemma record_nacks_counts:
  "length (it_failed (record_nacks nacked xs ev)) + length (it_deferred (record_nacks nacked xs ev))
     + length (it_requeued (record_nacks nacked xs ev))
   = length (it_failed ev) + length (it_deferred ev) + length (it_requeued ev) + length xs
   \<and> it_conflicts (record_nacks nacked xs ev) = it_conflicts ev
   \<and> it_delivered (record_nacks nacked xs ev) = it_delivered ev
   \<and> it_claimed (record_nacks nacked xs ev) = it_claimed ev \<and> it_retries (record_nacks nacked xs ev) = it_retries ev
   \<and> it_publishes (record_nacks nacked xs ev) = it_publishes ev"
  by (induction nacked xs ev rule: record_nacks.induct) (auto simp: Let_def)

lemma write_ack_counts:
  assumes "write_ack ce acked token ev t = (t', ev', None)"
  shows "int (length (it_delivered ev')) + it_conflicts ev'
      = int (length (it_delivered ev)) + it_conflicts ev + int (length acked)
    \<and> it_failed ev' = it_failed ev \<and> it_deferred ev' = it_deferred ev \<and> it_requeued ev' = it_requeued ev
    \<and> it_claimed ev' = it_claimed ev \<and> it_publishes ev' = it_publishes ev
    \<and> it_retries ev' = it_retries ev"
proof (cases "acked = []")
  case True
  with assms show ?thesis by (simp add: write_ack_def)
next
  case False
  then obtain r where r: "Ack (ce_ack_fault ce) (ce_ack_now ce) acked token t = (t', Inr r)"
    and ev': "ev' = ev\<lparr>it_conflicts := it_conflicts ev + ar_conflicts r,
       it_delivered := it_delivered ev @ map (\<lambda>d. \<lparr>dl_id = d_id d, dl_lag = d_lag d\<rparr>) (ar_delivered r)\<rparr>"
    using assms by (auto simp: write_ack_def split: prod.splits sum.splits)
  have "ar_conflicts r = int (length acked) - int (length (ar_delivered r))"
    using r False by (auto simp: Ack_def split: prod.splits sum.splits)
  then show ?thesis by (simp add: ev')
qed

lemma write_nack_counts:
  assumes "write_nack ce cfg nacked token ev t = (t', ev', None)"
  shows "int (length (it_failed ev')) + int (length (it_deferred ev')) + int (length (it_requeued ev')) + it_conflicts ev'
      = int (length (it_failed ev)) + int (length (it_deferred ev)) + int (length (it_requeued ev)) + it_conflicts ev
        + int (length nacked)
    \<and> it_delivered ev' = it_delivered ev \<and> it_claimed ev' = it_claimed ev \<and> it_publishes ev' = it_publishes ev
    \<and> it_retries ev' = it_retries ev"
proof (cases "nacked = []")
  case True
  with assms show ?thesis by (simp add: write_nack_def)
next
  case False
  then obtain r where r: "Nack (ce_nack_fault ce) (ce_nack_now ce) nacked token
        \<lparr>rl_max_attempts = dc_max_attempts cfg, rl_max_defer = dc_max_defer cfg\<rparr> t = (t', Inr r)"
    and ev': "ev' = record_nacks nacked (nr_outcomes r) (ev\<lparr>it_conflicts := it_conflicts ev + nr_conflicts r\<rparr>)"
    using assms by (auto simp: write_nack_def split: prod.splits sum.splits)
  have "nr_conflicts r = int (length nacked) - int (length (nr_outcomes r))"
    using r False by (auto simp: Nack_def Let_def split: prod.splits sum.splits)
  with record_nacks_counts [of nacked "nr_outcomes r" "ev\<lparr>it_conflicts := it_conflicts ev + nr_conflicts r\<rparr>"]
  show ?thesis by (simp add: ev')
qed

lemma split_length:
  "length ms \<le> length ps \<Longrightarrow>
   length (fst (split wild draw backoff n ms ps)) + length (snd (split wild draw backoff n ms ps)) = length ms"
proof (induction wild draw backoff n ms ps rule: split.induct)
  case (1 wild draw backoff n m ms p ps)
  then show ?case by (auto simp: case_prod_beta Let_def)
qed auto

subsection \<open>The demonstration cycle\<close>

lemma demo_cycle_claim:
  "cycle_claim (demo_cycle answer f) demo_pipeline [demo_row]
     = ([claim_set 2000 ''tok1'' (120 * second) ''pod-a'' demo_row], Inr [demo_message])"
  by (simp add: cycle_claim_def demo_cycle_def demo_pipeline_def demo_dispatch_def cycle_lease_def
      Claim_def query_def claim_stmt_def returning_def due_ids_def claim_due_def id_in_def update_where_def
      scan_message_def demo_row_def insert_row_def claim_set_def demo_message_def second_def zero_target_def)

lemma demo_cycle_publish:
  "publish (ce_publish (demo_cycle answer f)) (dc_workers (p_cfg demo_pipeline)) [demo_message]
     = (Return [outcome_event 5 demo_message answer], 1)"
  by (simp add: publish_def demo_cycle_def demo_pipeline_def demo_dispatch_def chunk_def goroutine_def
      Let_def slice_def tracer_Publish_def)

lemma demo_cycle_ok: "cycle_ok (demo_cycle answer f) demo_pipeline [demo_row]"
  unfolding cycle_ok_def demo_cycle_claim publish_ok_def completes_def
  by (auto simp: demo_cycle_def demo_pipeline_def demo_dispatch_def chunk_def Let_def)

lemma demo_cycle_sent:
  "\<exists>res ev. RunOnce (demo_cycle None NoFault) demo_pipeline [demo_row]
     = Return ([ack_set 3000 (claim_set 2000 ''tok1'' (120 * second) ''pod-a'' demo_row)], res, None, Some ev)"
  using demo_cycle_claim [of None NoFault] demo_cycle_publish [of None NoFault]
  by (simp add: RunOnce_def cycle_claim_def)
    (simp add: finish_cycle_def Let_def demo_cycle_def writeBack_def write_ack_def write_nack_def Ack_def
      query_def ack_stmt_def update_where_def returning_def held_def claim_set_def outcome_event_def
      errors_join_def List.map_filter_def demo_row_def insert_row_def demo_message_def)

lemma demo_others: "ce_others (demo_cycle answer f) = {}"
  by (simp add: ce_others_def demo_cycle_def)

subsection \<open>Who marks a row sent\<close>

lemma row_exec_becomes_sent:
  assumes "table_ok t" and "r \<in> set t" and "row_exec s t r = Some r'"
    and "r_status r \<noteq> StatusSent" and "r_status r' = StatusSent"
  shows "acks (r_id r) s"
proof -
  have "r' \<noteq> r" using assms(4,5) by auto
  from assms(1-3) this show ?thesis
  proof (cases rule: row_exec_cases)
    case (Nack token ma ins md now)
    with nack_set_status [of ins token r ma md now] assms(5) show ?thesis by auto
  qed (use assms(5) in \<open>auto simp: claim_set_def held_def pending_set_def requeue_set_def\<close>)
qed

lemma insert_row_status: "r_status (insert_row now i stream topic payload hdrs tgt available) = StatusPending"
  by (simp add: insert_row_def)

lemma inserted_row_pending:
  assumes "row_of i t = None" and "row_of i (exec s t) = Some r"
  shows "r_status r = StatusPending"
proof -
  from row_of_exec_insert [OF assms] obtain now stream topic payload hdrs tgt available
    where s: "s = SInsert now i stream topic payload hdrs tgt available"
    by (cases s) auto
  have "r \<in> set (exec s t)" and "r \<notin> set t"
    using row_of_SomeD [OF assms(2)] assms(1) by (auto simp: row_of_None_iff)
  then have "r = insert_row now i stream topic payload hdrs tgt available"
    by (auto simp: s insert_stmt_def split: if_splits)
  then show ?thesis by (simp only: insert_row_status)
qed

lemma run_sent_acked:
  assumes "table_ok t" and "\<forall>r. row_of i t = Some r \<longrightarrow> r_status r \<noteq> StatusSent"
    and "row_of i (run_stmts ss t) = Some r'" and "r_status r' = StatusSent"
  shows "\<exists>s \<in> set ss. acks i s"
  using assms
proof (induction ss arbitrary: t)
  case (Cons s ss)
  show ?case
  proof (cases "\<forall>r. row_of i (exec s t) = Some r \<longrightarrow> r_status r \<noteq> StatusSent")
    case True
    with Cons.IH [OF exec_ok [OF Cons.prems(1)] this] Cons.prems show ?thesis by auto
  next
    case False
    then obtain r1 where r1: "row_of i (exec s t) = Some r1" "r_status r1 = StatusSent" by blast
    show ?thesis
    proof (cases "row_of i t")
      case None
      then have "r_status r1 = StatusPending" using r1(1) by (rule inserted_row_pending)
      with r1(2) show ?thesis by simp
    next
      case (Some r)
      then have r: "r \<in> set t" "r_id r = i" by (auto dest: row_of_SomeD)
      have "row_exec s t r = Some r1" using row_of_exec [OF Cons.prems(1) Some, of s] r1(1) by simp
      from row_exec_becomes_sent [OF Cons.prems(1) r(1) this] Cons.prems(2) Some r1(2) r(2)
      show ?thesis by auto
    qed
  qed
qed auto

subsection \<open>Properties\<close>

text \<open>
  C8.  A cycle is a history.  Whatever fails and whoever interferes, the table after a cycle is the
  table after some history consisting of statements of other parties and of the cycle's own: its
  claim, a release of a tail of the batch, an acknowledge of messages the broker accepted and of no
  others, and a negative acknowledge of messages of the batch, all under the cycle's token.  Every
  theorem about histories therefore holds for running pipelines.
\<close>

theorem cycle_refines_history:
  assumes "RunOnce ce p t = Return (t', res, e, ev)" and "cycle_ok ce p t"
  shows "\<exists>ss msgs. t' = run_stmts ss t \<and> (\<forall>s \<in> set ss. s \<in> ce_others ce \<or> own_stmt ce p msgs s)
    \<and> (msgs \<noteq> [] \<longrightarrow> snd (cycle_claim ce p t) = Inr msgs)"
  using assms by (rule RunOnce_stmts)

theorem cycle_refines_history_witness:
  "\<exists>t' ss msgs. t' = run_stmts ss [demo_row] \<and> r_status (hd t') = StatusSent
    \<and> list_all (own_stmt (demo_cycle None NoFault) demo_pipeline msgs) ss"
proof -
  obtain res ev where r: "RunOnce (demo_cycle None NoFault) demo_pipeline [demo_row]
     = Return ([ack_set 3000 (claim_set 2000 ''tok1'' (120 * second) ''pod-a'' demo_row)], res, None, Some ev)"
    using demo_cycle_sent by blast
  let ?t = "[ack_set 3000 (claim_set 2000 ''tok1'' (120 * second) ''pod-a'' demo_row)]"
  from cycle_refines_history [OF r demo_cycle_ok] obtain ss msgs
    where t: "?t = run_stmts ss [demo_row]"
      and own: "\<forall>s \<in> set ss. own_stmt (demo_cycle None NoFault) demo_pipeline msgs s"
    unfolding demo_others by blast
  have "r_status (hd ?t) = StatusSent" by (simp add: ack_set_def)
  with t own show ?thesis unfolding list_all_iff by (intro exI conjI)
qed

text \<open>
  C5.  Nothing is marked sent that the broker did not accept.  If a message was not sent before a cycle
  and is afterwards, and no other party acknowledged it meanwhile, then it was in this cycle's batch
  and the broker answered nil for it in this cycle - whatever else failed, and whatever other
  replicas, janitors and operators did in between.
\<close>

theorem sent_only_if_broker_accepted:
  assumes "table_ok t" and "RunOnce ce p t = Return (t', res, e, ev)" and "cycle_ok ce p t"
    and "\<forall>r. row_of i t = Some r \<longrightarrow> r_status r \<noteq> StatusSent"
    and "row_of i t' = Some r'" and "r_status r' = StatusSent"
    and "\<forall>s \<in> ce_others ce. \<not> acks i s"
  shows "\<exists>msgs. snd (cycle_claim ce p t) = Inr msgs
    \<and> i \<in> broker_accepted (ce_publish ce) (dc_workers (p_cfg p)) msgs"
proof -
  from RunOnce_stmts [OF assms(2,3)] obtain ss msgs where t': "t' = run_stmts ss t"
    and ss: "\<forall>s \<in> set ss. s \<in> ce_others ce \<or> own_stmt ce p msgs s"
    and msgs: "msgs \<noteq> [] \<longrightarrow> snd (cycle_claim ce p t) = Inr msgs"
    by blast
  from run_sent_acked [OF assms(1,4) assms(5) [unfolded t'] assms(6)] obtain s
    where s: "s \<in> set ss" "acks i s" by blast
  with ss assms(7) have "own_stmt ce p msgs s" by blast
  with s(2) have i: "i \<in> broker_accepted (ce_publish ce) (dc_workers (p_cfg p)) msgs"
    by (auto simp: own_stmt_def)
  then have "msgs \<noteq> []"
    using started_spans_take [of "pe_ctx_done (ce_publish ce)" 0 "chunk (length msgs) (dc_workers (p_cfg p))"]
    by (auto simp: broker_accepted_def chunk_def)
  with msgs i show ?thesis by blast
qed

theorem sent_only_if_broker_accepted_witness:
  "''m1'' \<in> broker_accepted (ce_publish (demo_cycle None NoFault)) 1 [demo_message]"
proof -
  obtain res ev where r: "RunOnce (demo_cycle None NoFault) demo_pipeline [demo_row]
     = Return ([ack_set 3000 (claim_set 2000 ''tok1'' (120 * second) ''pod-a'' demo_row)], res, None, Some ev)"
    using demo_cycle_sent by blast
  let ?r = "ack_set 3000 (claim_set 2000 ''tok1'' (120 * second) ''pod-a'' demo_row)"
  have "row_of ''m1'' [?r] = Some ?r" and "r_status ?r = StatusSent"
    by (simp_all add: row_of_def ack_set_def claim_set_def)
  from sent_only_if_broker_accepted [OF _ r demo_cycle_ok _ this] show ?thesis
    by (auto simp: demo_others demo_cycle_claim) (simp add: demo_pipeline_def demo_dispatch_def)
qed

text \<open>What a cycle still holds after handing back, and after writing back.\<close>

definition not_attempted :: "cycle_env \<Rightarrow> pipeline \<Rightarrow> message list \<Rightarrow> uuid set" where
  "not_attempted ce p msgs =
     m_id ` set (drop (snd (publish (ce_publish ce) (dc_workers (p_cfg p)) msgs)) msgs)"

lemma token_within_mono: "token_within tok S t \<Longrightarrow> S \<subseteq> S' \<Longrightarrow> token_within tok S' t"
  unfolding token_within_def by blast

lemma release_leaves_or_releases:
  "fst (release ce msgs tok t) = t
   \<or> fst (release ce msgs tok t) = exec (SRelease (map m_id msgs) tok (ce_release_now ce)) t"
proof -
  obtain t' n e where r: "release ce msgs tok t = (t', n, e)" by (metis prod_cases3)
  from ReleaseLease_stmt [OF r [unfolded release_def]] r show ?thesis by auto
qed

lemma token_within_handed_back:
  assumes "token_within tok (m_id ` set msgs) t" and "table_ok t"
    and "t' = (if attempted < length msgs then fst (release ce (drop attempted msgs) tok t) else t)"
  shows "token_within tok (m_id ` set (take attempted msgs)
    \<union> (if ce_release_fault ce = NoFault then {} else m_id ` set (drop attempted msgs))) t'"
proof (cases "attempted < length msgs")
  case True
  have "set msgs = set (take attempted msgs) \<union> set (drop attempted msgs)"
    by (metis append_take_drop_id set_append)
  then have all: "m_id ` set msgs = m_id ` set (take attempted msgs) \<union> m_id ` set (drop attempted msgs)"
    by (simp add: image_Un)
  have released: "token_within tok (m_id ` set (take attempted msgs))
      (exec (SRelease (map m_id (drop attempted msgs)) tok (ce_release_now ce)) t)"
    by (rule token_within_mono [OF token_within_release [OF assms(1,2)]]) (auto simp: all)
  show ?thesis
  proof (cases "ce_release_fault ce = NoFault")
    case noFault: True
    with released True assms(3) show ?thesis by (simp add: release_NoFault del: exec.simps)
  next
    case False
    from release_leaves_or_releases [of ce "drop attempted msgs" tok t] True assms(3)
    have "t' = t \<or> t' = exec (SRelease (map m_id (drop attempted msgs)) tok (ce_release_now ce)) t" by simp
    with assms(1) token_within_mono [OF released, of "m_id ` set msgs"] False all show ?thesis
      by (auto simp del: exec.simps)
  qed
qed (use assms in simp)

lemma token_within_written_back:
  assumes "token_within tok S t" and "write_ack ce acked tok ev t = (t1, ev1, None)"
    and "write_nack ce cfg nacked tok ev1 (run_stmts ss t1) = (t', ev2, None)"
    and "\<forall>s \<in> set ss. \<not> claims_with tok s" and "S - set acked - o_id ` set nacked \<subseteq> L"
  shows "token_within tok L t'"
proof -
  have "token_within tok (S - set acked) t1"
    unfolding write_ack_ok [OF assms(2)] by (rule token_within_ack [OF assms(1)])
  then have tw: "token_within tok (S - set acked) (run_stmts ss t1)" by (rule token_within_run [OF _ assms(4)])
  have "token_within tok (S - set acked - o_id ` set nacked) t'"
  proof (cases "nacked = []")
    case True
    with assms(3) tw show ?thesis by (simp add: write_nack_def)
  next
    case False
    have "token_within tok (S - set acked - ni_id ` set (map input_of nacked)) t'"
      unfolding write_nack_ok(1) [OF assms(3)] by (rule token_within_nack [OF tw write_nack_ok(2) [OF assms(3) False]])
    moreover have "ni_id ` set (map input_of nacked) = o_id ` set nacked" by (simp add: image_image)
    ultimately show ?thesis by metis
  qed
  then show ?thesis using assms(5) by (rule token_within_mono)
qed

text \<open>
  C6.  A cycle settles what it claimed.  If a cycle reports no error, then every message that was put
  to the broker has been recorded: no row of one is left holding the cycle's token, under any
  interleaving with parties that use other tokens.  A row that does still hold the token belongs to a
  message of the batch that was not attempted, and the release of those messages failed: the code
  logs that failure and reports none, so such a row waits for its lease to expire.  When the release
  succeeded, or nothing had to be released, no row is left holding the token.
\<close>

theorem cycle_leaves_nothing_leased:
  assumes "table_ok t" and "\<forall>r \<in> set t. r_lease_token r \<noteq> Some (ce_token ce)"
    and "RunOnce ce p t = Return (t', res, None, ev)" and "cycle_ok ce p t"
    and "\<forall>s \<in> ce_others ce. \<not> claims_with (ce_token ce) s"
  shows "\<forall>r \<in> set t'. r_lease_token r = Some (ce_token ce) \<longrightarrow>
    ce_release_fault ce \<noteq> NoFault
    \<and> (\<exists>msgs. snd (cycle_claim ce p t) = Inr msgs \<and> r_id r \<in> not_attempted ce p msgs)"
proof -
  let ?tok = "ce_token ce"
  let ?ids = "\<lambda>t. due_ids (p_stream p) (nat (dc_batch_size (p_cfg p))) (ce_claim_now ce) (ce_locked ce) t"
  have others: "\<forall>s \<in> set (ce_before_release ce). \<not> claims_with ?tok s"
    "\<forall>s \<in> set (ce_before_ack ce). \<not> claims_with ?tok s" "\<forall>s \<in> set (ce_before_nack ce). \<not> claims_with ?tok s"
    using assms(5) by (auto simp: ce_others_def)
  have ids: "set (?ids t) = m_id ` set msgs" if "cycle_claim ce p t = (t1, Inr msgs)" for t1 msgs
    using claimed_ids(1) [OF assms(1) that [unfolded cycle_claim_def]] by simp
  have claimed: "token_within ?tok (m_id ` set msgs) t1" if "cycle_claim ce p t = (t1, Inr msgs)" for t1 msgs
    unfolding cycle_claim_ok [OF that] ids [OF that, symmetric] by (rule token_within_claim [OF assms(2)])
  from assms(3,4) show ?thesis
  proof (cases rule: RunOnce_parts)
    case Empty
    with claimed show ?thesis by (fastforce simp: token_within_def)
  next
    case (Batch t1 msgs publishes attempted)
    obtain acked nacked where sp: "split (ce_wild ce) (ce_draw ce) (p_backoff p) 0 (take attempted msgs) publishes = (acked, nacked)"
      by (metis surj_pair)
    let ?t1 = "run_stmts (ce_before_release ce) t1"
    let ?left = "if ce_release_fault ce = NoFault then {} else m_id ` set (drop attempted msgs)"
    from finish_cycle_parts [OF Batch(6) sp] obtain t2 ev0 ev3 where
      t2: "t2 = (if attempted < length msgs then fst (release ce (drop attempted msgs) ?tok ?t1) else ?t1)"
      and w: "writeBack ce (p_cfg p) acked nacked ?tok ev0 (run_stmts (ce_before_ack ce) t2) = (t', ev3, None)"
      by metis
    from writeBack_parts [OF w] obtain t3 ev1 where
      a: "write_ack ce acked ?tok ev0 (run_stmts (ce_before_ack ce) t2) = (t3, ev1, None)"
      and n: "write_nack ce (p_cfg p) nacked ?tok ev1 (run_stmts (ce_before_nack ce) t3) = (t', ev3, None)"
      by metis
    have ok1: "table_ok ?t1" using assms(1) cycle_claim_ok [OF Batch(1)] by (simp add: exec_ok run_ok del: exec.simps)
    note held = token_within_run [OF token_within_handed_back
        [OF token_within_run [OF claimed [OF Batch(1)] others(1)] ok1 t2] others(2)]
    have "m_id ` set (take attempted msgs) - set acked \<subseteq> o_id ` set nacked"
      using split_ids [of "take attempted msgs" publishes "ce_wild ce" "ce_draw ce" "p_backoff p" 0]
        Batch(4,5) sp by auto
    then have "(m_id ` set (take attempted msgs) \<union> ?left) - set acked - o_id ` set nacked \<subseteq> ?left" by blast
    from token_within_written_back [OF held a n others(3) this] Batch(1,3) show ?thesis
      by (auto simp: token_within_def not_attempted_def split: if_splits)
  qed
qed

theorem cycle_leaves_nothing_leased_witness:
  "\<exists>t' res ev. RunOnce (demo_cycle None NoFault) demo_pipeline [demo_row] = Return (t', res, None, ev)
    \<and> list_all (\<lambda>r. r_lease_token r \<noteq> Some ''tok1'') t'"
proof -
  obtain res ev where r: "RunOnce (demo_cycle None NoFault) demo_pipeline [demo_row]
     = Return ([ack_set 3000 (claim_set 2000 ''tok1'' (120 * second) ''pod-a'' demo_row)], res, None, Some ev)"
    using demo_cycle_sent by blast
  have "\<forall>r \<in> set [demo_row]. r_lease_token r \<noteq> Some (ce_token (demo_cycle None NoFault))"
    by (simp add: demo_row_def insert_row_def)
  from cycle_leaves_nothing_leased [OF demo_simps(1) this r demo_cycle_ok] demo_others
  have "\<forall>r \<in> set [ack_set 3000 (claim_set 2000 ''tok1'' (120 * second) ''pod-a'' demo_row)].
      r_lease_token r \<noteq> Some ''tok1''"
    by (simp add: demo_cycle_def)
  with r show ?thesis unfolding list_all_iff by (intro exI conjI)
qed

text \<open>
  The event accounts for the batch.  When a cycle emits its event, the messages delivered, returned
  for a retry, failed and deferred, together with the write-backs rejected because the lease was gone,
  number exactly the messages attempted; the rest of the batch was handed back.  The conflicts are not
  negative, and the retries are some of the messages claimed.
\<close>

lemma conflicts_grow_ack:
  assumes "table_ok t" and "write_ack ce acked token ev t = (t', ev', None)"
  shows "it_conflicts ev \<le> it_conflicts ev'"
proof -
  have "length (filter (held acked token) t) \<le> length acked"
    using assms(1) by (intro length_filter_id_le) (auto simp: table_ok_def held_def)
  then show ?thesis
    using assms(2)
    by (auto simp: write_ack_def Ack_def query_def ack_stmt_def returning_def
        split: if_splits prod.splits sum.splits fault.splits)
qed

lemma conflicts_grow_nack:
  assumes "table_ok t" and "write_nack ce cfg nacked token ev t = (t', ev', None)"
  shows "it_conflicts ev \<le> it_conflicts ev'"
proof -
  let ?ins = "map input_of nacked"
  have "length (filter (nack_sel ?ins token) t) \<le> length (map ni_id ?ins)"
    using assms(1) by (intro length_filter_id_le) (force simp: table_ok_def nack_sel_def nack_input_for_def dest!: find_Some_mem)+
  then show ?thesis
    using assms(2) record_nacks_counts
    by (auto simp: write_nack_def Nack_def Let_def query_def nack_stmt_def returning_def
        split: if_splits prod.splits sum.splits fault.splits)
qed

lemma table_ok_handed_back: "table_ok t \<Longrightarrow> table_ok (fst (release ce msgs token t))"
proof -
  obtain t' n e where r: "release ce msgs token t = (t', n, e)" by (metis prod_cases3)
  then obtain ss where "t' = run_stmts ss t" using release_stmts by blast
  then show "table_ok t \<Longrightarrow> ?thesis" using r by (simp add: run_ok)
qed

lemma event_accounts_for_batch:
  assumes "table_ok t" and "RunOnce ce p t = Return (t', res, None, Some ev)" and "cycle_ok ce p t"
  shows "\<exists>msgs attempted. snd (cycle_claim ce p t) = Inr msgs
    \<and> attempted = snd (publish (ce_publish ce) (dc_workers (p_cfg p)) msgs) \<and> attempted \<le> length msgs
    \<and> it_claimed ev = int (length msgs) \<and> it_retries ev = countRetries msgs \<and> 0 \<le> it_conflicts ev
    \<and> int (length (it_delivered ev)) + int (length (it_requeued ev)) + int (length (it_failed ev))
        + int (length (it_deferred ev)) + it_conflicts ev = int attempted"
  using assms(2,3)
proof (cases rule: RunOnce_parts)
  case (Batch t1 msgs publishes attempted)
  obtain acked nacked where sp: "split (ce_wild ce) (ce_draw ce) (p_backoff p) 0 (take attempted msgs) publishes = (acked, nacked)"
    by (metis surj_pair)
  from finish_cycle_parts [OF Batch(6) sp] obtain t2 ev0 ev3 where
    t2: "t2 = (if attempted < length msgs
         then fst (release ce (drop attempted msgs) (ce_token ce) (run_stmts (ce_before_release ce) t1))
         else run_stmts (ce_before_release ce) t1)"
    and ev0: "it_claimed ev0 = int (length msgs)" "it_delivered ev0 = []" "it_requeued ev0 = []"
      "it_failed ev0 = []" "it_deferred ev0 = []" "it_conflicts ev0 = 0" "it_retries ev0 = countRetries msgs"
    and w: "writeBack ce (p_cfg p) acked nacked (ce_token ce) ev0 (run_stmts (ce_before_ack ce) t2) = (t', ev3, None)"
    and ev: "Some ev = Some (ev3\<lparr>it_duration := ce_elapsed ce\<rparr>)"
    by metis
  from writeBack_parts [OF w] obtain t3 ev1 where
    a: "write_ack ce acked (ce_token ce) ev0 (run_stmts (ce_before_ack ce) t2) = (t3, ev1, None)"
    and n: "write_nack ce (p_cfg p) nacked (ce_token ce) ev1 (run_stmts (ce_before_nack ce) t3) = (t', ev3, None)"
    by metis
  have ok: "table_ok (run_stmts (ce_before_ack ce) t2)"
    using assms(1) t2 cycle_claim_ok [OF Batch(1)] by (simp add: run_ok exec_ok table_ok_handed_back del: exec.simps)
  then have "table_ok (run_stmts (ce_before_nack ce) t3)"
    using write_ack_ok [OF a] by (simp add: run_ok exec_ok del: exec.simps)
  with conflicts_grow_ack [OF ok a] conflicts_grow_nack [OF _ n] ev0 ev have "0 \<le> it_conflicts ev" by simp
  moreover have "length acked + length nacked = attempted"
    using split_length [of "take attempted msgs" publishes "ce_wild ce" "ce_draw ce" "p_backoff p" 0]
      Batch(4,5) sp by simp
  then have "int (length acked) + int (length nacked) = int attempted" by linarith
  ultimately show ?thesis
    using write_ack_counts [OF a] write_nack_counts [OF n] ev0 ev Batch(1,3,5)
    by (intro exI [of _ msgs] exI [of _ attempted]) simp
qed simp

end
