(* ===== verification/Pipeline_Outcome.thy ===== *)
theory Pipeline_Outcome
  imports Pipeline_Safety
begin

text \<open>
  Where each message of a batch ends when nothing fails and nobody interferes: the functional
  specification of a cycle, message by message.
\<close>

subsection \<open>Definitions\<close>

text \<open>A cycle in which every database call succeeds and no other party runs a statement.\<close>

definition undisturbed :: "cycle_env \<Rightarrow> bool" where
  "undisturbed ce \<longleftrightarrow>
     ce_before_release ce = [] \<and> ce_before_ack ce = [] \<and> ce_before_nack ce = []
     \<and> ce_release_fault ce = NoFault"

text \<open>
  What the row \<open>r\<close> becomes: sent when the broker accepted the message; failed when it rejected it for
  good, or for the last time, or when the broker has been out of reach for longer than \<open>MaxDefer\<close> and
  that limit is set; pending again, with or without a charge, otherwise.
\<close>

definition settled_as :: "cycle_env \<Rightarrow> pipeline \<Rightarrow> message \<Rightarrow> publish_event \<Rightarrow> row \<Rightarrow> row \<Rightarrow> bool" where
  "settled_as ce p m pub r r' \<longleftrightarrow>
     (if ev_err pub = None then
        r_status r' = StatusSent \<and> r_dispatched_at r' = Some (ce_ack_now ce) \<and> r_attempts r' = r_attempts r
        \<and> r_last_error r' = None \<and> r_deferred_since r' = None
      else if ev_permanent pub then
        r_status r' = StatusFailed \<and> r_attempts r' = r_attempts r + 1
      else if ev_deferred pub then
        r_attempts r' = r_attempts r
        \<and> (if 0 < dc_max_defer (p_cfg p)
                \<and> deferred_start (ce_nack_now ce) r \<le> ce_nack_now ce - make_interval (dc_max_defer (p_cfg p))
            then r_status r' = StatusFailed \<and> r_deferred_since r' = None
            else r_status r' = StatusPending
              \<and> r_deferred_since r' = Some (deferred_start (ce_nack_now ce) r))
      else
        r_attempts r' = r_attempts r + 1
        \<and> r_status r' = (if dc_max_attempts (p_cfg p) \<le> r_attempts r + 1 then StatusFailed else StatusPending)
        \<and> r_deferred_since r' = None)
     \<and> (r_status r' = StatusPending \<longrightarrow>
          (\<exists>x. r_available_at r' = ce_nack_now ce
                 + make_interval (Next (ce_wild ce) x (p_backoff p) (m_attempts m + 1))))"

text \<open>
  What the broker is given for a message: the message itself, or with tracing the message with the
  headers of its span.  The result \<open>pub\<close> answers for message \<open>j\<close> offered as \<open>m\<close> when some goroutine
  handed the router the part of the batch that has \<open>m\<close> in the place of message \<open>j\<close>, and \<open>pub\<close> is the
  classified answer the router gave in that place.
\<close>

definition offered_as :: "publish_env \<Rightarrow> message \<Rightarrow> message" where
  "offered_as pe m = (if pe_tracing pe then m\<lparr>m_headers := pe_inject pe m\<rparr> else m)"

definition answered_for :: "publish_env \<Rightarrow> int \<Rightarrow> message list \<Rightarrow> nat \<Rightarrow> message \<Rightarrow> publish_event \<Rightarrow> bool" where
  "answered_for pe workers msgs j m pub \<longleftrightarrow>
     (\<exists>k < length (chunk (length msgs) workers).
        let c = chunk (length msgs) workers ! k;
            batch = tracer_Publish (pe_tracing pe) (pe_inject pe) (slice c msgs) in
        sp_start c \<le> j \<and> j < sp_end c \<and> batch ! (j - sp_start c) = m
        \<and> pub = outcome_event (pe_elapsed pe k) (msgs ! j) (pe_router pe k batch ! (j - sp_start c)))"

subsection \<open>Lemmas\<close>

lemma nth_id_fresh: "m_id m \<notin> m_id ` set ms \<Longrightarrow> j < length ms \<Longrightarrow> m_id (ms ! j) \<noteq> m_id m"
  by (metis imageI nth_mem)

lemma split_acked_iff:
  assumes "length ms \<le> length ps" and "distinct (map m_id ms)" and "j < length ms"
  shows "m_id (ms ! j) \<in> set (fst (split wild draw backoff n ms ps)) \<longleftrightarrow> ev_err (ps ! j) = None"
  using assms
proof (induction wild draw backoff n ms ps arbitrary: j rule: split.induct)
  case (1 wild draw backoff n m ms p ps)
  have fresh: "m_id m \<notin> set (fst (split wild draw backoff (Suc n) ms ps))"
    using split_ids [of ms ps wild draw backoff "Suc n"] "1.prems"(1,2) by auto
  show ?case
  proof (cases j)
    case 0
    with fresh show ?thesis by (auto simp: case_prod_beta Let_def)
  next
    case (Suc j')
    with "1.prems" have "m_id (ms ! j') \<noteq> m_id m" by (simp add: nth_id_fresh)
    with Suc "1.IH" [of j'] "1.prems" show ?thesis by (auto simp: case_prod_beta Let_def)
  qed
qed auto

lemma split_nacked_nth:
  assumes "length ms \<le> length ps" and "distinct (map m_id ms)" and "j < length ms"
    and "ev_err (ps ! j) \<noteq> None"
  shows "find (\<lambda>x. o_id x = m_id (ms ! j)) (snd (split wild draw backoff n ms ps)) =
    Some \<lparr>o_id = m_id (ms ! j), o_err = ev_err (ps ! j), o_permanent = ev_permanent (ps ! j),
          o_deferred = ev_deferred (ps ! j),
          o_delay = Next wild (draw (n + j)) backoff (m_attempts (ms ! j) + 1)\<rparr>"
  using assms
proof (induction wild draw backoff n ms ps arbitrary: j rule: split.induct)
  case (1 wild draw backoff n m ms p ps)
  show ?case
  proof (cases j)
    case 0
    with "1.prems" show ?thesis by (auto simp: case_prod_beta Let_def)
  next
    case (Suc j')
    with "1.prems" have "m_id (ms ! j') \<noteq> m_id m" by (simp add: nth_id_fresh)
    with Suc "1.IH" [of j'] "1.prems" show ?thesis by (auto simp: case_prod_beta Let_def)
  qed
qed auto

lemma find_map_input_of:
  "find (\<lambda>i. ni_id i = k) (map input_of xs) = map_option input_of (find (\<lambda>x. o_id x = k) xs)"
  by (induction xs) auto

text \<open>The state of one claimed row after each of the three write-backs.\<close>

lemma row_of_release:
  assumes "table_ok t" and "row_of i t = Some r"
  shows "row_of i (exec (SRelease ids token now) t)
    = Some (if i \<in> set ids \<and> r_lease_token r = Some token then pending_set now r else r)"
proof -
  have "r_id r = i" "row_ok r" using assms by (auto dest: row_of_SomeD row_of_ok)
  then have "release_sel ids token r \<longleftrightarrow> i \<in> set ids \<and> r_lease_token r = Some token"
    using held_processing [of r token] by (auto simp: release_sel_def held_def)
  then show ?thesis by (simp add: row_of_exec [OF assms] del: exec.simps)
qed

lemma row_of_ack:
  assumes "table_ok t" and "row_of i t = Some r"
  shows "row_of i (exec (SAck ids token now) t)
    = Some (if i \<in> set ids \<and> r_lease_token r = Some token then ack_set now r else r)"
  using assms row_of_SomeD [OF assms(2)] by (simp add: row_of_exec held_def del: exec.simps)

lemma row_of_nack:
  assumes "table_ok t" and "row_of i t = Some r" and "nack_stmt token ma ins md now t \<noteq> None"
  shows "row_of i (exec (SNack token ma ins md now) t)
    = Some (if r_lease_token r = Some token then
              (case find (\<lambda>x. ni_id x = i) ins of None \<Rightarrow> r | Some x \<Rightarrow> nack_apply ma md now x r)
            else r)"
proof -
  have r: "r \<in> set t" "r_id r = i" using row_of_SomeD [OF assms(2)] by auto
  have no: "\<not> (\<exists>r \<in> set t. nack_overflows ins token r)"
    using assms(3) by (auto simp: nack_stmt_def split: if_splits)
  then have safe: "nack_safe ins token r \<longleftrightarrow> nack_input_for ins r \<noteq> None \<and> r_lease_token r = Some token"
    using r(1) by (auto simp: nack_safe_def nack_sel_def)
  show ?thesis
    unfolding row_of_exec [OF assms(1,2)] using no safe r(2)
    by (auto simp: nack_set_def nack_input_for_def split: option.splits)
qed

text \<open>What a negative acknowledge makes of a row that was just claimed.\<close>

lemma nack_apply_settles:
  assumes "ev_err pub = Some e"
    and "r\<^sub>1 = claim_set cnow token ttl owner r"
    and "x = input_of \<lparr>o_id = i, o_err = Some e, o_permanent = ev_permanent pub, o_deferred = ev_deferred pub,
          o_delay = Next (ce_wild ce) d (p_backoff p) (m_attempts m + 1)\<rparr>"
    and "ev_permanent pub \<longrightarrow> \<not> ev_deferred pub"
  shows "settled_as ce p m pub r
    (nack_apply (dc_max_attempts (p_cfg p)) (dc_max_defer (p_cfg p)) (ce_nack_now ce) x r\<^sub>1)"
  using assms
  by (auto simp: settled_as_def nack_apply_def nack_terminal_def Let_def input_of_def claim_set_def
      deferred_start_def)

lemma writeBack_row:
  assumes "table_ok t" and "row_of i t = Some q"
    and "write_ack ce acked token ev t = (t1, ev1, None)"
    and "write_nack ce cfg nacked token ev1 t1 = (t', ev', None)"
  shows "row_of i t' = Some
    (if r_lease_token q \<noteq> Some token then q
     else if i \<in> set acked then ack_set (ce_ack_now ce) q
     else (case find (\<lambda>x. o_id x = i) nacked of
             None \<Rightarrow> q
           | Some x \<Rightarrow> nack_apply (dc_max_attempts cfg) (dc_max_defer cfg) (ce_nack_now ce) (input_of x) q))"
proof -
  note t1 = write_ack_ok [OF assms(3)]
  have ok1: "table_ok t1" unfolding t1 using assms(1) by (rule exec_ok)
  let ?q = "if i \<in> set acked \<and> r_lease_token q = Some token then ack_set (ce_ack_now ce) q else q"
  have q: "row_of i t1 = Some ?q" unfolding t1 using assms(1,2) by (rule row_of_ack)
  show ?thesis
  proof (cases "nacked = []")
    case True
    with assms(4) q show ?thesis by (auto simp: write_nack_def)
  next
    case False
    have "row_of i t' = Some (if r_lease_token ?q = Some token then
              (case find (\<lambda>x. ni_id x = i) (map input_of nacked) of None \<Rightarrow> ?q
               | Some x \<Rightarrow> nack_apply (dc_max_attempts cfg) (dc_max_defer cfg) (ce_nack_now ce) x ?q)
            else ?q)"
      unfolding write_nack_ok(1) [OF assms(4)]
      by (rule row_of_nack [OF ok1 q write_nack_ok(2) [OF assms(4) False]])
    then show ?thesis by (auto simp: find_map_input_of ack_set_def split: option.splits)
  qed
qed

lemma publish_ok_flags:
  assumes "publish_ok pe workers msgs" and "publish pe workers msgs = (Return rs, attempted)" and "i < attempted"
  shows "ev_permanent (rs ! i) \<longrightarrow> \<not> ev_deferred (rs ! i)"
proof -
  have att: "i < snd (publish pe workers msgs)" using assms(2,3) by simp
  from att obtain k where k: "k < length (started pe workers msgs)"
    "sp_start (chunk (length msgs) workers ! k) \<le> i" "i < sp_end (chunk (length msgs) workers ! k)"
    by (rule started_covers)
  with publish_result [of pe workers msgs] assms(1,2)
  have "\<exists>d e. rs ! i = outcome_event d (msgs ! i) e" by (auto simp: publish_ok_def)
  then show ?thesis by (auto simp: outcome_event_def Let_def split: option.splits)
qed

lemma publish_answers_for:
  assumes "publish_ok pe workers msgs" and "publish pe workers msgs = (Return rs, attempted)" and "j < attempted"
  shows "answered_for pe workers msgs j (offered_as pe (msgs ! j)) (rs ! j)"
proof -
  let ?c = "\<lambda>k. chunk (length msgs) workers ! k"
  have att: "j < snd (publish pe workers msgs)" using assms(2,3) by simp
  from att obtain k where k: "k < length (started pe workers msgs)" "sp_start (?c k) \<le> j" "j < sp_end (?c k)"
    by (rule started_covers)
  then have n: "k < length (chunk (length msgs) workers)" using started_nth(2) by blast
  have "sp_end (?c k) \<le> length msgs" using chunk_span(2) [OF n] by simp
  then have "slice (?c k) msgs ! (j - sp_start (?c k)) = msgs ! j" "j - sp_start (?c k) < length (slice (?c k) msgs)"
    using k(2,3) by (simp_all add: slice_nth length_slice)
  then have "tracer_Publish (pe_tracing pe) (pe_inject pe) (slice (?c k) msgs) ! (j - sp_start (?c k)) = offered_as pe (msgs ! j)"
    by (simp add: tracer_Publish_def offered_as_def)
  moreover from publish_result [of pe workers msgs] assms(1,2) k
  have "rs ! j = outcome_event (pe_elapsed pe k) (msgs ! j) (answers pe msgs k (?c k) ! (j - sp_start (?c k)))"
    by (auto simp: publish_ok_def)
  ultimately show ?thesis using n k(2,3) by (auto simp: answered_for_def answers_def Let_def)
qed

lemma nth_take_drop_ids:
  assumes "distinct (map m_id msgs)" and "j < length msgs"
  shows "m_id (msgs ! j) \<in> set (map m_id (drop n msgs)) \<longleftrightarrow> n \<le> j"
proof
  assume "m_id (msgs ! j) \<in> set (map m_id (drop n msgs))"
  then obtain k where "k < length msgs - n" "m_id (msgs ! j) = m_id (msgs ! (n + k))"
    by (auto simp: in_set_conv_nth)
  moreover from this have "map m_id msgs ! j = map m_id msgs ! (n + k)" using assms(2) by simp
  ultimately have "j = n + k" using assms by (subst (asm) nth_eq_iff_index_eq) auto
  then show "n \<le> j" by simp
next
  assume "n \<le> j"
  then have "drop n msgs ! (j - n) = msgs ! j" "j - n < length (drop n msgs)" using assms(2) by simp_all
  then have "msgs ! j \<in> set (drop n msgs)" by (metis nth_mem)
  then show "m_id (msgs ! j) \<in> set (map m_id (drop n msgs))" by simp
qed

text \<open>What an undisturbed cycle writes over the claimed row \<open>q\<close> of its message number \<open>j\<close>.\<close>

definition written_row :: "cycle_env \<Rightarrow> dispatch_config \<Rightarrow> nat \<Rightarrow> nat \<Rightarrow> string \<Rightarrow> string list \<Rightarrow> outcome list \<Rightarrow> row \<Rightarrow> row" where
  "written_row ce cfg attempted j i acked nacked q =
     (if attempted \<le> j then pending_set (ce_release_now ce) q
      else if i \<in> set acked then ack_set (ce_ack_now ce) q
      else (case find (\<lambda>x. o_id x = i) nacked of
              None \<Rightarrow> q
            | Some x \<Rightarrow> nack_apply (dc_max_attempts cfg) (dc_max_defer cfg) (ce_nack_now ce) (input_of x) q))"

text \<open>The row of a claimed message after an undisturbed cycle, in terms of what was written back.\<close>

lemma undisturbed_row:
  assumes "table_ok t"
    and "RunOnce ce p t = Return (t', res, None, Some ev)" and "cycle_ok ce p t" and "undisturbed ce"
    and "snd (cycle_claim ce p t) = Inr msgs" and "j < length msgs"
  obtains r cnow ttl owner attempted publishes acked nacked where
    "row_of (m_id (msgs ! j)) t = Some r" "r_status r = StatusPending"
    "publish (ce_publish ce) (dc_workers (p_cfg p)) msgs = (Return publishes, attempted)"
    "length publishes = length msgs" "attempted \<le> length msgs" "it_publishes ev = publishes" "msgs \<noteq> []"
    "distinct (map m_id msgs)"
    "split (ce_wild ce) (ce_draw ce) (p_backoff p) 0 (take attempted msgs) publishes = (acked, nacked)"
    "row_of (m_id (msgs ! j)) t' = Some (written_row ce (p_cfg p) attempted j (m_id (msgs ! j)) acked nacked
       (claim_set cnow (ce_token ce) ttl owner r))"
  using assms(2,3)
proof (cases rule: RunOnce_parts)
  case (Batch t1 ms publishes attempted)
  have ms: "ms = msgs" using Batch(1) assms(5) by simp
  note Batch = Batch [unfolded ms]
  let ?i = "m_id (msgs ! j)" and ?tok = "ce_token ce"
  obtain acked nacked where sp: "split (ce_wild ce) (ce_draw ce) (p_backoff p) 0 (take attempted msgs) publishes = (acked, nacked)"
    by (metis surj_pair)
  from finish_cycle_parts [OF Batch(6) sp] obtain t2 ev0 ev3 where
    t2: "t2 = (if attempted < length msgs
         then fst (release ce (drop attempted msgs) ?tok (run_stmts (ce_before_release ce) t1))
         else run_stmts (ce_before_release ce) t1)"
    and ev0: "it_publishes ev0 = publishes"
    and w: "writeBack ce (p_cfg p) acked nacked ?tok ev0 (run_stmts (ce_before_ack ce) t2) = (t', ev3, None)"
    and ev: "Some ev = Some (ev3\<lparr>it_duration := ce_elapsed ce\<rparr>)"
    by metis
  from writeBack_parts [OF w] obtain t3 ev1 where
    a: "write_ack ce acked ?tok ev0 t2 = (t3, ev1, None)"
    and n: "write_nack ce (p_cfg p) nacked ?tok ev1 t3 = (t', ev3, None)"
    using assms(4) by (auto simp: undisturbed_def)
  have pubs: "it_publishes ev = publishes"
    using write_ack_counts [OF a] write_nack_counts [OF n] ev0 ev by simp
  note ids = claimed_ids [OF assms(1) Batch(1) [unfolded cycle_claim_def]]
  from claim_spec(3) [OF assms(1) Batch(1) [unfolded cycle_claim_def]] assms(6) obtain r where
    r: "row_of ?i t = Some r" and due: "claim_due (p_stream p) (ce_claim_now ce) (ce_locked ce) r"
    and r1: "row_of ?i t1 = Some (claim_set (ce_claim_now ce) ?tok
        (ce_started ce + dc_lease_ttl (p_cfg p) - ce_claim_go_now ce) (p_owner p) r)" (is "_ = Some ?r1")
    by (force simp: cycle_lease_def claim_set_def)
  have ok1: "table_ok t1" unfolding cycle_claim_ok [OF Batch(1)] using assms(1) by (rule exec_ok)
  have t2': "t2 = (if attempted < length msgs
      then exec (SRelease (map m_id (drop attempted msgs)) ?tok (ce_release_now ce)) t1 else t1)"
    using t2 assms(4) by (simp add: undisturbed_def release_NoFault del: exec.simps)
  have ok2: "table_ok t2" unfolding t2' using ok1 by (simp add: exec_ok del: exec.simps)
  have tok1: "r_lease_token ?r1 = Some ?tok" by (simp add: claim_set_def)
  have q: "row_of ?i t2 = Some (if attempted \<le> j then pending_set (ce_release_now ce) ?r1 else ?r1)"
    using r1 row_of_release [OF ok1 r1] nth_take_drop_ids [OF ids(2) assms(6), of attempted] tok1 assms(6)
    by (auto simp: t2' simp del: exec.simps)
  have pend: "r_status r = StatusPending" using due by (simp add: claim_due_def)
  have "row_of ?i t' = Some (written_row ce (p_cfg p) attempted j ?i acked nacked ?r1)"
    unfolding writeBack_row [OF ok2 q a n] written_row_def using tok1 by (simp add: pending_set_def split: option.split)
  with that r pend Batch(2-5) pubs ids(2) sp show thesis by blast
qed simp

text \<open>A message that was attempted is settled as its classified answer says.\<close>

lemma attempted_settles:
  assumes "split (ce_wild ce) (ce_draw ce) (p_backoff p) 0 (take attempted msgs) publishes = (acked, nacked)"
    and "length publishes = length msgs" and "attempted \<le> length msgs" and "distinct (map m_id msgs)"
    and "j < attempted" and "ev_permanent (publishes ! j) \<longrightarrow> \<not> ev_deferred (publishes ! j)"
    and "r' = written_row ce (p_cfg p) attempted j (m_id (msgs ! j)) acked nacked (claim_set cnow (ce_token ce) ttl owner r)"
  shows "r_lease_token r' = None \<and> settled_as ce p (msgs ! j) (publishes ! j) r r'"
proof -
  let ?i = "m_id (msgs ! j)"
  have len: "length (take attempted msgs) \<le> length publishes" "j < length (take attempted msgs)"
    using assms(2,3,5) by simp_all
  have dist: "distinct (map m_id (take attempted msgs))" using assms(4) by (simp add: take_map [symmetric])
  have nth: "take attempted msgs ! j = msgs ! j" using assms(5) by simp
  have acked: "?i \<in> set acked \<longleftrightarrow> ev_err (publishes ! j) = None"
    using split_acked_iff [OF len(1) dist len(2), of "ce_wild ce" "ce_draw ce" "p_backoff p" 0] assms(1) nth by simp
  show ?thesis
  proof (cases "ev_err (publishes ! j)")
    case None
    with acked assms(5,7) show ?thesis
      by (auto simp: written_row_def settled_as_def ack_set_def claim_set_def)
  next
    case (Some e)
    with assms(5,7) acked split_nacked_nth [OF len(1) dist len(2), of "ce_wild ce" "ce_draw ce" "p_backoff p" 0] assms(1) nth
    have r': "r' = nack_apply (dc_max_attempts (p_cfg p)) (dc_max_defer (p_cfg p)) (ce_nack_now ce)
        (input_of \<lparr>o_id = ?i, o_err = Some e, o_permanent = ev_permanent (publishes ! j),
          o_deferred = ev_deferred (publishes ! j),
          o_delay = Next (ce_wild ce) (ce_draw ce j) (p_backoff p) (m_attempts (msgs ! j) + 1)\<rparr>)
        (claim_set cnow (ce_token ce) ttl owner r)"
      by (simp add: written_row_def)
    from nack_apply_settles [OF Some refl refl assms(6)] r' show ?thesis by (auto simp: nack_apply_def Let_def)
  qed
qed

lemma message_settles:
  assumes "table_ok t" and "RunOnce ce p t = Return (t', res, None, Some ev)" and "cycle_ok ce p t" and "undisturbed ce"
    and "snd (cycle_claim ce p t) = Inr msgs" and "j < length msgs"
  shows "\<exists>r r'. row_of (m_id (msgs ! j)) t = Some r \<and> r_status r = StatusPending
    \<and> row_of (m_id (msgs ! j)) t' = Some r' \<and> r_lease_token r' = None
    \<and> (if snd (publish (ce_publish ce) (dc_workers (p_cfg p)) msgs) \<le> j
       then r_status r' = StatusPending \<and> r_attempts r' = r_attempts r \<and> r_available_at r' = ce_release_now ce
       else settled_as ce p (msgs ! j) (it_publishes ev ! j) r r')"
proof -
  let ?i = "m_id (msgs ! j)"
  from assms obtain r cnow ttl owner attempted publishes acked nacked where
    r: "row_of ?i t = Some r" "r_status r = StatusPending"
    and pub: "publish (ce_publish ce) (dc_workers (p_cfg p)) msgs = (Return publishes, attempted)"
      "length publishes = length msgs" "attempted \<le> length msgs" "it_publishes ev = publishes" "msgs \<noteq> []"
    and dist: "distinct (map m_id msgs)"
    and sp: "split (ce_wild ce) (ce_draw ce) (p_backoff p) 0 (take attempted msgs) publishes = (acked, nacked)"
    and row': "row_of ?i t' = Some (written_row ce (p_cfg p) attempted j ?i acked nacked
      (claim_set cnow (ce_token ce) ttl owner r))"
    by (rule undisturbed_row)
  have att: "snd (publish (ce_publish ce) (dc_workers (p_cfg p)) msgs) = attempted" using pub(1) by simp
  show ?thesis
  proof (cases "attempted \<le> j")
    case True
    with row' r show ?thesis unfolding att by (auto simp: written_row_def pending_set_def claim_set_def)
  next
    case False
    then have j: "j < attempted" by simp
    have "ev_permanent (publishes ! j) \<longrightarrow> \<not> ev_deferred (publishes ! j)"
      using publish_ok_flags [OF _ pub(1) j] assms(3,5) pub(5) by (simp add: cycle_ok_def)
    from attempted_settles [OF sp pub(2,3) dist j this refl] r row' False show ?thesis unfolding att pub(4) by auto
  qed
qed

lemma message_offered:
  assumes "table_ok t" and "RunOnce ce p t = Return (t', res, None, Some ev)" and "cycle_ok ce p t" and "undisturbed ce"
    and "snd (cycle_claim ce p t) = Inr msgs" and "j < length msgs"
    and "j < snd (publish (ce_publish ce) (dc_workers (p_cfg p)) msgs)"
  shows "answered_for (ce_publish ce) (dc_workers (p_cfg p)) msgs j (offered_as (ce_publish ce) (msgs ! j))
    (it_publishes ev ! j)"
proof -
  from assms(1-6) obtain attempted publishes where
    pub: "publish (ce_publish ce) (dc_workers (p_cfg p)) msgs = (Return publishes, attempted)"
      "it_publishes ev = publishes" "msgs \<noteq> []"
    by (rule undisturbed_row)
  then have "publish_ok (ce_publish ce) (dc_workers (p_cfg p)) msgs" using assms(3,5) by (simp add: cycle_ok_def)
  from publish_answers_for [OF this pub(1)] assms(7) pub(1,2) show ?thesis by simp
qed

subsection \<open>Properties\<close>

text \<open>
  C16.  Each message ends where the broker's answer sends it.  In a cycle that nothing disturbs and that
  reports no error, every claimed message was pending; one that was not attempted is pending again
  with its counter untouched and due at once; one that was attempted is sent, failed, retried or
  deferred exactly as its classified answer says, charged one attempt unless it was accepted or the
  broker could not be reached, and rescheduled a backoff into the future.
\<close>

theorem cycle_settles_each_message:
  assumes "table_ok t" and "RunOnce ce p t = Return (t', res, None, Some ev)" and "cycle_ok ce p t" and "undisturbed ce"
    and "snd (cycle_claim ce p t) = Inr msgs" and "j < length msgs"
  shows "\<exists>r r'. row_of (m_id (msgs ! j)) t = Some r \<and> r_status r = StatusPending
    \<and> row_of (m_id (msgs ! j)) t' = Some r' \<and> r_lease_token r' = None
    \<and> (if snd (publish (ce_publish ce) (dc_workers (p_cfg p)) msgs) \<le> j
       then r_status r' = StatusPending \<and> r_attempts r' = r_attempts r \<and> r_available_at r' = ce_release_now ce
       else settled_as ce p (msgs ! j) (it_publishes ev ! j) r r')"
  by (rule message_settles) (use assms in simp_all)

theorem cycle_settles_each_message_witness:
  "\<exists>t' res ev r'. RunOnce (demo_cycle None NoFault) demo_pipeline [demo_row] = Return (t', res, None, Some ev)
    \<and> row_of ''m1'' t' = Some r' \<and> r_lease_token r' = None"
proof -
  obtain res ev where r: "RunOnce (demo_cycle None NoFault) demo_pipeline [demo_row]
     = Return ([ack_set 3000 (claim_set 2000 ''tok1'' (120 * second) ''pod-a'' demo_row)], res, None, Some ev)"
    using demo_cycle_sent by blast
  have u: "undisturbed (demo_cycle None NoFault)" by (simp add: undisturbed_def demo_cycle_def)
  have c: "snd (cycle_claim (demo_cycle None NoFault) demo_pipeline [demo_row]) = Inr [demo_message]"
    by (simp add: demo_cycle_claim)
  from cycle_settles_each_message [OF demo_simps(1) r demo_cycle_ok u c, of 0]
  obtain r' where "row_of (m_id ([demo_message] ! 0))
      [ack_set 3000 (claim_set 2000 ''tok1'' (120 * second) ''pod-a'' demo_row)] = Some r'" "r_lease_token r' = None"
    by auto
  moreover have "m_id ([demo_message] ! 0) = ''m1''" by (simp add: demo_message_def)
  ultimately show ?thesis using r by (metis (no_types))
qed

end
