(* ===== verification/Dispatch_Run.thy ===== *)
theory Dispatch_Run
  imports Pipeline_Outcome
begin

text \<open>
  \<open>Pipeline.Run\<close> and \<open>Pipeline.observe\<close> of \<open>internal/dispatch/pipeline.go\<close>: the loop that drives the
  cycles of one stream, as a step relation.

  A state is where the loop is, the pipeline (its breaker and its wake channel change) and the table.
  At the head of the loop the breaker is consulted; a cycle runs or not; then the loop waits in its
  \<open>select\<close> for a wake-up, a tick of the poll ticker or the end of the context.  Other goroutines and
  other processes take steps in between: \<open>Wake\<close> is called, statements change the table.
\<close>

subsection \<open>Definitions\<close>

datatype phase = Head | Waiting | Stopped

record run_state =
  rs_phase :: phase
  rs_pipe :: pipeline
  rs_table :: table

text \<open>\<open>events.Breaker\<close>.\<close>

record breaker_event =
  be_stream :: string
  be_driver :: string
  be_paused :: bool

text \<open>\<open>observe\<close> folds a cycle into the breaker and announces a change of state.\<close>

definition observe :: "go_time \<Rightarrow> cycle_result \<Rightarrow> pipeline \<Rightarrow> pipeline \<times> breaker_event option" where
  "observe now res p =
     (let (b, changed) = breaker_observe now res (p_breaker p) in
      (p\<lparr>p_breaker := b\<rparr>,
       if changed then Some \<lparr>be_stream = p_stream p, be_driver = p_driver p, be_paused = breaker_open b\<rparr>
       else None))"

text \<open>
  What follows a cycle: an error that is a cancellation or an expired deadline ends the loop, any
  other error is logged, and without one the breaker is updated and a full batch starts the next
  cycle at once.
\<close>

definition after_cycle :: "go_time \<Rightarrow> cycle_result \<Rightarrow> err option \<Rightarrow> pipeline \<Rightarrow> phase \<times> pipeline" where
  "after_cycle now res e p =
     (case e of
        Some x \<Rightarrow>
          if errors_is x Canceled \<or> errors_is x DeadlineExceeded then (Stopped, p) else (Waiting, p)
      | None \<Rightarrow>
          (let p' = fst (observe now res p) in
           if \<not> breaker_open (p_breaker p') \<and> dc_batch_size (p_cfg p) \<le> res_claimed res
           then (Head, p') else (Waiting, p')))"

text \<open>
  A label says what happened: a cycle with its environment, started and observed at given times; the
  breaker held the cycle back; one of the three branches of \<open>select\<close>; or a step of somebody else.
\<close>

datatype run_label =
    LCycle go_time cycle_env go_time
  | LBlocked go_time
  | LDone
  | LWoken
  | LTick
  | LWakeCall
  | LOther stmt

inductive run_step :: "run_state \<Rightarrow> run_label \<Rightarrow> run_state \<Rightarrow> bool" where
  Cycle: "rs_phase s = Head \<Longrightarrow> \<not> blocks (p_breaker (rs_pipe s)) now \<Longrightarrow>
    cycle_ok ce (rs_pipe s) (rs_table s) \<Longrightarrow>
    RunOnce ce (rs_pipe s) (rs_table s) = Return (t', res, e, ev) \<Longrightarrow>
    after_cycle now' res e (rs_pipe s) = (ph, p') \<Longrightarrow>
    run_step s (LCycle now ce now') \<lparr>rs_phase = ph, rs_pipe = p', rs_table = t'\<rparr>"
| Blocked: "rs_phase s = Head \<Longrightarrow> blocks (p_breaker (rs_pipe s)) now \<Longrightarrow>
    run_step s (LBlocked now) (s\<lparr>rs_phase := Waiting\<rparr>)"
| Done: "rs_phase s = Waiting \<Longrightarrow> run_step s LDone (s\<lparr>rs_phase := Stopped\<rparr>)"
| Woken: "rs_phase s = Waiting \<Longrightarrow> p_wake (rs_pipe s) \<Longrightarrow>
    run_step s LWoken (s\<lparr>rs_phase := Head, rs_pipe := (rs_pipe s)\<lparr>p_wake := False\<rparr>\<rparr>)"
| Tick: "rs_phase s = Waiting \<Longrightarrow> run_step s LTick (s\<lparr>rs_phase := Head\<rparr>)"
| WakeCall: "run_step s LWakeCall (s\<lparr>rs_pipe := Wake (rs_pipe s)\<rparr>)"
| Other: "run_step s (LOther st) (s\<lparr>rs_table := exec st (rs_table s)\<rparr>)"

inductive run_steps :: "run_state \<Rightarrow> run_label list \<Rightarrow> run_state \<Rightarrow> bool" where
  Nil: "run_steps s [] s"
| Cons: "run_step s l s' \<Longrightarrow> run_steps s' ls s'' \<Longrightarrow> run_steps s (l # ls) s''"

inductive_cases run_step_cycleE: "run_step s (LCycle now ce now') s'"
inductive_cases run_steps_NilE: "run_steps s [] s'"
inductive_cases run_steps_ConsE: "run_steps s (l # ls) s'"

text \<open>The clock is past Go's zero time whenever a cycle is observed.\<close>

fun label_ok :: "run_label \<Rightarrow> bool" where
  "label_ok (LCycle now ce now') \<longleftrightarrow> 0 < now'"
| "label_ok l \<longleftrightarrow> True"

text \<open>What the loop keeps.\<close>

definition run_inv :: "run_state \<Rightarrow> bool" where
  "run_inv s \<longleftrightarrow> table_ok (rs_table s) \<and> breaker_ok (p_breaker (rs_pipe s))
     \<and> b_ceiling (p_breaker (rs_pipe s)) < 2 ^ 62 \<and> b_first (p_breaker (rs_pipe s)) < 2 ^ 62"

definition demo_state :: "table \<Rightarrow> run_state" where
  "demo_state t = \<lparr>rs_phase = Head, rs_pipe = demo_pipeline, rs_table = t\<rparr>"

definition demo_config :: config where
  "demo_config =
     \<lparr>cfg_app = \<lparr>app_name = ''outbox'', app_env = ''prod'', app_instance = ''pod-a'',
        app_shutdown_timeout = 30 * second\<rparr>,
      cfg_log = \<lparr>log_level = ''info'', log_format = ''json'', log_caller = False\<rparr>,
      cfg_db = \<lparr>db_dsn = [], db_host = ''localhost'', db_port = 5432, db_user = ''outbox'', db_password = [],
        db_name = ''app'', db_ssl_mode = ''disable'', db_schema = ''outbox'', db_table = ''messages'',
        db_max_conns = 10, db_min_conns = 2, db_connect_timeout = 5 * second,
        db_statement_timeout = 30 * second, db_max_conn_lifetime = 3600 * second,
        db_max_conn_idle_time = 1800 * second, db_auto_migrate = False, db_migration_lock_key = 8090211501\<rparr>,
      cfg_dispatch = demo_dispatch,
      cfg_janitor = \<lparr>jc_enabled = True, jc_reclaim_interval = 30 * second, jc_stats_interval = 30 * second,
        jc_partition_ahead = 3, jc_retention = 604800 * second, jc_retention_interval = 300 * second,
        jc_retention_batch = 5000, jc_lock_key = 809021150\<rparr>,
      cfg_http = \<lparr>http_enabled = True, http_port = 8085, http_read_timeout = 10 * second,
        http_write_timeout = 30 * second, http_shutdown_timeout = 10 * second, http_admin_token = []\<rparr>,
      cfg_metrics = \<lparr>mc_enabled = True, mc_port = 9100, mc_path = ''/metrics''\<rparr>,
      cfg_otel = \<lparr>otel_endpoint = [], otel_insecure = False, otel_sampling = Finite 1\<rparr>,
      cfg_dlq = \<lparr>dlq_enabled = False, dlq_stream = [], dlq_topic = ''outbox.dead-letter''\<rparr>,
      cfg_brokers = \<lparr>bc_streams = [(''local'', \<lparr>sc_name = ''local'', sc_driver = ''rmq''\<rparr>)], bc_drivers = []\<rparr>\<rparr>"

text \<open>A cycle whose broker is unreachable, and one whose claim fails.\<close>

definition demo_outage :: cycle_env where
  "demo_outage = demo_cycle (Some (UnavailableError ''not connected'' None)) NoFault"

definition demo_no_db :: cycle_env where
  "demo_no_db = (demo_cycle None NoFault)\<lparr>ce_claim_fault := FailBefore (NetError ''refused'')\<rparr>"

subsection \<open>Lemmas\<close>

lemma observe_simps [simp]:
  "p_breaker (fst (observe now res p)) = fst (breaker_observe now res (p_breaker p))"
  "p_wake (fst (observe now res p)) = p_wake p" "p_cfg (fst (observe now res p)) = p_cfg p"
  "p_stream (fst (observe now res p)) = p_stream p"
  by (simp_all add: observe_def case_prod_beta)

lemma after_cycle_cases:
  assumes "after_cycle now res e p = (ph, p')"
  obtains (Error) x where "e = Some x" and "p' = p"
  | (Observed) "e = None" and "p' = fst (observe now res p)"
  using assms by (auto simp: after_cycle_def Let_def split: option.splits if_splits)

lemma RunOnce_table_ok:
  assumes "table_ok t" and "cycle_ok ce p t" and "RunOnce ce p t = Return (t', res, e, ev)"
  shows "table_ok t'"
  using RunOnce_stmts [OF assms(3,2)] run_ok [OF assms(1)] by auto

lemma run_inv_step:
  assumes "run_step s l s'" and "run_inv s" and "label_ok l"
  shows "run_inv s'"
  using assms
proof (cases rule: run_step.cases)
  case (Cycle now ce t' res e ev now' ph p')
  have "breaker_ok (p_breaker p') \<and> b_ceiling (p_breaker p') = b_ceiling (p_breaker (rs_pipe s))
      \<and> b_first (p_breaker p') = b_first (p_breaker (rs_pipe s))"
    using Cycle(7)
  proof (cases rule: after_cycle_cases)
    case Observed
    then show ?thesis using assms(2,3) Cycle(1) by (simp add: run_inv_def breaker_observe_ok)
  qed (use assms(2) in \<open>simp add: run_inv_def\<close>)
  moreover have "table_ok t'" using RunOnce_table_ok Cycle(5,6) assms(2) by (auto simp: run_inv_def)
  ultimately show ?thesis using assms(2) Cycle(2) by (simp add: run_inv_def)
qed (simp_all add: run_inv_def Wake_def exec_ok)

lemma run_inv_steps:
  "run_steps s ls s' \<Longrightarrow> run_inv s \<Longrightarrow> \<forall>l \<in> set ls. label_ok l \<Longrightarrow> run_inv s'"
  by (induction rule: run_steps.induct) (auto intro: run_inv_step)

lemma stopped_step:
  assumes "run_step s l s'" and "rs_phase s = Stopped"
  shows "rs_phase s' = Stopped \<and> (\<forall>now ce now'. l \<noteq> LCycle now ce now')"
  using assms by (cases rule: run_step.cases) auto

lemma stopped_steps:
  "run_steps s ls s' \<Longrightarrow> rs_phase s = Stopped \<Longrightarrow>
     rs_phase s' = Stopped \<and> (\<forall>now ce now'. LCycle now ce now' \<notin> set ls)"
  by (induction rule: run_steps.induct) (auto dest: stopped_step)

lemma no_cycle_breaker:
  assumes "run_step s l s'" and "\<forall>now ce now'. l \<noteq> LCycle now ce now'"
  shows "p_breaker (rs_pipe s') = p_breaker (rs_pipe s)"
  using assms by (cases rule: run_step.cases) (auto simp: Wake_def)

lemma no_cycle_breakers:
  "run_steps s ls s' \<Longrightarrow> \<forall>now ce now'. LCycle now ce now' \<notin> set ls \<Longrightarrow>
     p_breaker (rs_pipe s') = p_breaker (rs_pipe s)"
  by (induction rule: run_steps.induct) (auto dest!: no_cycle_breaker)

lemma wake_step:
  assumes "run_step s l s'" and "p_wake (rs_pipe s)" and "l \<noteq> LWoken"
  shows "p_wake (rs_pipe s')"
  using assms
proof (cases rule: run_step.cases)
  case (Cycle now ce t' res e ev now' ph p')
  then show ?thesis using assms(2) by (auto elim!: after_cycle_cases)
qed (auto simp: Wake_def)

text \<open>A failed write-back is in the error of the cycle, whichever statement failed.\<close>

lemma errors_join_is:
  "errors_join es = Some x \<Longrightarrow> Some e \<in> set es \<Longrightarrow> errors_is e target \<Longrightarrow> errors_is x target"
proof -
  assume x: "errors_join es = Some x" and e: "Some e \<in> set es" and t: "errors_is e target"
  have "e \<in> set (List.map_filter (\<lambda>x. x) es)" using e by (induction es) (auto simp: List.map_filter_simps split: option.splits)
  moreover have "x = JoinError (List.map_filter (\<lambda>x. x) es)"
    using x by (auto simp: errors_join_def split: list.splits)
  ultimately show ?thesis using t by (auto simp: errors_is_def)
qed

definition fault_error :: "fault \<Rightarrow> err option" where
  "fault_error f = (case f of NoFault \<Rightarrow> None | FailBefore e \<Rightarrow> Some e | FailRows e \<Rightarrow> Some e | FailAfter e \<Rightarrow> Some e)"

text \<open>A statement of the write-back is issued, for a list that is not empty, and fails with \<open>e\<close>.\<close>

definition write_back_fails :: "cycle_env \<Rightarrow> uuid list \<times> outcome list \<Rightarrow> err \<Rightarrow> bool" where
  "write_back_fails ce parts e \<longleftrightarrow>
     (fst parts \<noteq> [] \<and> fault_error (ce_ack_fault ce) = Some e)
     \<or> (snd parts \<noteq> [] \<and> fault_error (ce_nack_fault ce) = Some e)"

lemma query_fault: "fault_error f = Some e \<Longrightarrow> snd (query f res t) = Inl e"
  by (auto simp: fault_error_def query_def split: fault.splits sum.splits)

lemma write_ack_fault:
  assumes "fault_error (ce_ack_fault ce) = Some e" and "acked \<noteq> []"
  shows "snd (snd (write_ack ce acked token ev t)) = Some (Errorf ''ack: '' e [])"
  using query_fault [OF assms(1), of "Inr (ack_stmt acked token (ce_ack_now ce) t)" t] assms(2)
  by (auto simp: write_ack_def Ack_def split: prod.splits sum.splits)

lemma write_nack_fault:
  assumes "fault_error (ce_nack_fault ce) = Some e" and "nacked \<noteq> []"
  shows "snd (snd (write_nack ce cfg nacked token ev t)) = Some (Errorf ''nack: '' e [])"
  using query_fault [OF assms(1), of "case nack_stmt token (dc_max_attempts cfg) (map input_of nacked) (dc_max_defer cfg)
      (ce_nack_now ce) t of None \<Rightarrow> Inl out_of_range | Some x \<Rightarrow> Inr x" t] assms(2)
  by (auto simp: write_nack_def Nack_def Let_def split: prod.splits sum.splits)

lemma writeBack_fault:
  assumes "writeBack ce cfg acked nacked token ev t = (t', ev', y)"
    and "write_back_fails ce (acked, nacked) e" and "errors_is e target"
  shows "\<exists>x. y = Some x \<and> errors_is x target"
proof -
  obtain t1 ev1 e1 where a: "write_ack ce acked token ev t = (t1, ev1, e1)" by (metis prod_cases3)
  obtain t2 ev2 e2 where n: "write_nack ce cfg nacked token ev1 (run_stmts (ce_before_nack ce) t1) = (t2, ev2, e2)"
    by (metis prod_cases3)
  have y: "y = errors_join [e1, e2]" using assms(1) a n by (simp add: writeBack_def)
  obtain msg where w: "Some (Errorf msg e []) \<in> set [e1, e2]"
    using assms(2) write_ack_fault [of ce e acked token ev t]
      write_nack_fault [of ce e nacked cfg token ev1 "run_stmts (ce_before_nack ce) t1"] a n
    by (auto simp: write_back_fails_def)
  then have "errors_join [e1, e2] \<noteq> None" unfolding errors_join_None_iff by auto
  with y obtain x where x: "y = Some x" by blast
  have "errors_is (Errorf msg e []) target" using assms(3) by (simp add: errors_is_def)
  then have "errors_is x target" using errors_join_is [OF _ w] y x by simp
  with x show ?thesis by blast
qed

lemma cycle_write_back_fault:
  assumes "cycle_claim ce p t = (t1, Inr msgs)" and "msgs \<noteq> []"
    and "publish (ce_publish ce) (dc_workers (p_cfg p)) msgs = (Return publishes, attempted)"
    and "write_back_fails ce (split (ce_wild ce) (ce_draw ce) (p_backoff p) 0 (take attempted msgs) publishes) e"
    and "errors_is e target"
  shows "\<exists>t' res x. RunOnce ce p t = Return (t', res, Some x, None) \<and> errors_is x target"
proof -
  obtain acked nacked where sp: "split (ce_wild ce) (ce_draw ce) (p_backoff p) 0 (take attempted msgs) publishes = (acked, nacked)"
    by (metis surj_pair)
  obtain t' res y ev where fin: "finish_cycle ce p msgs publishes attempted t1 = (t', res, y, ev)"
    by (metis prod_cases4)
  from finish_cycle_parts [OF fin sp] obtain t2 ev0 ev3 where
    w: "writeBack ce (p_cfg p) acked nacked (ce_token ce) ev0 (run_stmts (ce_before_ack ce) t2) = (t', ev3, y)"
    by metis
  from writeBack_fault [OF w assms(4) [unfolded sp] assms(5)] obtain x where x: "y = Some x" "errors_is x target" by blast
  have "RunOnce ce p t = Return (t', res, y, ev)" using assms(1-3) fin by (simp add: RunOnce_def cycle_claim_def)
  moreover have "ev = None" using fin x by (auto simp: finish_cycle_def Let_def split: prod.splits option.splits)
  ultimately show ?thesis using x by blast
qed

lemma demo_outage_deferred:
  "\<exists>t' res ev. RunOnce demo_outage demo_pipeline [demo_row] = Return (t', res, None, Some ev) \<and> unreachable res"
  unfolding demo_outage_def
  using demo_cycle_claim [of "Some (UnavailableError ''not connected'' None)" NoFault]
    demo_cycle_publish [of "Some (UnavailableError ''not connected'' None)" NoFault]
  by (simp add: RunOnce_def cycle_claim_def)
    (simp add: finish_cycle_def Let_def demo_cycle_def writeBack_def write_ack_def write_nack_def Nack_def
      query_def nack_stmt_def update_where_def returning_def nack_overflows_def nack_input_for_def nack_sel_def
      nack_set_def nack_apply_def nack_terminal_def claim_set_def outcome_event_def input_of_def
      nack_outcome_of_def errors_join_def List.map_filter_def demo_row_def insert_row_def demo_message_def
      unreachable_def demo_pipeline_def demo_dispatch_def IsPermanent_iff max_int32_def)

lemma demo_no_db_step:
  assumes "rs_phase s = Head" and "\<not> blocks (p_breaker (rs_pipe s)) now" and "p_cfg (rs_pipe s) = demo_dispatch"
  shows "\<exists>s'. run_step s (LCycle now demo_no_db now') s'"
proof -
  have c: "snd (cycle_claim demo_no_db (rs_pipe s) (rs_table s))
      = Inl (Errorf (''claim '' @ p_stream (rs_pipe s) @ '': '') (NetError ''refused'') [])"
    using assms(3)
    by (simp add: cycle_claim_def demo_no_db_def demo_cycle_def Claim_def query_def cycle_lease_def Let_def
        demo_dispatch_def second_def)
  then have ok: "cycle_ok demo_no_db (rs_pipe s) (rs_table s)" by (simp add: cycle_ok_def)
  then obtain t1 x where "cycle_claim demo_no_db (rs_pipe s) (rs_table s) = (t1, Inl x)" by (metis prod.collapse c)
  then have "RunOnce demo_no_db (rs_pipe s) (rs_table s) = Return (t1, zero_result, Some x, None)"
    by (simp add: RunOnce_def cycle_claim_def)
  then obtain t' res e ev where r: "RunOnce demo_no_db (rs_pipe s) (rs_table s) = Return (t', res, e, ev)" by blast
  obtain ph p' where "after_cycle now' res e (rs_pipe s) = (ph, p')" by (metis surj_pair)
  from run_step.Cycle [OF assms(1,2) ok r this] show ?thesis by blast
qed

text \<open>
  A wake-up is not lost.  Once \<open>Wake\<close> has been called the signal stays in the channel until the loop
  takes it from its \<open>select\<close>, whatever cycles, pauses and further calls happen in between.
\<close>

lemma wakeup_is_kept:
  assumes "run_step s LWakeCall s1" and "run_steps s1 ls s2" and "LWoken \<notin> set ls"
  shows "p_wake (rs_pipe s2)"
proof -
  have "p_wake (rs_pipe s1)" using assms(1) by (cases rule: run_step.cases) (auto simp: Wake_def)
  with assms(2,3) show ?thesis
    by (induction rule: run_steps.induct) (auto intro: wake_step)
qed

text \<open>
  Invariants of the loop.  From a fresh pipeline and a table that satisfies its constraints, every
  state the loop reaches - through any sequence of cycles, failures, pauses, wake-ups and statements
  of other parties - has a table that satisfies them and a breaker that is open exactly while it has
  a pause, within the configured bounds.
\<close>

lemma run_keeps_invariants:
  assumes "run_steps \<lparr>rs_phase = Head, rs_pipe = New stream r cfg, rs_table = t\<rparr> ls s"
    and "table_ok t" and "\<forall>l \<in> set ls. label_ok l"
    and "dc_poll_interval (cfg_dispatch cfg) < 2 ^ 62" and "dc_pause_max (cfg_dispatch cfg) < 2 ^ 62"
  shows "table_ok (rs_table s)
    \<and> (breaker_open (p_breaker (rs_pipe s)) \<longleftrightarrow> 0 < b_pause (p_breaker (rs_pipe s)))
    \<and> b_pause (p_breaker (rs_pipe s))
        \<le> max (b_first (p_breaker (rs_pipe s))) (b_ceiling (p_breaker (rs_pipe s)))"
proof -
  have "run_inv \<lparr>rs_phase = Head, rs_pipe = New stream r cfg, rs_table = t\<rparr>"
    using assms(2,4,5) newBreaker_ok
    by (simp add: run_inv_def New_def Let_def) (simp add: newBreaker_def second_def)
  from run_inv_steps [OF assms(1) this assms(3)] show ?thesis
    by (simp add: run_inv_def breaker_ok_def)
qed

subsection \<open>Properties\<close>

text \<open>
  C17.  A pause is waited out.  After a cycle that found the broker unreachable, the next cycle starts no
  earlier than the new pause after the moment the result was observed, however many wake-ups,
  ticks and inserts arrive in between.
\<close>

theorem claims_wait_out_the_pause:
  assumes "run_step s (LCycle now ce now') s1"
    and "RunOnce ce (rs_pipe s) (rs_table s) = Return (t', res, None, ev)" and "unreachable res"
    and "0 < b_ceiling (p_breaker (rs_pipe s))" and "run_inv s" and "0 < now'"
    and "run_steps s1 ls s2" and "\<forall>n ce' n'. LCycle n ce' n' \<notin> set ls"
    and "run_step s2 (LCycle now2 ce2 now2') s3"
  shows "now' + next_pause (p_breaker (rs_pipe s)) \<le> now2 \<and> 0 < next_pause (p_breaker (rs_pipe s))"
proof -
  let ?b = "p_breaker (rs_pipe s)"
  from assms(1) obtain ph p' where ac: "after_cycle now' res None (rs_pipe s) = (ph, p')"
    and s1: "rs_pipe s1 = p'"
    by (rule run_step_cycleE) (use assms(2) in auto)
  have pause: "0 < next_pause ?b"
    using next_pause_bounds [of ?b] assms(4,5) by (simp add: run_inv_def)
  have "p_breaker p' = fst (breaker_observe now' res ?b)"
    using ac by (cases rule: after_cycle_cases) simp_all
  then have until: "b_until (p_breaker p') = now' + next_pause ?b" and opn: "breaker_open (p_breaker p')"
    using assms(3,4,6) pause
    by (simp_all add: breaker_observe_def Let_def breaker_open_def is_zero_time_def zero_time_def)
  have "p_breaker (rs_pipe s2) = p_breaker p'" using no_cycle_breakers [OF assms(7,8)] s1 by simp
  moreover have "\<not> blocks (p_breaker (rs_pipe s2)) now2"
    using assms(9) by (rule run_step_cycleE)
  ultimately show ?thesis using until opn pause by (simp add: blocks_def)
qed

theorem claims_wait_out_the_pause_witness:
  "\<exists>s1 s2 s3. run_step (demo_state [demo_row]) (LCycle 1 demo_outage 9) s1
    \<and> run_steps s1 [LTick] s2 \<and> run_step s2 (LCycle (9 + 5 * second) demo_no_db 10000000000) s3
    \<and> 9 + next_pause (p_breaker (rs_pipe (demo_state [demo_row]))) \<le> 9 + 5 * second
    \<and> 0 < next_pause (p_breaker (rs_pipe (demo_state [demo_row])))"
proof -
  obtain t' res ev where r: "RunOnce demo_outage demo_pipeline [demo_row] = Return (t', res, None, Some ev)"
    and u: "unreachable res"
    using demo_outage_deferred by blast
  obtain ph p' where ac: "after_cycle 9 res None demo_pipeline = (ph, p')" by (metis surj_pair)
  let ?s1 = "\<lparr>rs_phase = ph, rs_pipe = p', rs_table = t'\<rparr>"
  have nb: "\<not> blocks (p_breaker demo_pipeline) 1"
    by (simp add: demo_pipeline_def newBreaker_def blocks_def breaker_open_def is_zero_time_def)
  have step: "run_step (demo_state [demo_row]) (LCycle 1 demo_outage 9) ?s1"
    by (rule run_step.Cycle) (use nb r ac demo_cycle_ok in \<open>auto simp: demo_state_def demo_outage_def\<close>)
  have inv: "run_inv (demo_state [demo_row])"
    by (simp add: run_inv_def demo_state_def demo_pipeline_def newBreaker_ok)
      (simp add: newBreaker_def second_def)
  have p': "p_breaker p' = fst (breaker_observe 9 res (p_breaker demo_pipeline))" "p_cfg p' = demo_dispatch"
    using ac by (auto elim!: after_cycle_cases simp: demo_pipeline_def)
  have pos: "0 < b_ceiling (p_breaker demo_pipeline)" "next_pause (p_breaker demo_pipeline) = 5 * second"
    by (simp_all add: demo_pipeline_def newBreaker_def next_pause_def second_def)
  have br: "breaker_open (p_breaker p')" "b_until (p_breaker p') = 9 + 5 * second"
    using p'(1) u pos by (simp_all add: breaker_observe_def Let_def breaker_open_def is_zero_time_def zero_time_def second_def)
  then have ph: "ph = Waiting" using ac by (auto simp: after_cycle_def Let_def split: if_splits)
  let ?s2 = "?s1\<lparr>rs_phase := Head\<rparr>"
  have s2: "run_steps ?s1 [LTick] ?s2"
    by (rule run_steps.Cons [OF run_step.Tick run_steps.Nil]) (simp add: ph)
  obtain s3 where s3: "run_step ?s2 (LCycle (9 + 5 * second) demo_no_db 10000000000) s3"
    using demo_no_db_step [of ?s2 "9 + 5 * second" 10000000000] br p'(2) by (auto simp: blocks_def)
  have "9 + next_pause (p_breaker (rs_pipe (demo_state [demo_row]))) \<le> 9 + 5 * second
      \<and> 0 < next_pause (p_breaker (rs_pipe (demo_state [demo_row])))"
    by (rule claims_wait_out_the_pause [OF step _ u _ inv _ s2 _ s3])
      (use r pos in \<open>simp_all add: demo_state_def\<close>)
  then show ?thesis using step s2 s3 by blast
qed

text \<open>
  C18.  A write-back that times out ends the stream.  The write-back runs under a deadline of its own,
  \<open>WriteBackTimeout\<close>; when the acknowledge or the negative acknowledge of a batch misses it - before
  the statement is sent, while it runs, or after it was committed, and however the driver wraps the
  error - the loop takes it for the end of its own context and returns without an error.  From then
  on this stream is never claimed again by this process, although nobody asked the pipeline to stop.
\<close>

theorem write_back_timeout_ends_stream:
  assumes "rs_phase s = Head" and "\<not> blocks (p_breaker (rs_pipe s)) now"
    and "cycle_ok ce (rs_pipe s) (rs_table s)"
    and "cycle_claim ce (rs_pipe s) (rs_table s) = (t1, Inr msgs)" and "msgs \<noteq> []"
    and "publish (ce_publish ce) (dc_workers (p_cfg (rs_pipe s))) msgs = (Return publishes, attempted)"
    and "write_back_fails ce
      (split (ce_wild ce) (ce_draw ce) (p_backoff (rs_pipe s)) 0 (take attempted msgs) publishes) e"
    and "errors_is e DeadlineExceeded"
  shows "\<exists>s'. run_step s (LCycle now ce now') s' \<and> rs_phase s' = Stopped
    \<and> (\<forall>ls s''. run_steps s' ls s'' \<longrightarrow> (\<forall>n ce' n'. LCycle n ce' n' \<notin> set ls))"
proof -
  from cycle_write_back_fault [OF assms(4-8)] obtain t' res x
    where r: "RunOnce ce (rs_pipe s) (rs_table s) = Return (t', res, Some x, None)"
      and x: "errors_is x DeadlineExceeded"
    by auto
  let ?s = "\<lparr>rs_phase = Stopped, rs_pipe = rs_pipe s, rs_table = t'\<rparr>"
  have "after_cycle now' res (Some x) (rs_pipe s) = (Stopped, rs_pipe s)"
    using x by (simp add: after_cycle_def)
  then have "run_step s (LCycle now ce now') ?s"
    by (rule run_step.Cycle [OF assms(1-3) r])
  moreover have "\<forall>n ce' n'. LCycle n ce' n' \<notin> set ls" if "run_steps ?s ls s''" for ls s''
    using stopped_steps [OF that] by simp
  ultimately show ?thesis by (metis run_state.select_convs(1))
qed

theorem write_back_timeout_ends_stream_witness:
  "\<exists>s'. run_step (demo_state [demo_row]) (LCycle 1 (demo_cycle None (FailBefore DeadlineExceeded)) 9) s'
    \<and> rs_phase s' = Stopped"
proof -
  let ?ce = "demo_cycle None (FailBefore DeadlineExceeded)" and ?s = "demo_state [demo_row]"
  have "rs_phase ?s = Head" and "\<not> blocks (p_breaker (rs_pipe ?s)) 1"
    by (simp_all add: demo_state_def demo_pipeline_def newBreaker_def blocks_def breaker_open_def is_zero_time_def)
  moreover have "cycle_ok ?ce (rs_pipe ?s) (rs_table ?s)" using demo_cycle_ok by (simp add: demo_state_def)
  moreover have "cycle_claim ?ce (rs_pipe ?s) (rs_table ?s)
      = ([claim_set 2000 ''tok1'' (120 * second) ''pod-a'' demo_row], Inr [demo_message])"
    by (simp add: demo_state_def demo_cycle_claim)
  moreover have "publish (ce_publish ?ce) (dc_workers (p_cfg (rs_pipe ?s))) [demo_message]
      = (Return [outcome_event 5 demo_message None], 1)"
    using demo_cycle_publish [of None] by (simp add: demo_state_def)
  moreover have "write_back_fails ?ce (split (ce_wild ?ce) (ce_draw ?ce) (p_backoff (rs_pipe ?s)) 0
      (take 1 [demo_message]) [outcome_event 5 demo_message None]) DeadlineExceeded"
    by (simp add: outcome_event_def write_back_fails_def fault_error_def demo_cycle_def)
  moreover have "errors_is DeadlineExceeded DeadlineExceeded" by (simp add: errors_is_def)
  ultimately show ?thesis
    using write_back_timeout_ends_stream [of ?s 1 ?ce _ "[demo_message]" _ 1 DeadlineExceeded 9] by blast
qed

end
