(* ===== verification/Store_Partition.thy ===== *)
theory Store_Partition
  imports Store_Ops Config_Types
begin

text \<open>
  \<open>internal/store/partition.go\<close>: maintenance of a range-partitioned outbox table.

  A partitioned table is a list of partitions, each with its rows; a daily partition covers one day
  of \<open>created_at\<close>, a day being a number of days since January 1 of year 1 in the database's time
  zone.  The rows of all partitions together are the outbox table.  A partition is identified by
  its name, written the way \<open>partitionName\<close> writes it: the catalogue's rendering of the same relation
  and its quoted form are one string here.
\<close>

subsection \<open>The partitioned table\<close>

record partition =
  pt_name :: string
  pt_default :: bool
  pt_day :: int
  pt_rows :: table

type_synonym ptable = "partition list"

definition day_of :: "timestamptz \<Rightarrow> int" where
  "day_of ts = ts div 86400000000"

definition all_rows :: "ptable \<Rightarrow> table" where
  "all_rows ps = concat (map pt_rows ps)"

text \<open>An INSERT goes to the partition of its day, else to the default partition, else it fails.\<close>

definition routed_to :: "row \<Rightarrow> ptable \<Rightarrow> string option" where
  "routed_to r ps =
     (case find (\<lambda>p. \<not> pt_default p \<and> pt_day p = day_of (r_created_at r)) ps of
        Some p \<Rightarrow> Some (pt_name p)
      | None \<Rightarrow> map_option pt_name (find pt_default ps))"

definition insert_into :: "row \<Rightarrow> ptable \<Rightarrow> ptable" where
  "insert_into r ps =
     (case routed_to r ps of
        None \<Rightarrow> ps
      | Some name \<Rightarrow> map (\<lambda>p. if pt_name p = name then p\<lparr>pt_rows := pt_rows p @ [r]\<rparr> else p) ps)"

text \<open>
  The other statements see the rows of all partitions as one table (\<open>partitioned/messages.sql\<close>: partitioning
  is transparent to DML).  None changes \<open>created_at\<close>, so an UPDATE leaves every row in its partition.  The
  key of a partitioned table is \<open>(id, created_at)\<close>: an INSERT is refused only when both are taken.
\<close>

fun spread :: "table \<Rightarrow> ptable \<Rightarrow> ptable" where
  "spread t [] = []"
| "spread t (p # ps) = p\<lparr>pt_rows := take (length (pt_rows p)) t\<rparr> # spread (drop (length (pt_rows p)) t) ps"

fun exec_parts :: "stmt \<Rightarrow> ptable \<Rightarrow> ptable" where
  "exec_parts (SInsert now i stream topic payload hdrs tgt available) ps =
     (if \<exists>r \<in> set (all_rows ps). r_id r = i \<and> r_created_at r = now then ps
      else insert_into (insert_row now i stream topic payload hdrs tgt available) ps)"
| "exec_parts (SPurge retention limit now locked) ps =
     (let ids = doomed_ids retention limit now locked (all_rows ps) in
      map (\<lambda>p. p\<lparr>pt_rows := filter (\<lambda>r. \<not> id_in ids r) (pt_rows p)\<rparr>) ps)"
| "exec_parts s ps = spread (exec s (all_rows ps)) ps"

definition run_parts :: "stmt list \<Rightarrow> ptable \<Rightarrow> ptable" where
  "run_parts ss ps = fold exec_parts ss ps"

subsection \<open>Names\<close>

text \<open>The civil date of a day number, and \<open>day.Format("20060102")\<close>.\<close>

definition civil_of_day :: "int \<Rightarrow> int \<times> int \<times> int" where
  "civil_of_day day =
     (let z = day + 306;
          era = z div 146097;
          doe = z mod 146097;
          yoe = (doe - doe div 1460 + doe div 36524 - doe div 146096) div 365;
          doy = doe - (365 * yoe + yoe div 4 - yoe div 100);
          mp = (5 * doy + 2) div 153;
          d = doy - (153 * mp + 2) div 5 + 1;
          m = (if mp < 10 then mp + 3 else mp - 9);
          y = yoe + era * 400 + (if m \<le> 2 then 1 else 0) in
      (y, m, d))"

definition compact_date :: "int \<Rightarrow> string" where
  "compact_date day =
     (let (y, m, d) = civil_of_day day in zero_pad 4 (itoa y) @ zero_pad 2 (itoa m) @ zero_pad 2 (itoa d))"

definition quoteIdent :: "string \<Rightarrow> string" where
  "quoteIdent ident = CHR 0x22 # ident @ [CHR 0x22]"

text \<open>\<open>New\<close> of the store keeps the qualified name and its parts; the connection pool is left out.\<close>

record store =
  s_table :: string
  s_schema :: string
  s_table_name :: string

definition NewStore :: "db_config \<Rightarrow> store" where
  "NewStore cfg = \<lparr>s_table = go_quote (db_schema cfg) @ ''.'' @ go_quote (db_table cfg),
     s_schema = quoteIdent (db_schema cfg), s_table_name = db_table cfg\<rparr>"

text \<open>
  The statements a store prepares: each template of \<open>queries.go\<close> with the one name it interpolates, the qualified table
  or, for the two functions of the migrations, the schema.
\<close>

datatype sql_template = ClaimSQL | AckSQL | NackSQL | ReleaseLeaseSQL | ReclaimSQL | StatsSQL | PurgeSQL | ListFailedSQL
  | FetchByIDsSQL | RequeueSQL | RequeueBeforeSQL

record queries =
  q_claim :: "sql_template \<times> string"
  q_ack :: "sql_template \<times> string"
  q_nack :: "sql_template \<times> string"
  q_release_lease :: "sql_template \<times> string"
  q_reclaim :: "sql_template \<times> string"
  q_requeue :: "sql_template \<times> string"
  q_requeue_before :: "sql_template \<times> string"
  q_stats :: "sql_template \<times> string"
  q_purge :: "sql_template \<times> string"
  q_list_failed :: "sql_template \<times> string"
  q_fetch_by_ids :: "sql_template \<times> string"

definition newQueries :: "string \<Rightarrow> string \<Rightarrow> queries" where
  "newQueries schema tab =
     \<lparr>q_claim = (ClaimSQL, tab), q_ack = (AckSQL, tab), q_nack = (NackSQL, tab), q_release_lease = (ReleaseLeaseSQL, tab),
      q_reclaim = (ReclaimSQL, tab), q_requeue = (RequeueSQL, schema), q_requeue_before = (RequeueBeforeSQL, schema),
      q_stats = (StatsSQL, tab), q_purge = (PurgeSQL, tab), q_list_failed = (ListFailedSQL, tab), q_fetch_by_ids = (FetchByIDsSQL, tab)\<rparr>"

definition store_queries :: "db_config \<Rightarrow> queries" where
  "store_queries cfg = newQueries (quoteIdent (db_schema cfg)) (s_table (NewStore cfg))"

definition interpolated :: "queries \<Rightarrow> string set" where
  "interpolated q = snd ` {q_claim q, q_ack q, q_nack q, q_release_lease q, q_reclaim q, q_requeue q, q_requeue_before q, q_stats q,
     q_purge q, q_list_failed q, q_fetch_by_ids q}"

lemma interpolated_names: "interpolated (store_queries cfg) = {quoteIdent (db_schema cfg), s_table (NewStore cfg)}"
  by (auto simp: interpolated_def store_queries_def newQueries_def)

definition partitionName :: "string \<Rightarrow> string \<Rightarrow> int \<Rightarrow> string" where
  "partitionName schema tab day = schema @ ''.'' @ go_quote (tab @ ''_'' @ compact_date day)"

subsection \<open>Creating days\<close>

text \<open>
  \<open>CREATE TABLE IF NOT EXISTS ... PARTITION OF\<close>: nothing happens when the name is taken; it is an
  error when the day is covered already or when the default partition holds a row of that day.
\<close>

definition create_partition :: "string \<Rightarrow> int \<Rightarrow> ptable \<Rightarrow> err + ptable" where
  "create_partition name day ps =
     (if name \<in> pt_name ` set ps then Inr ps
      else if \<exists>p \<in> set ps. \<not> pt_default p \<and> pt_day p = day then
        Inl (PgError ''42P17'' ''partition would overlap partition'')
      else if \<exists>p \<in> set ps. pt_default p \<and> (\<exists>r \<in> set (pt_rows p). day_of (r_created_at r) = day) then
        Inl (PgError ''23514'' ''updated partition constraint for default partition would be violated by some row'')
      else Inr (ps @ [\<lparr>pt_name = name, pt_default = False, pt_day = day, pt_rows = []\<rparr>]))"

fun ensure_loop ::
  "(nat \<Rightarrow> fault) \<Rightarrow> string \<Rightarrow> string \<Rightarrow> int \<Rightarrow> nat \<Rightarrow> nat \<Rightarrow> ptable \<Rightarrow> string list
   \<Rightarrow> ptable \<times> (err + string list)" where
  "ensure_loop fs schema tab today i 0 ps created = (ps, Inr created)"
| "ensure_loop fs schema tab today i (Suc n) ps created =
     (let name = partitionName schema tab (today + int i);
          fail = (\<lambda>e. Inl (Errorf (''create partition '' @ name @ '': '') e [])) in
      case (fs i, create_partition name (today + int i) ps) of
        (NoFault, Inl e) \<Rightarrow> (ps, fail e)
      | (NoFault, Inr ps') \<Rightarrow> ensure_loop fs schema tab today (Suc i) n ps' (created @ [name])
      | (FailBefore e, _) \<Rightarrow> (ps, fail e)
      | (FailRows e, _) \<Rightarrow> (ps, fail e)
      | (FailAfter e, Inl _) \<Rightarrow> (ps, fail e)
      | (FailAfter e, Inr ps') \<Rightarrow> (ps', fail e))"

text \<open>
  Whether the catalogue calls the table partitioned is the third argument of \<open>IsPartitioned\<close>.  The date
  read from the database is \<open>today\<close>, or the error of that query.
\<close>

definition IsPartitioned :: "fault \<Rightarrow> string \<Rightarrow> bool \<Rightarrow> err + bool" where
  "IsPartitioned f tab relkind_p =
     (case f of
        NoFault \<Rightarrow> Inr relkind_p
      | FailBefore e \<Rightarrow> Inl (Errorf (''check whether '' @ tab @ '' is partitioned: '') e [])
      | FailRows e \<Rightarrow> Inl (Errorf (''check whether '' @ tab @ '' is partitioned: '') e [])
      | FailAfter e \<Rightarrow> Inl (Errorf (''check whether '' @ tab @ '' is partitioned: '') e []))"

definition EnsurePartitions ::
  "(nat \<Rightarrow> fault) \<Rightarrow> string \<Rightarrow> string \<Rightarrow> err + int \<Rightarrow> int \<Rightarrow> ptable \<Rightarrow> ptable \<times> (err + string list)" where
  "EnsurePartitions fs schema tab today ahead ps =
     (let ahead = (if ahead < 0 then 0 else ahead) in
      case today of
        Inl e \<Rightarrow> (ps, Inl (Errorf ''read the database date: '' e []))
      | Inr d \<Rightarrow> ensure_loop fs schema tab d 0 (nat ahead + 1) ps [])"

subsection \<open>Dropping days\<close>

text \<open>\<open>Partitions\<close> lists the children ordered by name.\<close>

definition Partitions :: "fault \<Rightarrow> string \<Rightarrow> ptable \<Rightarrow> err + (string \<times> bool) list" where
  "Partitions f tab ps =
     (case f of
        NoFault \<Rightarrow> Inr (sort_key fst (map (\<lambda>p. (pt_name p, pt_default p)) ps))
      | FailBefore e \<Rightarrow> Inl (Errorf (''list partitions of '' @ tab @ '': '') e [])
      | FailRows e \<Rightarrow> Inl e
      | FailAfter e \<Rightarrow> Inl e)"

definition rows_of :: "string \<Rightarrow> ptable \<Rightarrow> table" where
  "rows_of name ps = concat (map pt_rows (filter (\<lambda>p. pt_name p = name) ps))"

text \<open>
  The predicate of \<open>partitionExpired\<close>: no row with another status, and the latest \<open>dispatched_at\<close>, or
  minus infinity when there is none, before the window.
\<close>

definition expired_partition :: "duration \<Rightarrow> timestamptz \<Rightarrow> table \<Rightarrow> bool" where
  "expired_partition retention now rs \<longleftrightarrow>
     \<not> (\<exists>r \<in> set rs. r_status r \<noteq> StatusSent)
     \<and> (\<forall>r \<in> set rs. case r_dispatched_at r of None \<Rightarrow> True | Some d \<Rightarrow> d < now - make_interval retention)"

definition drop_partition :: "string \<Rightarrow> ptable \<Rightarrow> ptable" where
  "drop_partition name ps = filter (\<lambda>p. pt_name p \<noteq> name) ps"

text \<open>
  One environment per listed partition: the time of the check and its failure, the rows producers
  insert between the check and the drop, and the failure of the drop.
\<close>

record drop_env =
  de_check_fault :: fault
  de_now :: timestamptz
  de_inserted :: table
  de_drop_fault :: fault

fun drop_loop ::
  "(nat \<Rightarrow> drop_env) \<Rightarrow> duration \<Rightarrow> nat \<Rightarrow> (string \<times> bool) list \<Rightarrow> ptable \<Rightarrow> string list
   \<Rightarrow> ptable \<times> (err + string list)" where
  "drop_loop env retention k [] ps dropped = (ps, Inr dropped)"
| "drop_loop env retention k ((name, is_default) # parts) ps dropped =
     (if is_default then drop_loop env retention (Suc k) parts ps dropped
      else
        (case de_check_fault (env k) of
           NoFault \<Rightarrow>
             (let ps1 = fold insert_into (de_inserted (env k)) ps in
              if \<not> expired_partition retention (de_now (env k)) (rows_of name ps)
              then drop_loop env retention (Suc k) parts ps1 dropped
              else
                (case de_drop_fault (env k) of
                   NoFault \<Rightarrow>
                     drop_loop env retention (Suc k) parts (drop_partition name ps1) (dropped @ [name])
                 | FailAfter e \<Rightarrow>
                     (drop_partition name ps1, Inl (Errorf (''drop partition '' @ name @ '': '') e []))
                 | FailBefore e \<Rightarrow> (ps1, Inl (Errorf (''drop partition '' @ name @ '': '') e []))
                 | FailRows e \<Rightarrow> (ps1, Inl (Errorf (''drop partition '' @ name @ '': '') e []))))
         | FailBefore e \<Rightarrow> (ps, Inl (Errorf (''check whether partition '' @ name @ '' is spent: '') e []))
         | FailRows e \<Rightarrow> (ps, Inl (Errorf (''check whether partition '' @ name @ '' is spent: '') e []))
         | FailAfter e \<Rightarrow> (ps, Inl (Errorf (''check whether partition '' @ name @ '' is spent: '') e []))))"

definition DropExpiredPartitions ::
  "fault \<Rightarrow> string \<Rightarrow> (nat \<Rightarrow> drop_env) \<Rightarrow> duration \<Rightarrow> ptable \<Rightarrow> ptable \<times> (err + string list)" where
  "DropExpiredPartitions f tab env retention ps =
     (if retention \<le> 0 then (ps, Inr [])
      else
        (case Partitions f tab ps of
           Inl e \<Rightarrow> (ps, Inl e)
         | Inr parts \<Rightarrow> drop_loop env retention 0 parts ps []))"

definition DefaultPartitionRows :: "fault \<Rightarrow> string \<Rightarrow> fault \<Rightarrow> ptable \<Rightarrow> err + int" where
  "DefaultPartitionRows f tab g ps =
     (case Partitions f tab ps of
        Inl e \<Rightarrow> Inl e
      | Inr parts \<Rightarrow>
         (case find snd parts of
            None \<Rightarrow> Inr 0
          | Some (name, _) \<Rightarrow>
             (case g of
                NoFault \<Rightarrow> Inr (int (length (rows_of name ps)))
              | FailBefore e \<Rightarrow> Inl (Errorf (''count rows in '' @ name @ '': '') e [])
              | FailRows e \<Rightarrow> Inl (Errorf (''count rows in '' @ name @ '': '') e [])
              | FailAfter e \<Rightarrow> Inl (Errorf (''count rows in '' @ name @ '': '') e []))))"

text \<open>A default partition and one day without rows, for the witnesses.\<close>

definition demo_parts :: ptable where
  "demo_parts = [\<lparr>pt_name = ''messages_default'', pt_default = True, pt_day = 0, pt_rows = []\<rparr>,
     \<lparr>pt_name = ''messages_20260101'', pt_default = False, pt_day = 7, pt_rows = []\<rparr>]"

definition demo_days :: "row \<Rightarrow> ptable" where
  "demo_days r = map (\<lambda>p. if pt_default p then p else p\<lparr>pt_rows := [r]\<rparr>) demo_parts"

definition quiet_drop :: "timestamptz \<Rightarrow> nat \<Rightarrow> drop_env" where
  "quiet_drop now k = \<lparr>de_check_fault = NoFault, de_now = now, de_inserted = [], de_drop_fault = NoFault\<rparr>"

subsection \<open>Lemmas\<close>

lemma all_rows_Nil [simp]: "all_rows [] = []"
  and all_rows_Cons [simp]: "all_rows (p # ps) = pt_rows p @ all_rows ps"
  by (simp_all add: all_rows_def)

lemma all_rows_spread: "length t = length (all_rows ps) \<Longrightarrow> all_rows (spread t ps) = t"
  by (induction ps arbitrary: t) simp_all

lemma spread_all_rows: "spread (all_rows ps) ps = ps"
  by (induction ps) simp_all

lemma rows_of_mem: "r \<in> set (rows_of name ps) \<longleftrightarrow> (\<exists>p \<in> set ps. pt_name p = name \<and> r \<in> set (pt_rows p))"
  by (auto simp: rows_of_def)

lemma all_rows_mem: "r \<in> set (all_rows ps) \<longleftrightarrow> (\<exists>p \<in> set ps. r \<in> set (pt_rows p))"
  by (auto simp: all_rows_def)

lemma all_rows_rows_of: "r \<in> set (all_rows ps) \<longleftrightarrow> (\<exists>name. r \<in> set (rows_of name ps))"
  by (auto simp: all_rows_mem rows_of_mem)

lemma rows_of_map_rows:
  "r \<in> set (rows_of name (map (\<lambda>p. if pt_name p = n then p\<lparr>pt_rows := pt_rows p @ [r']\<rparr> else p) ps))
   \<longleftrightarrow> r \<in> set (rows_of name ps) \<or> r = r' \<and> name = n \<and> n \<in> pt_name ` set ps"
  by (induction ps) (auto simp: rows_of_def)

lemma insert_into_keeps: "r \<in> set (rows_of name ps) \<Longrightarrow> r \<in> set (rows_of name (insert_into r' ps))"
  by (simp add: insert_into_def rows_of_map_rows split: option.splits)

lemma inserts_keep: "r \<in> set (rows_of name ps) \<Longrightarrow> r \<in> set (rows_of name (fold insert_into rs ps))"
  by (induction rs arbitrary: ps) (auto simp: insert_into_keeps)

lemma rows_of_drop: "set (rows_of n (drop_partition name ps)) = (if n = name then {} else set (rows_of n ps))"
  by (induction ps) (auto simp: rows_of_def drop_partition_def)

lemma create_partition_keeps: "create_partition name day ps = Inr ps' \<Longrightarrow> set (all_rows ps') = set (all_rows ps)"
  by (auto simp: create_partition_def all_rows_def split: if_splits)

lemma ensure_loop_keeps:
  "ensure_loop fs schema tab today i n ps created = (ps', res) \<Longrightarrow> set (all_rows ps') = set (all_rows ps)"
  by (induction fs schema tab today i n ps created rule: ensure_loop.induct)
    (auto simp: Let_def dest: create_partition_keeps split: fault.splits sum.splits)

text \<open>A row that a drop takes away, and that was there when its partition was checked, passed the check.\<close>

lemma dropped_row_checked:
  assumes "expired_partition retention now (rows_of name ps)" and "r \<in> set (all_rows ps)"
    and "r \<notin> set (all_rows (drop_partition name (fold insert_into rs ps)))"
  shows "r_status r = StatusSent \<and> (\<forall>d. r_dispatched_at r = Some d \<longrightarrow> d < now - make_interval retention)"
proof -
  obtain n where n: "r \<in> set (rows_of n ps)" using assms(2) by (auto simp: all_rows_rows_of)
  have "n = name"
  proof (rule ccontr)
    assume "n \<noteq> name"
    then have "r \<in> set (rows_of n (drop_partition name (fold insert_into rs ps)))"
      using inserts_keep [OF n] by (simp add: rows_of_drop)
    then show False using assms(3) all_rows_rows_of by blast
  qed
  with n assms(1) show ?thesis by (auto simp: expired_partition_def split: option.splits)
qed

lemma inserts_keep_all: "r \<in> set (all_rows ps) \<Longrightarrow> r \<in> set (all_rows (fold insert_into rs ps))"
  using inserts_keep by (fastforce simp: all_rows_rows_of)

lemma drop_loop_spares:
  assumes "drop_loop env retention k parts ps dropped = (ps', res)"
    and "r \<in> set (all_rows ps)" and "r \<notin> set (all_rows ps')"
  shows "r_status r = StatusSent
    \<and> (\<exists>k. \<forall>d. r_dispatched_at r = Some d \<longrightarrow> d < de_now (env k) - make_interval retention)"
  using assms
proof (induction env retention k parts ps dropped rule: drop_loop.induct)
  case (2 env retention k name is_default parts ps dropped)
  let ?ps1 = "fold insert_into (de_inserted (env k)) ps"
  show ?case
  proof (cases "r \<in> set (all_rows (drop_partition name ?ps1))")
    case True
    moreover have "r \<in> set (all_rows ?ps1)" using 2(5) by (rule inserts_keep_all)
    ultimately show ?thesis
      using 2 by (auto simp: Let_def split: if_splits fault.splits)
  next
    case False
    have kept: "r \<in> set (all_rows ?ps1)" using 2(5) by (rule inserts_keep_all)
    show ?thesis
    proof (cases "expired_partition retention (de_now (env k)) (rows_of name ps)")
      case True
      then show ?thesis
        using dropped_row_checked [OF True 2(5) False] by blast
    next
      case no: False
      then show ?thesis using 2 kept by (auto simp: Let_def split: if_splits fault.splits)
    qed
  qed
qed auto

text \<open>Nothing but the rows that were inserted meanwhile is new after the loop.\<close>

lemma insert_into_adds: "x \<in> set (all_rows (insert_into r ps)) \<Longrightarrow> x \<in> set (all_rows ps) \<or> x = r"
  by (auto simp: all_rows_rows_of insert_into_def rows_of_map_rows split: option.splits)

lemma inserts_add: "x \<in> set (all_rows (fold insert_into rs ps)) \<Longrightarrow> x \<in> set (all_rows ps) \<or> x \<in> set rs"
  by (induction rs arbitrary: ps) (auto dest: insert_into_adds)

lemma drop_partition_rows: "x \<in> set (all_rows (drop_partition name ps)) \<Longrightarrow> x \<in> set (all_rows ps)"
  by (auto simp: all_rows_mem drop_partition_def)

lemma drop_loop_adds:
  assumes "drop_loop env retention k parts ps dropped = (ps', res)" and "r \<in> set (all_rows ps')"
  shows "r \<in> set (all_rows ps) \<or> (\<exists>k. r \<in> set (de_inserted (env k)))"
  using assms
  by (induction env retention k parts ps dropped rule: drop_loop.induct)
    (fastforce simp: Let_def dest: inserts_add drop_partition_rows split: if_splits fault.splits)+

text \<open>No empty day passes the check, so without new rows none is left behind.\<close>

lemma empty_day_expired: "rows_of name ps = [] \<Longrightarrow> expired_partition retention now (rows_of name ps)"
  by (simp add: expired_partition_def)

lemma drop_loop_subset:
  assumes "drop_loop env retention k parts ps dropped = (ps', Inr out)" and "\<And>k. de_inserted (env k) = []"
  shows "set ps' \<subseteq> set ps"
  using assms
  by (induction env retention k parts ps dropped rule: drop_loop.induct)
    (auto simp: Let_def drop_partition_def split: if_splits fault.splits)

definition names_ok :: "ptable \<Rightarrow> bool" where
  "names_ok ps \<longleftrightarrow> distinct (map pt_name ps)"

lemma rows_of_named: "names_ok ps \<Longrightarrow> p \<in> set ps \<Longrightarrow> rows_of (pt_name p) ps = pt_rows p"
proof (induction ps)
  case (Cons q ps)
  have "filter (\<lambda>x. pt_name x = pt_name q) ps = []" using Cons.prems(1) by (simp add: names_ok_def filter_empty_conv) (metis imageI)
  then show ?case using Cons by (auto simp: names_ok_def rows_of_def)
qed simp

lemma drop_loop_empties:
  assumes "drop_loop env retention k parts ps dropped = (ps', Inr out)" and "\<And>k. de_inserted (env k) = []"
    and "names_ok ps" and "p \<in> set ps" and "(pt_name p, False) \<in> set parts" and "pt_rows p = []"
  shows "p \<notin> set ps'"
  using assms
proof (induction env retention k parts ps dropped rule: drop_loop.induct)
  case (2 env retention k name is_default parts ps dropped)
  have ok: "names_ok (drop_partition name ps)"
    using 2(6) by (auto simp: names_ok_def drop_partition_def distinct_map_filter)
  show ?case
  proof (cases "name = pt_name p \<and> \<not> is_default")
    case True
    then have "expired_partition retention (de_now (env k)) (rows_of name ps)"
      using rows_of_named [OF 2(6) 2(7)] 2(9) by (simp add: expired_partition_def)
    then have "\<exists>k' parts' dropped'. drop_loop env retention k' parts' (drop_partition name ps) dropped' = (ps', Inr out)"
      using True 2(4,5) by (auto simp: Let_def split: fault.splits)
    then have "set ps' \<subseteq> set (drop_partition name ps)" using drop_loop_subset 2(5) by blast
    then show ?thesis using True by (auto simp: drop_partition_def)
  next
    case False
    have mem: "(pt_name p, False) \<in> set parts" using False 2(8) by auto
    have gone: "p \<notin> set (drop_partition name ps) \<Longrightarrow> set ps' \<subseteq> set (drop_partition name ps) \<Longrightarrow> p \<notin> set ps'" by auto
    show ?thesis
      using 2 mem ok gone drop_loop_subset
      by (cases "p \<in> set (drop_partition name ps)") (auto simp: Let_def split: if_splits fault.splits)
  qed
qed simp

text \<open>What the catalogue guarantees: names are unique, and a row lies within its partition's bounds.\<close>

definition parts_ok :: "ptable \<Rightarrow> bool" where
  "parts_ok ps \<longleftrightarrow> names_ok ps
     \<and> (\<forall>p \<in> set ps. \<not> pt_default p \<longrightarrow> (\<forall>r \<in> set (pt_rows p). day_of (r_created_at r) = pt_day p))"

lemma create_partition_ok: "create_partition name day ps = Inr ps' \<Longrightarrow> parts_ok ps \<Longrightarrow> parts_ok ps'"
  by (auto simp: create_partition_def parts_ok_def names_ok_def split: if_splits)

lemma ensure_loop_ok: "ensure_loop fs schema tab today i n ps created = (ps', res) \<Longrightarrow> parts_ok ps \<Longrightarrow> parts_ok ps'"
  by (induction fs schema tab today i n ps created rule: ensure_loop.induct)
    (auto simp: Let_def dest: create_partition_ok split: fault.splits sum.splits)

lemma EnsurePartitions_ok: "EnsurePartitions fs schema tab today ahead ps = (ps', res) \<Longrightarrow> parts_ok ps \<Longrightarrow> parts_ok ps'"
  by (auto simp: EnsurePartitions_def Let_def simp del: ensure_loop.simps dest: ensure_loop_ok split: sum.splits)

lemma EnsurePartitions_keeps:
  "EnsurePartitions fs schema tab today ahead ps = (ps', res) \<Longrightarrow> set (all_rows ps') = set (all_rows ps)"
  by (auto simp: EnsurePartitions_def Let_def simp del: ensure_loop.simps dest: ensure_loop_keeps split: sum.splits)

lemma Partitions_mem: "Partitions f tab ps = Inr parts \<Longrightarrow> set parts = (\<lambda>p. (pt_name p, pt_default p)) ` set ps"
  by (auto simp: Partitions_def split: fault.splits)

lemma DropExpired_empties:
  assumes "DropExpiredPartitions f tab env retention ps = (ps', Inr dropped)" and "0 < retention"
    and "\<And>k. de_inserted (env k) = []" and "names_ok ps"
  shows "set ps' \<subseteq> {p \<in> set ps. pt_default p \<or> pt_rows p \<noteq> []}"
proof
  obtain parts where parts: "Partitions f tab ps = Inr parts"
    and loop: "drop_loop env retention 0 parts ps [] = (ps', Inr dropped)"
    using assms(1,2) by (auto simp: DropExpiredPartitions_def split: sum.splits)
  fix p assume "p \<in> set ps'"
  moreover from this have "p \<in> set ps" using drop_loop_subset [OF loop assms(3)] by blast
  ultimately show "p \<in> {p \<in> set ps. pt_default p \<or> pt_rows p \<noteq> []}"
    using drop_loop_empties [OF loop assms(3,4)] Partitions_mem [OF parts] by force
qed

text \<open>Without failures both halves of the sweep succeed.\<close>

lemma quiet_drop_loop: "\<exists>ps' out. drop_loop (quiet_drop now) retention k parts ps dropped = (ps', Inr out)"
  by (induction "quiet_drop now" retention k parts ps dropped rule: drop_loop.induct)
    (simp_all add: quiet_drop_def Let_def)

lemma quiet_drop_ok:
  "0 < retention \<Longrightarrow> \<exists>ps' out. DropExpiredPartitions NoFault tab (quiet_drop now) retention ps = (ps', Inr out)"
  using quiet_drop_loop by (simp add: DropExpiredPartitions_def Partitions_def)

subsection \<open>Properties\<close>

text \<open>
  C19.  Dropping partitions never loses an undelivered message: a row of the table that is gone after
  \<open>DropExpiredPartitions\<close> was sent, and was dispatched before the retention window of one of the checks
  - whatever failed on the way, and whatever was inserted meanwhile.
\<close>

theorem drop_spares_undelivered:
  assumes "DropExpiredPartitions f tab env retention ps = (ps', res)"
    and "r \<in> set (all_rows ps)" and "r \<notin> set (all_rows ps')"
  shows "r_status r = StatusSent
    \<and> (\<exists>k. \<forall>d. r_dispatched_at r = Some d \<longrightarrow> d < de_now (env k) - make_interval retention)"
  using assms drop_loop_spares
  by (fastforce simp: DropExpiredPartitions_def split: if_splits sum.splits)

theorem drop_spares_undelivered_witness:
  "\<exists>ps'. DropExpiredPartitions NoFault ''outbox.messages'' (quiet_drop 90000000000) 1000 (demo_days demo_sent) = (ps', Inr [''messages_20260101''])
     \<and> demo_sent \<in> set (all_rows (demo_days demo_sent)) \<and> demo_sent \<notin> set (all_rows ps')
     \<and> r_status demo_sent = StatusSent
     \<and> (\<exists>d. r_dispatched_at demo_sent = Some d \<and> d < 90000000000 - make_interval 1000)"
proof -
  have sent: "r_status demo_sent = 2" "\<exists>d. r_dispatched_at demo_sent = Some d \<and> d < 89999999999"
    by (simp_all add: demo_sent_def ack_set_def)
  have drop: "DropExpiredPartitions NoFault ''outbox.messages'' (quiet_drop 90000000000) 1000 (demo_days demo_sent)
    = (drop_partition ''messages_20260101'' (demo_days demo_sent), Inr [''messages_20260101''])"
    using sent by (auto simp: DropExpiredPartitions_def Partitions_def demo_days_def demo_parts_def quiet_drop_def
      rows_of_def expired_partition_def make_interval_def less_eq_char_def)
  have mem: "demo_sent \<in> set (all_rows (demo_days demo_sent))"
    "demo_sent \<notin> set (all_rows (drop_partition ''messages_20260101'' (demo_days demo_sent)))"
    by (simp_all add: all_rows_def demo_days_def demo_parts_def drop_partition_def)
  show ?thesis
    using drop mem drop_spares_undelivered [OF drop mem] sent by (auto simp: quiet_drop_def make_interval_def)
qed

text \<open>
  Retention removes the days that were created ahead.  When a sweep has created the coming days
  and dropped the expired ones, and no row arrived in between, every partition left other than the
  default one holds rows - so a message of a day that had none yet goes to the default partition.
\<close>

lemma sweep_drops_empty_days:
  assumes "EnsurePartitions fs schema tab today ahead ps = (ps1, Inr created)"
    and "DropExpiredPartitions f tab' env retention ps1 = (ps2, Inr dropped)"
    and "0 < retention" and "\<forall>k. de_inserted (env k) = []" and "parts_ok ps"
    and "\<forall>r' \<in> set (all_rows ps). day_of (r_created_at r') \<noteq> day_of (r_created_at r)"
  shows "routed_to r ps2 = map_option pt_name (find pt_default ps2)"
proof -
  have ok: "parts_ok ps1" using EnsurePartitions_ok [OF assms(1,5)] .
  have rows: "set (all_rows ps1) = set (all_rows ps)" using EnsurePartitions_keeps [OF assms(1)] .
  have sub: "set ps2 \<subseteq> {p \<in> set ps1. pt_default p \<or> pt_rows p \<noteq> []}"
    using DropExpired_empties [OF assms(2,3)] assms(4) ok by (simp add: parts_ok_def)
  have "find (\<lambda>p. \<not> pt_default p \<and> pt_day p = day_of (r_created_at r)) ps2 = None"
  proof (unfold find_None_iff, rule notI, elim exE conjE)
    fix p assume p: "p \<in> set ps2" "\<not> pt_default p" "pt_day p = day_of (r_created_at r)"
    then obtain r' where r': "r' \<in> set (pt_rows p)" using sub by (cases "pt_rows p") auto
    have "p \<in> set ps1" using p(1) sub by blast
    with r' p(2) ok have "r' \<in> set (all_rows ps1)" and "day_of (r_created_at r') = pt_day p"
      by (auto simp: all_rows_mem parts_ok_def)
    then show False using assms(6) p(3) rows by simp
  qed
  then show ?thesis by (simp add: routed_to_def)
qed

lemma sweep_drops_empty_days_witness:
  "\<exists>ps1 ps2 created dropped. EnsurePartitions (\<lambda>_. NoFault) ''outbox'' ''messages'' (Inr 739617) 1 [] = (ps1, Inr created)
     \<and> length ps1 = 2 \<and> DropExpiredPartitions NoFault ''outbox.messages'' (quiet_drop 0) 1000 ps1 = (ps2, Inr dropped)
     \<and> routed_to demo_sent ps2 = map_option pt_name (find pt_default ps2)"
proof -
  let ?n = "\<lambda>d. partitionName ''outbox'' ''messages'' d"
  let ?p = "\<lambda>d. \<lparr>pt_name = ?n d, pt_default = False, pt_day = d, pt_rows = []\<rparr>"
  have names: "?n 739617 \<noteq> ?n 739618" by code_simp
  have ensure: "EnsurePartitions (\<lambda>_. NoFault) ''outbox'' ''messages'' (Inr 739617) 1 []
    = ([?p 739617, ?p 739618], Inr [?n 739617, ?n 739618])"
    using names by (simp add: EnsurePartitions_def create_partition_def numeral_2_eq_2 Let_def)
  obtain ps2 dropped where drop: "DropExpiredPartitions NoFault ''outbox.messages'' (quiet_drop 0) 1000
      [?p 739617, ?p 739618] = (ps2, Inr dropped)"
    using quiet_drop_ok [of 1000 "''outbox.messages''" 0] by (metis zero_less_numeral)
  have "routed_to demo_sent ps2 = map_option pt_name (find pt_default ps2)"
    by (rule sweep_drops_empty_days [OF ensure drop]) (auto simp: quiet_drop_def parts_ok_def names_ok_def all_rows_def)
  with ensure drop show ?thesis by (intro exI conjI) auto
qed

end
