(* ===== verification/Dispatch_Janitor.thy ===== *)
theory Dispatch_Janitor
  imports Store_Partition Config_Types
begin

text \<open>
  \<open>internal/dispatch/janitor.go\<close>, with \<open>TryLock\<close> and \<open>idempotent\<close> of \<open>internal/store/store.go\<close>: the
  periodic work that runs on one replica at a time.

  An advisory lock is held by a database session.  The server grants a key to a session unless
  another session holds it, and a session may take a key it holds once more.  What the process does
  not decide - which connection the pool hands out, which calls fail, the clocks, what others do to
  the table - is in the records ending in \<open>_env\<close>.
\<close>

subsection \<open>Events\<close>

record reclaimed_event =
  re_stream :: string
  re_owner :: string
  re_overdue :: duration

record stats_event =
  se_pending :: int
  se_processing :: int
  se_failed :: int
  se_oldest_pending :: duration
  se_deferred :: int

record retention_event =
  rt_deleted :: int

record partitions_event =
  pe_created :: nat
  pe_dropped :: nat
  pe_default_rows :: int

datatype janitor_event =
    EReclaimed reclaimed_event
  | EStats stats_event
  | ERetention retention_event
  | EPartitions partitions_event

subsection \<open>Advisory locks\<close>

text \<open>
  The holds, one entry each: a key and the session that holds it.  The janitor's keys are two numbers, that of
  the migrations is one; PostgreSQL keeps the two kinds apart.
\<close>

type_synonym locks = "((int \<times> int) \<times> nat) list"

record lock_env =
  le_acquire :: "err option"
  le_session :: nat
  le_query :: fault
  le_unlock_fails :: bool

definition pg_try_advisory_lock :: "'k \<Rightarrow> nat \<Rightarrow> ('k \<times> nat) list \<Rightarrow> ('k \<times> nat) list \<times> bool" where
  "pg_try_advisory_lock key session ls =
     (if \<exists>h \<in> set ls. fst h = key \<and> snd h \<noteq> session then (ls, False) else ((key, session) # ls, True))"

text \<open>An error of the query leaves nothing held: the connection it happened on is closed.\<close>

definition TryLock :: "lock_env \<Rightarrow> int \<Rightarrow> int \<Rightarrow> locks \<Rightarrow> locks \<times> (err + bool)" where
  "TryLock le class key ls =
     (case le_acquire le of
        Some e \<Rightarrow> (ls, Inl (Errorf ''acquire connection for advisory lock: '' e []))
      | None \<Rightarrow>
         (case le_query le of
            NoFault \<Rightarrow>
              (case pg_try_advisory_lock (class, key) (le_session le) ls of
                 (ls', acquired) \<Rightarrow> (ls', Inr acquired))
          | FailBefore e \<Rightarrow> (ls, Inl (Errorf ''try advisory lock: '' e []))
          | FailRows e \<Rightarrow> (ls, Inl (Errorf ''try advisory lock: '' e []))
          | FailAfter e \<Rightarrow> (ls, Inl (Errorf ''try advisory lock: '' e []))))"

text \<open>
  The function \<open>TryLock\<close> returns: it unlocks, or, when that call fails, the connection is closed and
  the server frees everything its session held.
\<close>

definition unlock :: "lock_env \<Rightarrow> int \<Rightarrow> int \<Rightarrow> locks \<Rightarrow> locks" where
  "unlock le class key ls =
     (if le_unlock_fails le then filter (\<lambda>h. snd h \<noteq> le_session le) ls
      else remove1 ((class, key), le_session le) ls)"

text \<open>\<open>sync.Once\<close>: the flag says whether the wrapped function has run.\<close>

definition idempotent :: "('w \<Rightarrow> 'w) \<Rightarrow> bool \<times> 'w \<Rightarrow> bool \<times> 'w" where
  "idempotent fn s = (True, if fst s then snd s else fn (snd s))"

definition release_lock :: "lock_env \<Rightarrow> int \<Rightarrow> int \<Rightarrow> bool \<times> locks \<Rightarrow> bool \<times> locks" where
  "release_lock le class key = idempotent (unlock le class key)"

subsection \<open>The janitor\<close>

definition taskReclaim :: int where "taskReclaim = 1"
definition taskRetention :: int where "taskRetention = 3"

record janitor =
  j_cfg :: janitor_config
  j_limit :: int

definition NewJanitor :: "config \<Rightarrow> janitor" where
  "NewJanitor cfg =
     \<lparr>j_cfg = cfg_janitor cfg, j_limit = max (wrap64 (dc_batch_size (cfg_dispatch cfg) * 4)) 100\<rparr>"

definition lockClass :: "janitor \<Rightarrow> int" where
  "lockClass j = jc_lock_key (j_cfg j)"

definition retentionInterval :: "janitor \<Rightarrow> duration" where
  "retentionInterval j =
     (if jc_retention (j_cfg j) \<le> 0 \<or> jc_retention_interval (j_cfg j) \<le> 0 then 3600 * second
      else jc_retention_interval (j_cfg j))"

text \<open>
  \<open>exclusive\<close> runs a task under its lock.  It is written as the sequence of calls it makes, each with
  what follows on its answer, so that replicas can be interleaved between the calls: what is emitted
  and which errors are logged is its outcome, and \<open>defer release()\<close> comes after the task.
\<close>

type_synonym housekeeping = "janitor_event list \<times> err list"

datatype calls =
    Finish housekeeping
  | CallTryLock int int "err + bool \<Rightarrow> calls"
  | CallTask "janitor_event list \<times> err option \<Rightarrow> calls"
  | CallRelease int int calls

definition after_task :: "bool \<Rightarrow> janitor \<Rightarrow> int \<Rightarrow> janitor_event list \<times> err option \<Rightarrow> calls" where
  "after_task ctx_done j task out =
     CallRelease (lockClass j) task
       (Finish (fst out, case snd out of Some x \<Rightarrow> if ctx_done then [] else [x] | None \<Rightarrow> []))"

definition exclusive_calls :: "bool \<Rightarrow> janitor \<Rightarrow> int \<Rightarrow> calls" where
  "exclusive_calls ctx_done j task =
     CallTryLock (lockClass j) task (\<lambda>res.
       case res of
         Inl e \<Rightarrow> Finish ([], [e])
       | Inr acquired \<Rightarrow>
           if \<not> acquired then Finish ([], []) else CallTask (after_task ctx_done j task))"

text \<open>
  One replica making its calls without another in between.  A task may not return, which is \<open>None\<close>.
\<close>

primrec run_calls ::
  "lock_env \<Rightarrow> ('w \<Rightarrow> ('w \<times> janitor_event list \<times> err option) option) \<Rightarrow> calls
   \<Rightarrow> locks \<times> 'w \<Rightarrow> ((locks \<times> 'w) \<times> housekeeping) option" where
  "run_calls le fn (Finish a) s = Some (s, a)"
| "run_calls le fn (CallTryLock class key f) s =
     (let r = TryLock le class key (fst s) in run_calls le fn (f (snd r)) (fst r, snd s))"
| "run_calls le fn (CallTask f) s =
     (case fn (snd s) of
        None \<Rightarrow> None
      | Some out \<Rightarrow> run_calls le fn (f (snd out)) (fst s, fst out))"
| "run_calls le fn (CallRelease class key c) s =
     run_calls le fn c (snd (release_lock le class key (False, fst s)), snd s)"

definition exclusive ::
  "lock_env \<Rightarrow> bool \<Rightarrow> janitor \<Rightarrow> int \<Rightarrow> ('w \<Rightarrow> ('w \<times> janitor_event list \<times> err option) option)
   \<Rightarrow> locks \<times> 'w \<Rightarrow> ((locks \<times> 'w) \<times> housekeeping) option" where
  "exclusive le ctx_done j task fn s = run_calls le fn (exclusive_calls ctx_done j task) s"

subsection \<open>Reclaim and gauges\<close>

text \<open>
  The outbox table is an ordinary table or a partitioned one.  A statement that reads or updates rows
  sees the rows of all partitions and leaves each in its own.
\<close>

datatype outbox = Plain table | Partitioned ptable

fun is_partitioned :: "outbox \<Rightarrow> bool" where
  "is_partitioned (Plain t) = False"
| "is_partitioned (Partitioned ps) = True"

fun contents :: "outbox \<Rightarrow> table" where
  "contents (Plain t) = t"
| "contents (Partitioned ps) = all_rows ps"

fun with_contents :: "table \<Rightarrow> outbox \<Rightarrow> outbox" where
  "with_contents t' (Plain t) = Plain t'"
| "with_contents t' (Partitioned ps) = Partitioned (spread t' ps)"

fun run_outbox :: "stmt list \<Rightarrow> outbox \<Rightarrow> outbox" where
  "run_outbox ss (Plain t) = Plain (run_stmts ss t)"
| "run_outbox ss (Partitioned ps) = Partitioned (run_parts ss ps)"

definition reclaim_task ::
  "fault \<Rightarrow> timestamptz \<Rightarrow> uuid list \<Rightarrow> janitor \<Rightarrow> outbox \<Rightarrow> (outbox \<times> janitor_event list \<times> err option) option" where
  "reclaim_task f now locked j ob =
     (case Reclaim f now locked (nat (j_limit j)) (contents ob) of
        (t', Inl e) \<Rightarrow> Some (with_contents t' ob, [], Some e)
      | (t', Inr rs) \<Rightarrow>
          Some (with_contents t' ob, map (\<lambda>r. EReclaimed \<lparr>re_stream = rc_stream r, re_owner = rc_owner r,
                                        re_overdue = rc_overdue r\<rparr>) rs, None))"

definition ReclaimExpired ::
  "lock_env \<Rightarrow> bool \<Rightarrow> fault \<Rightarrow> timestamptz \<Rightarrow> uuid list \<Rightarrow> janitor \<Rightarrow> locks \<times> outbox
   \<Rightarrow> ((locks \<times> outbox) \<times> housekeeping) option" where
  "ReclaimExpired le ctx_done f now locked j s =
     exclusive le ctx_done j taskReclaim (reclaim_task f now locked j) s"

definition SampleStats :: "bool \<Rightarrow> fault \<Rightarrow> timestamptz \<Rightarrow> table \<Rightarrow> janitor_event list \<times> err list" where
  "SampleStats ctx_done f now t =
     (case Stats f now t of
        Inl e \<Rightarrow> ([], if ctx_done then [] else [e])
      | Inr st \<Rightarrow>
          ([EStats \<lparr>se_pending = st_pending st, se_processing = st_processing st,
                    se_failed = st_failed st, se_oldest_pending = st_oldest_pending st,
                    se_deferred = st_deferred st\<rparr>], []))"

subsection \<open>Retention\<close>

record purge_env =
  pv_before :: "stmt list"
  pv_fault :: fault
  pv_now :: timestamptz
  pv_locked :: "uuid list"
  pv_cancelled :: bool

text \<open>
  The loop of \<open>Sweep\<close>, which stops at a short chunk, an error, or the end of the context during the
  pause between chunks; \<open>None\<close> is a loop that never stops.  PostgreSQL refuses a negative \<open>LIMIT\<close>.
\<close>

definition negative_limit :: err where
  "negative_limit = PgError ''2201W'' ''LIMIT must not be negative''"

datatype sweep_end = Short int | Cancelled | SweepFailed err

definition purge_chunk ::
  "purge_env \<Rightarrow> duration \<Rightarrow> int \<Rightarrow> table \<Rightarrow> table \<times> (err + nat)" where
  "purge_chunk pe retention batch t =
     (let t0 = run_stmts (pv_before pe) t in
      if batch < 0 then (t0, Inl (Errorf ''purge: '' negative_limit []))
      else Purge (pv_fault pe) (pv_now pe) (pv_locked pe) retention (nat batch) t0)"

partial_function (option) sweep_loop ::
  "(nat \<Rightarrow> purge_env) \<Rightarrow> duration \<Rightarrow> int \<Rightarrow> nat \<Rightarrow> int \<Rightarrow> table \<Rightarrow> (table \<times> sweep_end) option" where
  "sweep_loop env retention batch i acc t =
     (case purge_chunk (env i) retention batch t of
        (t', res) \<Rightarrow>
          (case res of
             Inl e \<Rightarrow> Some (t', SweepFailed e)
           | Inr deleted \<Rightarrow>
               if int deleted < batch then Some (t', Short (acc + int deleted))
               else if pv_cancelled (env i) then Some (t', Cancelled)
               else sweep_loop env retention batch (Suc i) (acc + int deleted) t'))"

definition purge_task ::
  "(nat \<Rightarrow> purge_env) \<Rightarrow> janitor \<Rightarrow> table \<Rightarrow> (table \<times> janitor_event list \<times> err option) option" where
  "purge_task env j t =
     (case sweep_loop env (jc_retention (j_cfg j)) (jc_retention_batch (j_cfg j)) 0 0 t of
        None \<Rightarrow> None
      | Some (t', SweepFailed e) \<Rightarrow> Some (t', [], Some e)
      | Some (t', Cancelled) \<Rightarrow> Some (t', [], None)
      | Some (t', Short n) \<Rightarrow>
          Some (t', if 0 < n then [ERetention \<lparr>rt_deleted = n\<rparr>] else [], None))"

record parts_env =
  pa_create :: "nat \<Rightarrow> fault"
  pa_today :: "err + int"
  pa_list :: fault
  pa_drop :: "nat \<Rightarrow> drop_env"
  pa_list_default :: fault
  pa_count :: fault

definition maintainPartitions ::
  "parts_env \<Rightarrow> store \<Rightarrow> janitor \<Rightarrow> ptable \<Rightarrow> ptable \<times> janitor_event list \<times> err option" where
  "maintainPartitions pe st j ps =
     (case EnsurePartitions (pa_create pe) (s_schema st) (s_table_name st) (pa_today pe) (jc_partition_ahead (j_cfg j)) ps of
        (ps1, Inl e) \<Rightarrow> (ps1, [], Some e)
      | (ps1, Inr created) \<Rightarrow>
         (case DropExpiredPartitions (pa_list pe) (s_table st) (pa_drop pe) (jc_retention (j_cfg j)) ps1 of
            (ps2, Inl e) \<Rightarrow> (ps2, [], Some e)
          | (ps2, Inr dropped) \<Rightarrow>
             (case DefaultPartitionRows (pa_list_default pe) (s_table st) (pa_count pe) ps2 of
                Inl e \<Rightarrow> (ps2, [], Some e)
              | Inr orphans \<Rightarrow>
                  (ps2,
                   if dropped = [] \<and> orphans = 0 then []
                   else [EPartitions \<lparr>pe_created = length created, pe_dropped = length dropped,
                                      pe_default_rows = orphans\<rparr>], None))))"

record sweep_env =
  sw_kind :: fault
  sw_purge :: "nat \<Rightarrow> purge_env"
  sw_parts :: parts_env

definition sweep_task ::
  "sweep_env \<Rightarrow> store \<Rightarrow> janitor \<Rightarrow> outbox \<Rightarrow> (outbox \<times> janitor_event list \<times> err option) option" where
  "sweep_task se st j ob =
     (case IsPartitioned (sw_kind se) (s_table st) (is_partitioned ob) of
        Inl e \<Rightarrow> Some (ob, [], Some e)
      | Inr _ \<Rightarrow>
         (case ob of
            Partitioned ps \<Rightarrow>
              (case maintainPartitions (sw_parts se) st j ps of
                 (ps', evs, e) \<Rightarrow> Some (Partitioned ps', evs, e))
          | Plain t \<Rightarrow>
              (case purge_task (sw_purge se) j t of
                 None \<Rightarrow> None
               | Some (t', evs, e) \<Rightarrow> Some (Plain t', evs, e))))"

definition Sweep ::
  "lock_env \<Rightarrow> bool \<Rightarrow> sweep_env \<Rightarrow> store \<Rightarrow> janitor \<Rightarrow> locks \<times> outbox
   \<Rightarrow> ((locks \<times> outbox) \<times> housekeeping) option" where
  "Sweep le ctx_done se st j s =
     (if jc_retention (j_cfg j) \<le> 0 then Some (s, [], [])
      else exclusive le ctx_done j taskRetention (sweep_task se st j) s)"

end
