(* ===== verification/Janitor_Facts.thy ===== *)
theory Janitor_Facts
  imports Dispatch_Janitor
begin

text \<open>
  What the janitor's tasks do: a sweep is a history of purges, it ends, and when it ends undisturbed
  nothing that may be purged is left; a task runs on one replica at a time.
\<close>

subsection \<open>A task under its lock\<close>

lemma exclusive_eq:
  "exclusive le ctx_done j task fn s =
     (case TryLock le (lockClass j) task (fst s) of
        (ls, Inl e) \<Rightarrow> Some ((ls, snd s), [], [e])
      | (ls, Inr False) \<Rightarrow> Some ((ls, snd s), [], [])
      | (ls, Inr True) \<Rightarrow>
         (case fn (snd s) of
            None \<Rightarrow> None
          | Some (w, evs, e) \<Rightarrow>
             Some ((snd (release_lock le (lockClass j) task (False, ls)), w), evs,
                   case e of Some x \<Rightarrow> if ctx_done then [] else [x] | None \<Rightarrow> [])))"
  by (auto simp: exclusive_def exclusive_calls_def after_task_def Let_def split: prod.splits sum.splits bool.splits option.splits)

subsection \<open>One chunk\<close>

lemma purge_length:
  assumes "table_ok t" and "purge_stmt retention limit now locked t = (t', n)"
  shows "length t = length t' + n" and "n = length (doomed_ids retention limit now locked t)"
proof -
  show "n = length (doomed_ids retention limit now locked t)"
    using assms length_filter_ids [OF _ distinct_doomed_ids [OF assms(1)] doomed_ids_subset]
    by (auto simp: purge_stmt_def Let_def table_ok_def)
  show "length t = length t' + n"
    using assms(2) sum_length_filter_compl [of "id_in (doomed_ids retention limit now locked t)" t]
    by (auto simp: purge_stmt_def Let_def)
qed

text \<open>A short chunk took every row that could be purged.\<close>

lemma short_chunk_is_last:
  assumes "table_ok t" and "purge_stmt retention limit now locked t = (t', n)" and "n < limit"
    and "r \<in> set t'"
  shows "\<not> purgeable retention now locked r"
proof
  assume p: "purgeable retention now locked r"
  let ?due = "filter (purgeable retention now locked) t"
  have "length (take limit (sort_key dispatch_order ?due)) < limit"
    using purge_length(2) [OF assms(1,2)] assms(3) by (simp add: doomed_ids_def)
  then have "set (take limit (sort_key dispatch_order ?due)) = set ?due" by (simp add: min_def split: if_splits)
  moreover have "r \<in> set t" and "\<not> id_in (doomed_ids retention limit now locked t) r"
    using assms(2,4) by (auto simp: purge_stmt_def Let_def)
  ultimately show False using p by (simp add: id_in_def doomed_ids_def)
qed

lemma purge_chunk_stmts:
  assumes "purge_chunk pe retention batch t = (t', res)"
  shows "\<exists>ss. t' = run_stmts (pv_before pe @ ss) t
    \<and> set ss \<subseteq> {SPurge retention (nat batch) (pv_now pe) (pv_locked pe)}"
proof -
  let ?s = "SPurge retention (nat batch) (pv_now pe) (pv_locked pe)"
  have "t' = run_stmts (pv_before pe @ []) t \<or> t' = run_stmts (pv_before pe @ [?s]) t"
    using assms by (auto simp: purge_chunk_def Let_def Purge_def query_def run_stmts_append
      split: if_splits fault.splits prod.splits)
  then show ?thesis
  proof
    assume "t' = run_stmts (pv_before pe @ []) t"
    then show ?thesis by (intro exI [of _ "[]"]) simp
  next
    assume "t' = run_stmts (pv_before pe @ [?s]) t"
    then show ?thesis by (intro exI [of _ "[?s]"]) simp
  qed
qed

lemma purge_chunk_ok:
  assumes "table_ok t" and "purge_chunk pe retention batch t = (t', res)"
  shows "table_ok t'"
  using purge_chunk_stmts [OF assms(2)] run_ok [OF assms(1)] by blast

lemma purge_chunk_Inr:
  assumes "purge_chunk pe retention batch t = (t', Inr n)"
  shows "0 \<le> batch \<and> purge_stmt retention (nat batch) (pv_now pe) (pv_locked pe) (run_stmts (pv_before pe) t) = (t', n)"
  using assms by (auto simp: purge_chunk_def Let_def Purge_def query_def split: if_splits fault.splits prod.splits)

subsection \<open>The loop\<close>

text \<open>The statements a sweep contributes to the history of the table.\<close>

definition sweep_stmt :: "(nat \<Rightarrow> purge_env) \<Rightarrow> duration \<Rightarrow> int \<Rightarrow> stmt \<Rightarrow> bool" where
  "sweep_stmt env retention batch s \<longleftrightarrow>
     (\<exists>k. s \<in> set (pv_before (env k)) \<or> s = SPurge retention (nat batch) (pv_now (env k)) (pv_locked (env k)))"

lemma chunk_in_sweep:
  assumes "purge_chunk (env i) retention batch t = (t', res)"
  shows "\<exists>ss. t' = run_stmts ss t \<and> (\<forall>s \<in> set ss. sweep_stmt env retention batch s)"
proof -
  obtain ss where "t' = run_stmts (pv_before (env i) @ ss) t"
    and "set ss \<subseteq> {SPurge retention (nat batch) (pv_now (env i)) (pv_locked (env i))}"
    using purge_chunk_stmts [OF assms] by blast
  then show ?thesis
    by (intro exI [of _ "pv_before (env i) @ ss"]) (auto simp: sweep_stmt_def)
qed

lemma sweep_loop_stmts:
  assumes "sweep_loop env retention batch i acc t = Some (t', e)"
  shows "\<exists>ss. t' = run_stmts ss t \<and> (\<forall>s \<in> set ss. sweep_stmt env retention batch s)"
proof -
  have "(\<lambda>env retention batch i acc t (t', e). \<exists>ss. t' = run_stmts ss t \<and> (\<forall>s \<in> set ss. sweep_stmt env retention batch s))
    env retention batch i acc t (t', e)"
  proof (rule sweep_loop.raw_induct [OF _ assms], goal_cases)
    case (1 f env retention batch i acc t r)
    obtain t1 res where c: "purge_chunk (env i) retention batch t = (t1, res)" by fastforce
    obtain ss where ss: "t1 = run_stmts ss t" "\<forall>s \<in> set ss. sweep_stmt env retention batch s"
      using chunk_in_sweep [of env i, OF c] by blast
    show ?case
    proof (cases "\<exists>n. res = Inr n \<and> f env retention batch (Suc i) (acc + int n) t1 = Some r")
      case True
      then obtain ss' where "fst r = run_stmts ss' t1" "\<forall>s \<in> set ss'. sweep_stmt env retention batch s"
        using 1(1) by (cases r) fastforce
      with ss show ?thesis
        by (cases r) (auto intro!: exI [of _ "ss @ ss'"] simp: run_stmts_append)
    next
      case False
      then have "fst r = t1" using 1(2) c by (auto split: sum.splits if_splits)
      with ss show ?thesis by (cases r) auto
    qed
  qed
  then show ?thesis by simp
qed

text \<open>
  The loop ends once the others leave the table alone: from then on every full chunk removes at least
  one row.
\<close>

lemma sweep_loop_ends_quiet:
  assumes "table_ok t" and "0 < batch" and "\<And>k. i \<le> k \<Longrightarrow> pv_before (env k) = []"
  shows "\<exists>r. sweep_loop env retention batch i acc t = Some r"
  using assms
proof (induction "length t" arbitrary: t i acc rule: less_induct)
  case less
  obtain t1 res where c: "purge_chunk (env i) retention batch t = (t1, res)" by fastforce
  show ?case
  proof (cases "\<exists>n. res = Inr n \<and> batch \<le> int n")
    case True
    then obtain n where n: "res = Inr n" "batch \<le> int n" by blast
    have "length t = length t1 + n"
      using purge_length(1) [OF less.prems(1)] purge_chunk_Inr c n less.prems(3) [of i] by fastforce
    then have "\<exists>r. sweep_loop env retention batch (Suc i) (acc + int n) t1 = Some r"
      using less.hyps [of t1 "Suc i"] purge_chunk_ok [OF less.prems(1) c] less.prems(2,3) n by simp
    then show ?thesis using c n by (subst sweep_loop.simps) simp
  next
    case False
    then show ?thesis using c by (subst sweep_loop.simps) (auto split: sum.splits)
  qed
qed

lemma sweep_loop_ends:
  assumes "table_ok t" and "0 < batch" and "\<And>k. K \<le> k \<Longrightarrow> pv_before (env k) = []"
  shows "\<exists>r. sweep_loop env retention batch i acc t = Some r"
  using assms(1)
proof (induction "K - i" arbitrary: i acc t)
  case 0
  then show ?case using sweep_loop_ends_quiet [of t batch i env] assms(2,3) by auto
next
  case (Suc d)
  obtain t1 res where c: "purge_chunk (env i) retention batch t = (t1, res)" by fastforce
  have "\<exists>r. sweep_loop env retention batch (Suc i) acc' t1 = Some r" for acc'
    using Suc.hyps(1) [of "Suc i"] Suc.hyps(2) purge_chunk_ok [OF Suc.prems c] by simp
  then show ?case using c by (subst sweep_loop.simps) (auto split: sum.splits)
qed

text \<open>An undisturbed sweep: no failure, no cancellation, nobody else's statements or locks.\<close>

definition undisturbed_sweep :: "(nat \<Rightarrow> purge_env) \<Rightarrow> bool" where
  "undisturbed_sweep env \<longleftrightarrow>
     (\<forall>k. pv_before (env k) = [] \<and> pv_fault (env k) = NoFault \<and> pv_locked (env k) = [] \<and> \<not> pv_cancelled (env k))"

lemma sweep_loop_complete:
  assumes "table_ok t" and "0 < batch" and "undisturbed_sweep env"
    and "sweep_loop env retention batch i acc t = Some (t', e)"
  shows "e = Short (acc + int (length t) - int (length t')) \<and> length t' \<le> length t
    \<and> (\<exists>n \<ge> i. \<forall>r \<in> set t'. \<not> purgeable retention (pv_now (env n)) [] r)"
  using assms(1,4)
proof (induction "length t" arbitrary: t i acc rule: less_induct)
  case less
  have env: "pv_before (env i) = []" "pv_fault (env i) = NoFault" "pv_locked (env i) = []" "\<not> pv_cancelled (env i)"
    using assms(3) by (auto simp: undisturbed_sweep_def)
  obtain t1 n where p: "purge_stmt retention (nat batch) (pv_now (env i)) [] t = (t1, n)" by fastforce
  have c: "purge_chunk (env i) retention batch t = (t1, Inr n)"
    using env p assms(2) by (simp add: purge_chunk_def Purge_def query_def)
  have len: "length t = length t1 + n" using purge_length(1) [OF less.prems(1) p] .
  show ?case
  proof (cases "int n < batch")
    case True
    then have "t' = t1" "e = Short (acc + int n)"
      using less.prems(2) c by (simp_all add: sweep_loop.simps [of env retention batch i])
    moreover have "\<forall>r \<in> set t1. \<not> purgeable retention (pv_now (env i)) [] r"
      using short_chunk_is_last [OF less.prems(1) p] True by auto
    ultimately show ?thesis using len by auto
  next
    case False
    then have "sweep_loop env retention batch (Suc i) (acc + int n) t1 = Some (t', e)"
      using less.prems(2) c env(4) by (simp add: sweep_loop.simps [of env retention batch i])
    moreover have "length t1 < length t" using False assms(2) len by simp
    ultimately have "e = Short (acc + int n + int (length t1) - int (length t')) \<and> length t' \<le> length t1
      \<and> (\<exists>m \<ge> Suc i. \<forall>r \<in> set t'. \<not> purgeable retention (pv_now (env m)) [] r)"
      using less.hyps [of t1] purge_chunk_ok [OF less.prems(1) c] by blast
    then show ?thesis using len Suc_leD by fastforce
  qed
qed

end
