(* ===== verification/Janitor_Safety.thy ===== *)
theory Janitor_Safety
  imports Janitor_Facts
begin

text \<open>
  The janitors of several replicas together: a step relation over the advisory locks, and the
  properties of the janitor's tasks.
\<close>

subsection \<open>Several replicas\<close>

text \<open>
  Every replica runs the calls of \<open>exclusive\<close>, one task at a time, and between any two of its calls
  the others make theirs.  A busy replica has the connection its lock is taken on, a flag saying whether that
  connection was lost, and the calls still to make; it is inside the task while the next call is
  \<open>CallTask\<close>.  The pool hands a connection to one goroutine at a time.

  The session of a connection can end at any moment - the server restarts, an administrator
  terminates it, the network drops - and with it the locks it held; the task notices nothing, since its
  statements run on other connections of the pool.  Later queries on the lost connection fail.  A
  replica can also die, and its session end with it or linger until the server notices.
\<close>

datatype replica = Idle | Busy int lock_env bool calls

record cluster =
  cl_locks :: locks
  cl_replica :: "nat \<Rightarrow> replica"

definition end_session :: "nat \<Rightarrow> locks \<Rightarrow> locks" where
  "end_session x ls = filter (\<lambda>h. snd h \<noteq> x) ls"

inductive cluster_step :: "(nat \<Rightarrow> janitor) \<Rightarrow> cluster \<Rightarrow> cluster \<Rightarrow> bool" for jan where
  Begin: "cl_replica s i = Idle \<Longrightarrow>
    (\<And>j task' le' lost c. cl_replica s j = Busy task' le' lost c \<Longrightarrow> le_session le' \<noteq> le_session le) \<Longrightarrow>
    cluster_step jan s
      (s\<lparr>cl_replica := (cl_replica s)(i := Busy task le False (exclusive_calls ctx_done (jan i) task))\<rparr>)"
| Locking: "cl_replica s i = Busy task le lost (CallTryLock class key f) \<Longrightarrow>
    TryLock le class key (cl_locks s) = (ls, res) \<Longrightarrow>
    cluster_step jan s (s\<lparr>cl_locks := ls, cl_replica := (cl_replica s)(i := Busy task le lost (f res))\<rparr>)"
| Working: "cl_replica s i = Busy task le lost (CallTask f) \<Longrightarrow>
    cluster_step jan s (s\<lparr>cl_replica := (cl_replica s)(i := Busy task le lost (f out))\<rparr>)"
| Releasing: "cl_replica s i = Busy task le lost (CallRelease class key c) \<Longrightarrow>
    cluster_step jan s
      (s\<lparr>cl_locks := snd (release_lock le class key (False, cl_locks s)),
         cl_replica := (cl_replica s)(i := Busy task le lost c)\<rparr>)"
| Finished: "cl_replica s i = Busy task le lost (Finish out) \<Longrightarrow>
    cluster_step jan s (s\<lparr>cl_replica := (cl_replica s)(i := Idle)\<rparr>)"
| Lost: "cl_replica s i = Busy task le lost c \<Longrightarrow>
    cluster_step jan s
      (s\<lparr>cl_locks := end_session (le_session le) (cl_locks s),
         cl_replica := (cl_replica s)
           (i := Busy task (le\<lparr>le_query := FailBefore e, le_unlock_fails := True\<rparr>) True c)\<rparr>)"
| Died: "cl_replica s i = Busy task le lost c \<Longrightarrow>
    cluster_step jan s (s\<lparr>cl_replica := (cl_replica s)(i := Idle)\<rparr>)"
| Reaped: "(\<And>j task le lost c. cl_replica s j = Busy task le lost c \<Longrightarrow> le_session le \<noteq> x) \<Longrightarrow>
    cluster_step jan s (s\<lparr>cl_locks := end_session x (cl_locks s)\<rparr>)"

inductive cluster_reach :: "(nat \<Rightarrow> janitor) \<Rightarrow> cluster \<Rightarrow> bool" for jan where
  Start: "cluster_reach jan \<lparr>cl_locks = [], cl_replica = (\<lambda>_. Idle)\<rparr>"
| Step: "cluster_reach jan s \<Longrightarrow> cluster_step jan s s' \<Longrightarrow> cluster_reach jan s'"

text \<open>The points \<open>exclusive\<close> can be at: before the lock, in the task, before the release, and done.\<close>

definition holding :: "janitor \<Rightarrow> int \<Rightarrow> calls \<Rightarrow> bool" where
  "holding j task c \<longleftrightarrow>
     (\<exists>d. c = CallTask (after_task d j task)) \<or> (\<exists>a. c = CallRelease (lockClass j) task (Finish a))"

definition at_point :: "janitor \<Rightarrow> int \<Rightarrow> calls \<Rightarrow> bool" where
  "at_point j task c \<longleftrightarrow> (\<exists>d. c = exclusive_calls d j task) \<or> holding j task c \<or> (\<exists>a. c = Finish a)"

lemma not_holding [simp]: "\<not> holding j task (Finish a)" "\<not> holding j task (exclusive_calls d j' task')"
  by (simp_all add: holding_def exclusive_calls_def)

definition points_ok :: "(nat \<Rightarrow> janitor) \<Rightarrow> cluster \<Rightarrow> bool" where
  "points_ok jan s \<longleftrightarrow> (\<forall>i task le lost c. cl_replica s i = Busy task le lost c \<longrightarrow> at_point (jan i) task c)"

definition workers_hold :: "(nat \<Rightarrow> janitor) \<Rightarrow> cluster \<Rightarrow> bool" where
  "workers_hold jan s \<longleftrightarrow>
     (\<forall>i task le c. cl_replica s i = Busy task le False c \<longrightarrow> holding (jan i) task c \<longrightarrow>
        ((lockClass (jan i), task), le_session le) \<in> set (cl_locks s))"

definition sessions_distinct :: "cluster \<Rightarrow> bool" where
  "sessions_distinct s \<longleftrightarrow>
     (\<forall>i j task task' le le' lost lost' c c'. cl_replica s i = Busy task le lost c \<longrightarrow>
        cl_replica s j = Busy task' le' lost' c' \<longrightarrow> le_session le = le_session le' \<longrightarrow> i = j)"

definition locks_exclusive :: "locks \<Rightarrow> bool" where
  "locks_exclusive ls \<longleftrightarrow> (\<forall>h \<in> set ls. \<forall>h' \<in> set ls. fst h = fst h' \<longrightarrow> snd h = snd h')"

definition cluster_inv :: "(nat \<Rightarrow> janitor) \<Rightarrow> cluster \<Rightarrow> bool" where
  "cluster_inv jan s \<longleftrightarrow>
     points_ok jan s \<and> workers_hold jan s \<and> sessions_distinct s \<and> locks_exclusive (cl_locks s)"

lemma points_okD: "points_ok jan s \<Longrightarrow> cl_replica s i = Busy task le lost c \<Longrightarrow> at_point (jan i) task c"
  by (simp add: points_ok_def)

lemma workers_holdD:
  "workers_hold jan s \<Longrightarrow> cl_replica s i = Busy task le False c \<Longrightarrow> holding (jan i) task c \<Longrightarrow>
   ((lockClass (jan i), task), le_session le) \<in> set (cl_locks s)"
  by (simp add: workers_hold_def)

lemma sessions_distinctD:
  "sessions_distinct s \<Longrightarrow> cl_replica s i = Busy task le lost c \<Longrightarrow> cl_replica s j = Busy task' le' lost' c' \<Longrightarrow>
   le_session le = le_session le' \<Longrightarrow> i = j"
  unfolding sessions_distinct_def by blast

lemma locks_exclusiveD: "locks_exclusive ls \<Longrightarrow> (k, x) \<in> set ls \<Longrightarrow> (k, y) \<in> set ls \<Longrightarrow> x = y"
  by (fastforce simp: locks_exclusive_def)

lemma locks_exclusive_subset: "locks_exclusive ls \<Longrightarrow> set ls' \<subseteq> set ls \<Longrightarrow> locks_exclusive ls'"
  unfolding locks_exclusive_def by blast

lemma TryLock_True:
  assumes "TryLock le cls task ls = (ls', Inr True)"
  shows "ls' = ((cls, task), le_session le) # ls"
    and "\<And>h. h \<in> set ls \<Longrightarrow> fst h = (cls, task) \<Longrightarrow> snd h = le_session le"
  using assms
  by (auto simp: TryLock_def pg_try_advisory_lock_def split: option.splits fault.splits if_splits)

lemma TryLock_same: "TryLock le cls task ls = (ls', res) \<Longrightarrow> res \<noteq> Inr True \<Longrightarrow> ls' = ls"
  by (auto simp: TryLock_def pg_try_advisory_lock_def split: option.splits fault.splits if_splits)

lemma unlock_keeps: "h \<in> set ls \<Longrightarrow> snd h \<noteq> le_session le \<Longrightarrow> h \<in> set (unlock le cls task ls)"
  by (cases "h = ((cls, task), le_session le)") (simp_all add: unlock_def)

lemma unlock_subset: "set (unlock le cls task ls) \<subseteq> set ls"
  using set_remove1_subset [of "((cls, task), le_session le)" ls] by (auto simp: unlock_def)

lemma release_first: "snd (release_lock le cls task (False, ls)) = unlock le cls task ls"
  by (simp add: release_lock_def idempotent_def)

lemma enter_exclusive:
  assumes "TryLock le cls task ls = (ls', Inr True)" and "locks_exclusive ls"
  shows "locks_exclusive ls'"
proof -
  have "snd h = le_session le" if "h \<in> set ls'" "fst h = (cls, task)" for h
    using TryLock_True(2) [OF assms(1), of h] that by (auto simp: TryLock_True(1) [OF assms(1)])
  then show ?thesis
    using assms(2) unfolding TryLock_True(1) [OF assms(1)] locks_exclusive_def
    by (metis fst_conv set_ConsD)
qed

text \<open>
  A step of one replica.  It keeps the invariant when the replica is where \<open>exclusive\<close> can be, holds its
  lock if it is past it, and the locks of other sessions are left alone.
\<close>

lemma cluster_inv_update:
  assumes "cluster_inv jan s" and "cl_replica s i = Busy task le lost c" and "le_session le' = le_session le"
    and "at_point (jan i) task c'" and "locks_exclusive ls"
    and "\<And>h. h \<in> set (cl_locks s) \<Longrightarrow> snd h \<noteq> le_session le \<Longrightarrow> h \<in> set ls"
    and "\<not> lost' \<Longrightarrow> holding (jan i) task c' \<Longrightarrow> ((lockClass (jan i), task), le_session le) \<in> set ls"
  shows "cluster_inv jan (s\<lparr>cl_locks := ls, cl_replica := (cl_replica s)(i := Busy task le' lost' c')\<rparr>)"
    (is "cluster_inv jan ?s")
proof -
  have inv: "points_ok jan s" "workers_hold jan s" "sessions_distinct s"
    using assms(1) by (auto simp: cluster_inv_def)
  have "points_ok jan ?s" using inv(1) assms(4) by (simp add: points_ok_def)
  moreover have "sessions_distinct ?s"
    unfolding sessions_distinct_def using assms(2,3) sessions_distinctD [OF inv(3)]
    by (simp split: if_splits) metis
  moreover have "workers_hold jan ?s"
    unfolding workers_hold_def
  proof (intro allI impI)
    fix j task' le'' c'' assume j: "cl_replica ?s j = Busy task' le'' False c''" "holding (jan j) task' c''"
    show "((lockClass (jan j), task'), le_session le'') \<in> set (cl_locks ?s)"
    proof (cases "j = i")
      case True
      with j assms(3,7) show ?thesis by simp
    next
      case False
      with j(1) have b: "cl_replica s j = Busy task' le'' False c''" by simp
      then have "le_session le'' \<noteq> le_session le" using sessions_distinctD [OF inv(3) b assms(2)] False by blast
      with assms(6) workers_holdD [OF inv(2) b j(2)] show ?thesis by simp
    qed
  qed
  ultimately show ?thesis using assms(5) by (simp add: cluster_inv_def)
qed

lemma cluster_inv_idle:
  assumes "cluster_inv jan s"
  shows "cluster_inv jan (s\<lparr>cl_replica := (cl_replica s)(i := Idle)\<rparr>)"
  using assms unfolding cluster_inv_def points_ok_def workers_hold_def sessions_distinct_def
  by (auto split: if_splits)

lemma at_point_cases:
  assumes "at_point j task (CallTryLock cls key f)"
  shows "cls = lockClass j \<and> key = task \<and> (\<forall>res. (res = Inr True \<and> holding j task (f res)) \<or> (res \<noteq> Inr True \<and> (\<exists>a. f res = Finish a)))"
proof -
  from assms obtain d where "CallTryLock cls key f = exclusive_calls d j task" by (auto simp: at_point_def holding_def)
  then show ?thesis by (auto simp: exclusive_calls_def holding_def split: sum.splits)
qed

lemma cluster_inv_step:
  assumes "cluster_step jan s s'" and "cluster_inv jan s"
  shows "cluster_inv jan s'"
  using assms
proof (induction rule: cluster_step.induct)
  case (Begin s i le task d)
  then show ?case
    unfolding cluster_inv_def points_ok_def workers_hold_def sessions_distinct_def
    by (simp add: at_point_def split: if_splits) metis
next
  case (Locking s i task le lost cls key f ls res)
  have "at_point (jan i) task (CallTryLock cls key f)" "locks_exclusive (cl_locks s)"
    using Locking(1,3) points_okD by (auto simp: cluster_inv_def)
  note p = at_point_cases [OF this(1)] and excl = this(2)
  show ?case
  proof (cases "res = Inr True")
    case True
    then have t: "TryLock le (lockClass (jan i)) task (cl_locks s) = (ls, Inr True)" using p Locking(2) by simp
    show ?thesis
      by (rule cluster_inv_update [OF Locking(3,1)])
        (use p True TryLock_True(1) [OF t] enter_exclusive [OF t excl] in \<open>auto simp: at_point_def\<close>)
  next
    case False
    with p obtain a where "f res = Finish a" by blast
    then show ?thesis
      by (intro cluster_inv_update [OF Locking(3,1)])
        (use excl TryLock_same [OF Locking(2) False] in \<open>auto simp: at_point_def\<close>)
  qed
next
  case (Working s i task le lost f out)
  then have "at_point (jan i) task (CallTask f)" using points_okD by (auto simp: cluster_inv_def)
  then have h: "holding (jan i) task (CallTask f)" "holding (jan i) task (f out)"
    by (auto simp: at_point_def exclusive_calls_def holding_def after_task_def)
  have "cluster_inv jan (s\<lparr>cl_locks := cl_locks s, cl_replica := (cl_replica s)(i := Busy task le lost (f out))\<rparr>)"
    by (rule cluster_inv_update [OF Working(2,1)])
      (use Working h workers_holdD [of jan s i task le] in \<open>auto simp: at_point_def cluster_inv_def\<close>)
  then show ?case by simp
next
  case (Releasing s i task le lost cls key c)
  then have "at_point (jan i) task (CallRelease cls key c)" using points_okD by (auto simp: cluster_inv_def)
  then obtain a where "c = Finish a" by (auto simp: at_point_def exclusive_calls_def holding_def)
  then show ?case
    by (intro cluster_inv_update [OF Releasing(2,1)])
      (use Releasing(2) locks_exclusive_subset [OF _ unlock_subset [of le cls key "cl_locks s"]]
        in \<open>auto simp: at_point_def release_first unlock_keeps cluster_inv_def\<close>)
next
  case (Lost s i task le lost c e)
  then have "at_point (jan i) task c" using points_okD by (auto simp: cluster_inv_def)
  then show ?case
    by (intro cluster_inv_update [OF Lost(2,1)])
      (use Lost(2) locks_exclusive_subset [of "cl_locks s" "end_session (le_session le) (cl_locks s)"]
        in \<open>auto simp: end_session_def cluster_inv_def\<close>)
next
  case (Reaped s x)
  have "workers_hold jan (s\<lparr>cl_locks := end_session x (cl_locks s)\<rparr>)"
    using Reaped workers_holdD [of jan s] by (auto simp: workers_hold_def end_session_def cluster_inv_def)
  then show ?case
    using Reaped(2) locks_exclusive_subset [of "cl_locks s" "end_session x (cl_locks s)"]
    by (auto simp: cluster_inv_def points_ok_def sessions_distinct_def end_session_def)
qed (simp_all add: cluster_inv_idle)

lemma cluster_reach_inv: "cluster_reach jan s \<Longrightarrow> cluster_inv jan s"
proof (induction rule: cluster_reach.induct)
  case Start
  then show ?case
    by (simp add: cluster_inv_def points_ok_def workers_hold_def sessions_distinct_def locks_exclusive_def)
qed (rule cluster_inv_step)

lemma sweep_returns:
  assumes "table_ok t" and "0 < jc_retention (j_cfg j) \<longrightarrow> 0 < jc_retention_batch (j_cfg j)"
    and "\<forall>k \<ge> K. pv_before (sw_purge se k) = []"
  shows "Sweep le ctx_done se st j (ls, Plain t) \<noteq> None"
proof (cases "jc_retention (j_cfg j) \<le> 0")
  case False
  obtain r where "sweep_loop (sw_purge se) (jc_retention (j_cfg j)) (jc_retention_batch (j_cfg j)) 0 0 t = Some r"
    using sweep_loop_ends [OF assms(1), of "jc_retention_batch (j_cfg j)" K "sw_purge se"] assms(2,3) False by fastforce
  then have "sweep_task se st j (Plain t) \<noteq> None"
    by (auto simp: sweep_task_def purge_task_def split: sum.splits sweep_end.splits prod.splits)
  then show ?thesis
    using False by (auto simp: Sweep_def exclusive_eq split: prod.splits sum.splits bool.splits)
qed (simp add: Sweep_def)

text \<open>
  The janitor's tasks are histories of the store's own statements: reclaiming is at most one
  \<open>reclaimSQL\<close> bounded by the janitor's limit, and a sweep of an ordinary table is purges with the
  configured retention and batch size among the statements of others.  Every property of histories holds for them.  A
  sweep of a partitioned table takes away rows that were checked, and adds none but those inserted meanwhile.
\<close>

lemma with_contents_same [simp]: "with_contents (contents ob) ob = ob"
  by (cases ob) (simp_all add: spread_all_rows)

lemma with_contents_reclaim:
  "with_contents (exec (SReclaim limit now locked) (contents ob)) ob = run_outbox [SReclaim limit now locked] ob"
  by (cases ob) (simp_all add: run_parts_def)

lemma run_outbox_Nil [simp]: "run_outbox [] ob = ob"
  by (cases ob) (simp_all add: run_parts_def)

lemma reclaim_is_history:
  assumes "ReclaimExpired le ctx_done f now locked j (ls, ob) = Some ((ls1, ob1), out)"
  shows "\<exists>ss. ob1 = run_outbox ss ob \<and> set ss \<subseteq> {SReclaim (nat (j_limit j)) now locked}"
proof -
  let ?s = "SReclaim (nat (j_limit j)) now locked"
  have "ob1 = ob \<or> ob1 = with_contents (contents ob) ob \<or> ob1 = with_contents (exec ?s (contents ob)) ob"
    using assms
    by (auto simp: ReclaimExpired_def exclusive_eq reclaim_task_def Reclaim_def query_def
      split: prod.splits sum.splits bool.splits fault.splits)
  then have "ob1 = run_outbox [] ob \<or> ob1 = run_outbox [?s] ob"
    unfolding with_contents_reclaim by simp
  then show ?thesis by (metis empty_set list.simps(15) order_refl empty_subsetI)
qed

lemma sweep_is_history:
  assumes "Sweep le ctx_done se st j (ls, Plain t) = Some ((ls1, ob), evs, errs)"
  shows "\<exists>ss t1. ob = Plain t1 \<and> t1 = run_stmts ss t
    \<and> list_all (sweep_stmt (sw_purge se) (jc_retention (j_cfg j)) (jc_retention_batch (j_cfg j))) ss"
proof -
  have "ob = Plain t \<or> (\<exists>t1 e. ob = Plain t1
      \<and> sweep_loop (sw_purge se) (jc_retention (j_cfg j)) (jc_retention_batch (j_cfg j)) 0 0 t = Some (t1, e))"
    using assms
    by (auto simp: Sweep_def exclusive_eq sweep_task_def purge_task_def
      split: if_splits prod.splits sum.splits bool.splits option.splits sweep_end.splits)
  then show ?thesis
  proof
    assume "ob = Plain t"
    then show ?thesis by (intro exI [of _ "[]"] exI [of _ t]) simp
  qed (use sweep_loop_stmts in \<open>fastforce simp: list_all_iff\<close>)
qed

definition partitions_swept :: "sweep_env \<Rightarrow> duration \<Rightarrow> ptable \<Rightarrow> ptable \<Rightarrow> bool" where
  "partitions_swept se retention ps ps' \<longleftrightarrow>
     (\<forall>r \<in> set (all_rows ps). r \<notin> set (all_rows ps') \<longrightarrow>
        0 < retention \<and> r_status r = StatusSent
        \<and> (\<exists>k. \<forall>d. r_dispatched_at r = Some d \<longrightarrow> d < de_now (pa_drop (sw_parts se) k) - make_interval retention))
     \<and> (\<forall>r \<in> set (all_rows ps'). r \<in> set (all_rows ps) \<or> (\<exists>k. r \<in> set (de_inserted (pa_drop (sw_parts se) k))))"

lemma partitions_swept_refl [simp]: "partitions_swept se retention ps ps"
  by (simp add: partitions_swept_def)

lemma drop_swept:
  assumes "set (all_rows ps1) = set (all_rows ps)" and "0 < retention"
    and "DropExpiredPartitions f tab (pa_drop (sw_parts se)) retention ps1 = (ps2, res)"
  shows "partitions_swept se retention ps ps2"
  using assms drop_loop_spares [of "pa_drop (sw_parts se)" retention 0 _ ps1 "[]" ps2 res]
    drop_loop_adds [of "pa_drop (sw_parts se)" retention 0 _ ps1 "[]" ps2 res]
  by (auto simp: DropExpiredPartitions_def partitions_swept_def split: if_splits sum.splits)

lemma maintain_swept:
  assumes "maintainPartitions (sw_parts se) st j ps = (ps', out)" and "0 < jc_retention (j_cfg j)"
  shows "partitions_swept se (jc_retention (j_cfg j)) ps ps'"
proof -
  obtain ps1 res where e: "EnsurePartitions (pa_create (sw_parts se)) (s_schema st) (s_table_name st) (pa_today (sw_parts se))
      (jc_partition_ahead (j_cfg j)) ps = (ps1, res)" by fastforce
  obtain ps2 res2 where d: "DropExpiredPartitions (pa_list (sw_parts se)) (s_table st) (pa_drop (sw_parts se))
      (jc_retention (j_cfg j)) ps1 = (ps2, res2)" by fastforce
  have rows: "set (all_rows ps1) = set (all_rows ps)" using EnsurePartitions_keeps [OF e] .
  have "ps' = ps1 \<or> ps' = ps2"
    using assms(1) e d by (auto simp: maintainPartitions_def split: sum.splits)
  then show ?thesis using drop_swept [OF rows assms(2) d] rows by (auto simp: partitions_swept_def)
qed

lemma sweep_is_maintenance:
  assumes "Sweep le ctx_done se st j (ls, Partitioned ps) = Some ((ls1, ob), out)"
  shows "\<exists>ps'. ob = Partitioned ps' \<and> partitions_swept se (jc_retention (j_cfg j)) ps ps'"
proof -
  have "ob = Partitioned ps \<or> (0 < jc_retention (j_cfg j)
      \<and> (\<exists>ps' out. ob = Partitioned ps' \<and> maintainPartitions (sw_parts se) st j ps = (ps', out)))"
    using assms
    by (auto simp: Sweep_def exclusive_eq sweep_task_def split: if_splits prod.splits sum.splits bool.splits option.splits)
  then show ?thesis using maintain_swept [of se st j ps] by auto
qed

lemma sweep_partitioned_returns: "Sweep le ctx_done se st j (ls, Partitioned ps) \<noteq> None"
  by (auto simp: Sweep_def exclusive_eq sweep_task_def split: prod.splits sum.splits bool.splits)

text \<open>A janitor, a free lock and an undisturbed sweep at one instant, for the witnesses.\<close>

definition demo_janitor :: janitor where
  "demo_janitor =
     \<lparr>j_cfg = \<lparr>jc_enabled = True, jc_reclaim_interval = 30 * second, jc_stats_interval = 30 * second,
        jc_partition_ahead = 3, jc_retention = 1000, jc_retention_interval = 300 * second,
        jc_retention_batch = 2, jc_lock_key = 7\<rparr>, j_limit = 100\<rparr>"

definition demo_lock :: lock_env where
  "demo_lock = \<lparr>le_acquire = None, le_session = 1, le_query = NoFault, le_unlock_fails = False\<rparr>"

definition demo_sweep :: sweep_env where
  "demo_sweep =
     \<lparr>sw_kind = NoFault,
      sw_purge = (\<lambda>_. \<lparr>pv_before = [], pv_fault = NoFault, pv_now = 9000, pv_locked = [], pv_cancelled = False\<rparr>),
      sw_parts = \<lparr>pa_create = (\<lambda>_. NoFault), pa_today = Inr 7, pa_list = NoFault, pa_drop = quiet_drop 9000,
        pa_list_default = NoFault, pa_count = NoFault\<rparr>\<rparr>"

definition demo_store :: store where
  "demo_store = \<lparr>s_table = ''outbox.messages'', s_schema = ''outbox'', s_table_name = ''messages''\<rparr>"

text \<open>
  A replica takes a free lock and is inside its task.  When its session ends there, a second
  replica takes the same lock and is inside the same task with it.
\<close>

lemma takes_lock:
  assumes "cluster_reach jan s" and "cl_replica s i = Idle" and "le_acquire le = None" and "le_query le = NoFault"
    and "\<And>j task' le' lost c. cl_replica s j = Busy task' le' lost c \<Longrightarrow> le_session le' \<noteq> le_session le"
    and "\<And>h. h \<in> set (cl_locks s) \<Longrightarrow> fst h \<noteq> (lockClass (jan i), task)"
  shows "\<exists>f. cluster_reach jan
    (s\<lparr>cl_locks := ((lockClass (jan i), task), le_session le) # cl_locks s,
       cl_replica := (cl_replica s)(i := Busy task le False (CallTask f))\<rparr>)"
proof -
  let ?s1 = "s\<lparr>cl_replica := (cl_replica s)(i := Busy task le False (exclusive_calls False (jan i) task))\<rparr>"
  have r1: "cluster_reach jan ?s1" using assms(1,2,5) by (intro cluster_reach.Step [OF _ cluster_step.Begin])
  obtain f g where c: "exclusive_calls False (jan i) task = CallTryLock (lockClass (jan i)) task f" "f (Inr True) = CallTask g"
    by (simp add: exclusive_calls_def)
  have t: "TryLock le (lockClass (jan i)) task (cl_locks ?s1)
      = (((lockClass (jan i), task), le_session le) # cl_locks s, Inr True)"
    using assms(3,4,6) by (auto simp: TryLock_def pg_try_advisory_lock_def)
  have "cl_replica ?s1 i = Busy task le False (CallTryLock (lockClass (jan i)) task f)" using c(1) by simp
  from cluster_reach.Step [OF r1 cluster_step.Locking [OF this t]] c(2) show ?thesis by auto
qed

lemma demo_working:
  "\<exists>s f. cluster_reach (\<lambda>_. demo_janitor) s \<and> cl_replica s 4 = Busy taskRetention demo_lock False (CallTask f)"
  using takes_lock [OF cluster_reach.Start, of 4 demo_lock "\<lambda>_. demo_janitor" taskRetention]
  by (fastforce simp: demo_lock_def)

lemma lost_session_admits_second:
  "\<exists>s le f g. cluster_reach (\<lambda>_. demo_janitor) s \<and> cl_replica s 4 = Busy taskRetention le True (CallTask f)
     \<and> cl_replica s 5 = Busy taskRetention (demo_lock\<lparr>le_session := 2\<rparr>) False (CallTask g)"
proof -
  let ?jan = "\<lambda>_. demo_janitor"
  obtain f where r1: "cluster_reach ?jan
      \<lparr>cl_locks = [((lockClass demo_janitor, taskRetention), 1)],
       cl_replica = (\<lambda>_. Idle)(4 := Busy taskRetention demo_lock False (CallTask f))\<rparr>" (is "cluster_reach _ ?s1")
    using takes_lock [OF cluster_reach.Start, of 4 demo_lock ?jan taskRetention] by (auto simp: demo_lock_def)
  let ?le = "demo_lock\<lparr>le_query := FailBefore IoEOF, le_unlock_fails := True\<rparr>"
  let ?s2 = "\<lparr>cl_locks = [], cl_replica = (\<lambda>_. Idle)(4 := Busy taskRetention ?le True (CallTask f))\<rparr>"
  have "cl_replica ?s1 4 = Busy taskRetention demo_lock False (CallTask f)" by simp
  from cluster_reach.Step [OF r1 cluster_step.Lost [OF this, of ?jan IoEOF]]
  have r2: "cluster_reach ?jan ?s2" by (simp add: end_session_def demo_lock_def)
  let ?le2 = "demo_lock\<lparr>le_session := 2\<rparr>"
  have "\<exists>g. cluster_reach ?jan (?s2\<lparr>cl_locks := ((lockClass (?jan 5), taskRetention), le_session ?le2) # cl_locks ?s2,
      cl_replica := (cl_replica ?s2)(5 := Busy taskRetention ?le2 False (CallTask g))\<rparr>)"
    by (rule takes_lock [OF r2]) (auto simp: demo_lock_def split: if_splits)
  then obtain g where "cluster_reach ?jan (?s2\<lparr>cl_locks := ((lockClass (?jan 5), taskRetention), le_session ?le2) # cl_locks ?s2,
      cl_replica := (cl_replica ?s2)(5 := Busy taskRetention ?le2 False (CallTask g))\<rparr>)" by blast
  then show ?thesis by fastforce
qed

subsection \<open>Properties\<close>

text \<open>
  C20.  A housekeeping task runs on one replica at a time, as long as the sessions that hold its lock live.  In
  every state that replicas reach by interleaving the calls of \<open>exclusive\<close> - whatever fails while
  locking, working or unlocking, whichever replicas die and whichever sessions end - two replicas that share the lock
  key of the configuration and are both inside the same task are the same one, unless one of them has
  lost the connection its lock was taken on.
\<close>

theorem one_replica_per_task:
  assumes "cluster_reach jan s" and "lockClass (jan i) = lockClass (jan j)"
    and "cl_replica s i = Busy task le False (CallTask f)" and "cl_replica s j = Busy task le' False (CallTask f')"
  shows "i = j"
proof -
  have inv: "points_ok jan s" "workers_hold jan s" "sessions_distinct s" "locks_exclusive (cl_locks s)"
    using cluster_reach_inv [OF assms(1)] by (auto simp: cluster_inv_def)
  have h: "holding (jan i) task (CallTask f)" "holding (jan j) task (CallTask f')"
    using points_okD [OF inv(1) assms(3)] points_okD [OF inv(1) assms(4)] by (auto simp: at_point_def exclusive_calls_def)
  have "le_session le = le_session le'"
    using locks_exclusiveD [OF inv(4) workers_holdD [OF inv(2) assms(3) h(1)]]
      workers_holdD [OF inv(2) assms(4) h(2)] assms(2) by simp
  then show ?thesis using sessions_distinctD [OF inv(3) assms(3,4)] by simp
qed

theorem one_replica_per_task_witness:
  "\<exists>s f. cluster_reach (\<lambda>_. demo_janitor) s \<and> cl_replica s 4 = Busy taskRetention demo_lock False (CallTask f)
     \<and> list_all (\<lambda>i. i = 4) (filter (\<lambda>i. cl_replica s i = Busy taskRetention demo_lock False (CallTask f)) [0..<10])"
proof -
  obtain s f where reach: "cluster_reach (\<lambda>_. demo_janitor) s"
    and four: "cl_replica s 4 = Busy taskRetention demo_lock False (CallTask f)"
    using demo_working by blast
  have "i = 4" if "cl_replica s i = Busy taskRetention demo_lock False (CallTask f)" for i
    using one_replica_per_task [OF reach refl that four] .
  then have "list_all (\<lambda>i. i = 4) (filter (\<lambda>i. cl_replica s i = Busy taskRetention demo_lock False (CallTask f)) [0..<10])"
    unfolding list_all_iff set_filter by blast
  with reach four show ?thesis by blast
qed

text \<open>
  C21.  The sweep ends and finishes its work.  With a positive retention and batch size, when the lock
  is free, the sweep of an ordinary table returns with the locks as they were, and no row past the
  retention window is left; it reports the number of rows it removed, if any.
\<close>

theorem sweep_purges_all:
  assumes "table_ok t" and "0 < jc_retention (j_cfg j)" and "0 < jc_retention_batch (j_cfg j)"
    and "le_acquire le = None" and "le_query le = NoFault" and "\<not> le_unlock_fails le"
    and "\<forall>h \<in> set ls. fst h \<noteq> (lockClass j, taskRetention)"
    and "sw_kind se = NoFault" and "undisturbed_sweep (sw_purge se)"
  shows "\<exists>t' evs n. Sweep le False se st j (ls, Plain t) = Some ((ls, Plain t'), evs, [])
    \<and> (\<forall>r \<in> set t'. \<not> purgeable (jc_retention (j_cfg j)) (pv_now (sw_purge se n)) [] r)
    \<and> evs = (if length t' < length t
             then [ERetention \<lparr>rt_deleted = int (length t) - int (length t')\<rparr>] else [])"
proof -
  let ?ret = "jc_retention (j_cfg j)" and ?batch = "jc_retention_batch (j_cfg j)"
  obtain t' e where loop: "sweep_loop (sw_purge se) ?ret ?batch 0 0 t = Some (t', e)"
    using sweep_loop_ends [OF assms(1,3), of 0 "sw_purge se" ?ret 0 0] assms(9) by (auto simp: undisturbed_sweep_def)
  then have e: "e = Short (int (length t) - int (length t'))" "length t' \<le> length t"
    and "\<exists>n. \<forall>r \<in> set t'. \<not> purgeable ?ret (pv_now (sw_purge se n)) [] r"
    using sweep_loop_complete [OF assms(1,3,9) loop] by auto
  then obtain n where n: "\<forall>r \<in> set t'. \<not> purgeable ?ret (pv_now (sw_purge se n)) [] r" by blast
  have lock: "TryLock le (lockClass j) taskRetention ls = (((lockClass j, taskRetention), le_session le) # ls, Inr True)"
    using assms(4,5,7) by (auto simp: TryLock_def pg_try_advisory_lock_def)
  have "Sweep le False se st j (ls, Plain t) = Some ((ls, Plain t'),
      if length t' < length t then [ERetention \<lparr>rt_deleted = int (length t) - int (length t')\<rparr>] else [], [])"
    using assms(2,6,8) loop e lock
    by (simp add: Sweep_def exclusive_eq sweep_task_def IsPartitioned_def purge_task_def release_first unlock_def)
  with n show ?thesis by blast
qed

theorem sweep_purges_all_witness:
  "\<exists>t' evs n. Sweep demo_lock False demo_sweep demo_store demo_janitor ([], Plain [demo_sent]) = Some (([], Plain t'), evs, [])
     \<and> list_all (\<lambda>r. \<not> purgeable (jc_retention (j_cfg demo_janitor)) (pv_now (sw_purge demo_sweep n)) [] r) t'
     \<and> evs = (if length t' < length [demo_sent]
              then [ERetention \<lparr>rt_deleted = int (length [demo_sent]) - int (length t')\<rparr>] else [])"
  unfolding list_all_iff
  by (rule sweep_purges_all) (simp_all add: demo_janitor_def demo_lock_def demo_sweep_def undisturbed_sweep_def)

end
