(* ===== verification/Dispatch_Listener.thy ===== *)
theory Dispatch_Listener
  imports Pipeline_Safety "HOL-Library.AList"
begin

text \<open>
  \<open>internal/dispatch/listener.go\<close>: notifications of the database become wake-ups of pipelines.

  The pipelines of a listener are an association list from stream names.  What arrives on the
  connection is a finite trace: a list of rounds, each the notification the outer loop received and
  what happened at every turn of the debounce window after it.  A listener whose trace ends without
  an error is still waiting.
\<close>

subsection \<open>Definitions\<close>

record listener =
  li_cfg :: dispatch_config
  li_pipelines :: "(string \<times> pipeline) list"

definition NewListener :: "dispatch_config \<Rightarrow> pipeline list \<Rightarrow> listener" where
  "NewListener cfg ps =
     \<lparr>li_cfg = cfg, li_pipelines = fold (\<lambda>p. AList.update (p_stream p) p) ps []\<rparr>"

definition listenerRetryDelay :: duration where "listenerRetryDelay = second"
definition listenerMaxRetryDelay :: duration where "listenerMaxRetryDelay = 30 * second"

text \<open>The delay after one more failed connection.\<close>

definition next_delay :: "duration \<Rightarrow> duration" where
  "next_delay delay = (if delay < listenerMaxRetryDelay then delay * 2 else delay)"

text \<open>
  One turn of the window: the time left when the loop looked at the clock, and what the wait returned.
  The window closes when no time is left or a wait fails; the wait of a closed window never happens.
\<close>

type_synonym turn = "duration \<times> (err + string)"

fun window :: "turn list \<Rightarrow> string list \<Rightarrow> string list" where
  "window [] streams = streams"
| "window ((remaining, result) # turns) streams =
     (if remaining \<le> 0 then streams
      else (case result of Inl e \<Rightarrow> streams | Inr payload \<Rightarrow> window turns (List.insert payload streams)))"

definition coalesce :: "dispatch_config \<Rightarrow> turn list \<Rightarrow> string list \<Rightarrow> string list" where
  "coalesce cfg turns streams =
     (if dc_notify_debounce cfg \<le> 0 then streams else window turns streams)"

text \<open>The delay of \<open>sleepJitter\<close>, given what \<open>rand.Int64N\<close> draws below its argument.\<close>

definition sleepJitter :: "(int \<Rightarrow> int) \<Rightarrow> dispatch_config \<Rightarrow> duration" where
  "sleepJitter int64n cfg = (if dc_notify_jitter cfg \<le> 0 then 0 else int64n (dc_notify_jitter cfg))"

fun wake :: "string list \<Rightarrow> (string \<times> pipeline) list \<Rightarrow> (string \<times> pipeline) list" where
  "wake [] ps = ps"
| "wake (stream # streams) ps =
     (case map_of ps stream of
        None \<Rightarrow> wake streams ps
      | Some p \<Rightarrow> wake streams (AList.update stream (Wake p) ps))"

definition wakeAll :: "(string \<times> pipeline) list \<Rightarrow> (string \<times> pipeline) list" where
  "wakeAll ps = map (\<lambda>(stream, p). (stream, Wake p)) ps"

datatype round_trace = Notified string "turn list" | WaitError err

text \<open>
  Between two rounds the pipelines run and empty their channels; \<open>others\<close> gives their state when a
  round starts.
\<close>

fun listen_loop ::
  "dispatch_config \<Rightarrow> (nat \<Rightarrow> (string \<times> pipeline) list \<Rightarrow> (string \<times> pipeline) list) \<Rightarrow> nat
   \<Rightarrow> round_trace list \<Rightarrow> (string \<times> pipeline) list \<Rightarrow> (string \<times> pipeline) list \<times> err option" where
  "listen_loop cfg others k [] ps = (ps, None)"
| "listen_loop cfg others k (WaitError e # rounds) ps = (ps, Some e)"
| "listen_loop cfg others k (Notified payload turns # rounds) ps =
     listen_loop cfg others (Suc k) rounds (wake (coalesce cfg turns [payload]) (others k ps))"

record listen_env =
  ln_acquire :: "err option"
  ln_listen :: "err option"
  ln_others :: "nat \<Rightarrow> (string \<times> pipeline) list \<Rightarrow> (string \<times> pipeline) list"
  ln_rounds :: "round_trace list"

definition listen :: "listen_env \<Rightarrow> listener \<Rightarrow> listener \<times> err option" where
  "listen env l =
     (case ln_acquire env of
        Some e \<Rightarrow> (l, Some (Errorf ''acquire a connection to listen on: '' e []))
      | None \<Rightarrow>
         (case ln_listen env of
            Some e \<Rightarrow> (l, Some (Errorf (''listen on '' @ dc_notify_channel (li_cfg l) @ '': '') e []))
          | None \<Rightarrow>
              (case listen_loop (li_cfg l) (ln_others env) 0 (ln_rounds env) (wakeAll (li_pipelines l)) of
                 (ps, e) \<Rightarrow> (l\<lparr>li_pipelines := ps\<rparr>, e))))"

text \<open>
  \<open>Run\<close> on a finite trace of connections: for each one whether the context has ended when \<open>listen\<close>
  returns and whether it ends during the delay.  The result is the listener, whether it has
  returned, and the delays it slept.
\<close>

record attempt =
  at_env :: listen_env
  at_done_after :: bool
  at_done_sleeping :: bool

fun listener_run ::
  "attempt list \<Rightarrow> duration \<Rightarrow> listener \<Rightarrow> listener \<times> bool \<times> duration list" where
  "listener_run [] delay l = (l, False, [])"
| "listener_run (a # as) delay l =
     (let (l', e) = listen (at_env a) l in
      if at_done_after a then (l', True, [])
      else if at_done_sleeping a then (l', True, [delay])
      else (case listener_run as (next_delay delay) l' of
              (l'', stopped, delays) \<Rightarrow> (l'', stopped, delay # delays)))"

definition Listener_Run :: "attempt list \<Rightarrow> listener \<Rightarrow> listener \<times> bool \<times> duration list" where
  "Listener_Run as l = listener_run as listenerRetryDelay l"

subsection \<open>Lemmas\<close>

text \<open>The streams announced during a window: the payloads before it closed.\<close>

definition announced :: "turn list \<Rightarrow> string set" where
  "announced turns =
     {payload. \<exists>remaining. (remaining, Inr payload) \<in> set (takeWhile (\<lambda>(rem, res). 0 < rem \<and> \<not> isl res) turns)}"

lemma window_set: "set (window turns streams) = set streams \<union> announced turns"
  by (induction turns streams rule: window.induct) (auto simp: announced_def split: sum.splits)

lemma Wake_Wake [simp]: "Wake (Wake p) = Wake p"
  by (simp add: Wake_def)

lemma map_of_wake:
  "map_of (wake streams ps) s = map_option (\<lambda>p. if s \<in> set streams then Wake p else p) (map_of ps s)"
proof (induction streams ps rule: wake.induct)
  case (2 stream streams ps)
  then show ?case by (cases "s = stream") (auto simp: update_conv' split: option.splits)
qed (simp add: option.map_ident)

lemma map_of_wakeAll: "map_of (wakeAll ps) s = map_option Wake (map_of ps s)"
  by (simp add: wakeAll_def map_of_map)

text \<open>The delay doubles while it is below the maximum, so it settles at 32 seconds.\<close>

lemma next_delay_fixed: "(next_delay ^^ 5) listenerRetryDelay = 32 * second" "next_delay (32 * second) = 32 * second"
  by (simp_all add: next_delay_def listenerRetryDelay_def listenerMaxRetryDelay_def second_def numeral_eq_Suc)

lemma listener_run_delays:
  "listener_run as delay l = (l', stopped, delays) \<Longrightarrow> k < length delays \<Longrightarrow> delays ! k = (next_delay ^^ k) delay"
proof (induction as arbitrary: delay l l' stopped delays k)
  case (Cons a as)
  then show ?case
    by (cases k) (auto simp: Let_def funpow_swap1 split: prod.splits if_splits)
qed simp

subsection \<open>Properties\<close>

text \<open>
  C24.  A notification wakes exactly its stream.  After a round, the pipeline of every stream that was
  announced - by the notification itself or by another one before the debounce window closed - has a
  wake-up in its channel, whatever state it was in; every other pipeline is as it was; and a
  (re)connection leaves a wake-up for every pipeline before the first round.
\<close>

theorem notification_wakes_its_stream:
  assumes "0 < dc_notify_debounce cfg" and "map_of ps s = Some p"
    and "ln_acquire env = None" and "ln_listen env = None" and "ln_rounds env = []"
  shows "map_of (wake (coalesce cfg turns [payload]) ps) s
      = Some (if s = payload \<or> s \<in> announced turns then Wake p else p)
    \<and> listen env \<lparr>li_cfg = cfg, li_pipelines = ps\<rparr> = (\<lparr>li_cfg = cfg, li_pipelines = wakeAll ps\<rparr>, None)
    \<and> map_of (wakeAll ps) s = Some (Wake p)"
  using assms by (simp add: coalesce_def map_of_wake window_set listen_def map_of_wakeAll)

theorem notification_wakes_its_stream_witness:
  "\<exists>p. map_of (wake (coalesce (demo_dispatch\<lparr>dc_notify_debounce := 5\<rparr>) [(4, Inr ''b''), (0, Inr ''c'')] [''a''])
         [(''a'', demo_pipeline), (''b'', demo_pipeline), (''c'', demo_pipeline)]) ''b'' = Some p \<and> p = Wake demo_pipeline"
proof -
  let ?ps = "[(''a'', demo_pipeline), (''b'', demo_pipeline), (''c'', demo_pipeline)]"
  let ?env = "\<lparr>ln_acquire = None, ln_listen = None, ln_others = (\<lambda>_ ps. ps), ln_rounds = []\<rparr>"
  have "''b'' \<in> announced [(4, Inr ''b''), (0, Inr ''c'')]" by (simp add: announced_def)
  with notification_wakes_its_stream [of "demo_dispatch\<lparr>dc_notify_debounce := 5\<rparr>" ?ps "''b''" demo_pipeline ?env
      "[(4, Inr ''b''), (0, Inr ''c'')]" "''a''"]
  show ?thesis by simp
qed

end
