(* ===== verification/Dispatch_DeadLetter.thy ===== *)
theory Dispatch_DeadLetter
  imports Dispatch_Pipeline "HOL-Library.AList"
begin

text \<open>
  \<open>internal/dispatch/deadletter.go\<close>: the forwarder of messages that stopped being retried.  It reads
  the failed rows back, readdresses them and publishes them through the router; it has no access to
  the table but that read, and its only other effect is one event per message.

  A header map is an association list, and an assignment \<open>headers[k] = v\<close> is \<open>AList.update\<close>.
\<close>

subsection \<open>Definitions\<close>

record dead_letter_event =
  dle_stream :: string
  dle_id :: uuid
  dle_err :: "err option"

record dead_letter =
  dl_cfg :: dlq_config
  dl_timeout :: duration

definition NewDeadLetter :: "config \<Rightarrow> dead_letter" where
  "NewDeadLetter cfg = \<lparr>dl_cfg = cfg_dlq cfg, dl_timeout = dc_publish_timeout (cfg_dispatch cfg)\<rparr>"

definition format_bool :: "bool \<Rightarrow> string" where
  "format_bool b = (if b then ''true'' else ''false'')"

definition dlq_headers :: "message \<Rightarrow> terminal \<Rightarrow> headers" where
  "dlq_headers msg term =
     AList.update ''x-outbox-permanent'' (format_bool (tm_permanent term))
       (AList.update ''x-outbox-attempts'' (itoa (tm_attempts term))
         (AList.update ''x-outbox-original-stream'' (m_stream msg)
           (AList.update ''x-outbox-original-topic'' (m_topic msg) (m_headers msg))))"

definition rewrite :: "dead_letter \<Rightarrow> message \<Rightarrow> terminal \<Rightarrow> message" where
  "rewrite d msg term =
     msg\<lparr>m_headers := dlq_headers msg term, m_topic := dlq_topic (dl_cfg d), m_stream := dlq_stream (dl_cfg d),
         m_target := (m_target msg)\<lparr>t_exchange := [], t_routing_key := [], t_version := 0\<rparr>\<rparr>"

text \<open>The map from identifiers to terminal outcomes: a later entry replaces an earlier one.\<close>

definition zero_terminal :: terminal where
  "zero_terminal = \<lparr>tm_id = [], tm_attempts = 0, tm_permanent = False, tm_deferred = False\<rparr>"

definition terminal_for :: "terminal list \<Rightarrow> uuid \<Rightarrow> terminal" where
  "terminal_for failed i =
     (case find (\<lambda>f. tm_id f = i) (rev failed) of Some f \<Rightarrow> f | None \<Rightarrow> zero_terminal)"

definition forwarded_messages :: "dead_letter \<Rightarrow> terminal list \<Rightarrow> message list \<Rightarrow> message list" where
  "forwarded_messages d failed msgs = map (\<lambda>m. rewrite d m (terminal_for failed (m_id m))) msgs"

text \<open>The events of the results; \<open>forwarded[i]\<close> panics when there are more results than messages.\<close>

definition report_results :: "string \<Rightarrow> message list \<Rightarrow> err option list \<Rightarrow> dead_letter_event list go" where
  "report_results stream forwarded results =
     (if length forwarded < length results then Panic ''index out of range''
      else Return (map (\<lambda>(m, e). \<lparr>dle_stream = stream, dle_id = m_id m, dle_err = e\<rparr>) (zip forwarded results)))"

definition Handle ::
  "fault \<Rightarrow> router \<Rightarrow> dead_letter \<Rightarrow> iteration \<Rightarrow> table \<Rightarrow> dead_letter_event list go" where
  "Handle f r d ev t =
     (if \<not> dlq_enabled (dl_cfg d) \<or> it_failed ev = [] then Return []
      else
        (let ids = map tm_id (it_failed ev) in
         case FetchByIDs f ids t of
           Inl e \<Rightarrow> Return (map (\<lambda>i. \<lparr>dle_stream = it_stream ev, dle_id = i, dle_err = Some e\<rparr>) ids)
         | Inr messages \<Rightarrow>
             (let forwarded = forwarded_messages d (it_failed ev) messages in
              report_results (dlq_stream (dl_cfg d)) forwarded
                (Router_Publish r (dlq_stream (dl_cfg d)) forwarded))))"

subsection \<open>Lemmas\<close>

lemma report_results_router:
  "report_results stream ms (Router_Publish r s ms)
   = Return (map (\<lambda>(m, e). \<lparr>dle_stream = stream, dle_id = m_id m, dle_err = e\<rparr>) (zip ms (Router_Publish r s ms)))"
  by (simp add: report_results_def routed.length_publish)

lemma event_projections:
  assumes "length rs = length ms"
  shows "map dle_id (map (\<lambda>(m, e). \<lparr>dle_stream = s, dle_id = m_id m, dle_err = e\<rparr>) (zip ms rs)) = map m_id ms"
    and "map dle_err (map (\<lambda>(m, e). \<lparr>dle_stream = s, dle_id = m_id m, dle_err = e\<rparr>) (zip ms rs)) = rs"
  using assms by (induction rs ms rule: list_induct2) auto

lemma scan_messages_rows:
  "scan_messages rs = Inr ms \<Longrightarrow> map m_id ms = map r_id rs \<and> map m_payload ms = map r_payload rs"
  by (induction rs arbitrary: ms) (auto simp: scan_message_def split: option.splits sum.splits)

lemma rewrite_simps [simp]:
  "m_id (rewrite d m x) = m_id m" "m_payload (rewrite d m x) = m_payload m"
  "m_topic (rewrite d m x) = dlq_topic (dl_cfg d)" "m_stream (rewrite d m x) = dlq_stream (dl_cfg d)"
  "t_key (m_target (rewrite d m x)) = t_key (m_target m)" "m_attempts (rewrite d m x) = m_attempts m"
  by (simp_all add: rewrite_def)

lemma forwarded_ids [simp]: "map m_id (forwarded_messages d failed ms) = map m_id ms"
  by (simp add: forwarded_messages_def)

lemma dlq_headers_lookup:
  "map_of (dlq_headers m x) = (map_of (m_headers m))
     (''x-outbox-original-topic'' \<mapsto> m_topic m, ''x-outbox-original-stream'' \<mapsto> m_stream m,
      ''x-outbox-attempts'' \<mapsto> itoa (tm_attempts x), ''x-outbox-permanent'' \<mapsto> format_bool (tm_permanent x))"
  by (simp add: dlq_headers_def update_conv')

lemma terminal_for_mem:
  "i \<in> tm_id ` set failed \<Longrightarrow> terminal_for failed i \<in> set failed \<and> tm_id (terminal_for failed i) = i"
  by (auto simp: terminal_for_def find_None_iff dest: find_Some_mem split: option.splits)

text \<open>What a forwarded message is, in terms of the message it stands for.\<close>

definition dead_letter_of :: "dead_letter \<Rightarrow> terminal list \<Rightarrow> message \<Rightarrow> message \<Rightarrow> bool" where
  "dead_letter_of d failed m0 m \<longleftrightarrow>
     (\<exists>x \<in> set failed. tm_id x = m_id m0 \<and> m_id m = m_id m0
        \<and> m_payload m = m_payload m0 \<and> t_key (m_target m) = t_key (m_target m0)
        \<and> m_topic m = dlq_topic (dl_cfg d) \<and> m_stream m = dlq_stream (dl_cfg d)
        \<and> t_exchange (m_target m) = [] \<and> t_routing_key (m_target m) = [] \<and> t_version (m_target m) = 0
        \<and> map_of (m_headers m) ''x-outbox-original-topic'' = Some (m_topic m0)
        \<and> map_of (m_headers m) ''x-outbox-original-stream'' = Some (m_stream m0)
        \<and> map_of (m_headers m) ''x-outbox-attempts'' = Some (itoa (tm_attempts x))
        \<and> map_of (m_headers m) ''x-outbox-permanent'' = Some (format_bool (tm_permanent x)))"

lemma rewrite_dead_letter:
  assumes "m_id m0 \<in> tm_id ` set failed"
  shows "dead_letter_of d failed m0 (rewrite d m0 (terminal_for failed (m_id m0)))"
  using terminal_for_mem [OF assms] unfolding dead_letter_of_def
  by (intro bexI [of _ "terminal_for failed (m_id m0)"]) (simp_all add: rewrite_def dlq_headers_lookup)

lemma fetched_ids:
  assumes "failed \<noteq> []" and "FetchByIDs f (map tm_id failed) t = Inr ms"
  shows "m_id ` set ms = r_id ` {row \<in> set t. r_id row \<in> tm_id ` set failed}"
proof -
  have "scan_messages (filter (id_in (map tm_id failed)) t) = Inr ms"
    using assms by (simp add: FetchByIDs_def query_def fetch_by_ids_stmt_def split: fault.splits)
  then have "set (map m_id ms) = set (map r_id (filter (id_in (map tm_id failed)) t))"
    using scan_messages_rows by metis
  then show ?thesis by (auto simp: id_in_def)
qed

text \<open>A forwarder and an iteration that failed one message, for the witness.\<close>

definition demo_dlq :: dead_letter where
  "demo_dlq = \<lparr>dl_cfg = \<lparr>dlq_enabled = True, dlq_stream = ''local'', dlq_topic = ''outbox.dead-letter''\<rparr>,
     dl_timeout = 10 * second\<rparr>"

definition demo_failure :: iteration where
  "demo_failure = \<lparr>it_stream = ''local'', it_driver = ''rmq'', it_claimed = 1, it_retries = 0, it_publishes = [],
     it_delivered = [], it_requeued = [],
     it_failed = [\<lparr>tm_id = ''m1'', tm_attempts = 5, tm_permanent = False, tm_deferred = False\<rparr>],
     it_deferred = [], it_conflicts = 0, it_released = 0, it_duration = 0\<rparr>"

subsection \<open>Properties\<close>

text \<open>
  C23.  Every failure of an iteration is forwarded and reported.  When the rows can be read back, what
  is published is the failed rows of the table, payload and key unchanged, addressed to the
  dead-letter topic and stream without the old routing, each with headers that name its origin and
  the outcome of that very message; every one gets one event with the broker's answer, and nothing
  panics.
\<close>

theorem failures_are_forwarded:
  assumes "dlq_enabled (dl_cfg d)" and "it_failed ev \<noteq> []"
    and "FetchByIDs f (map tm_id (it_failed ev)) t = Inr ms"
  shows "\<exists>fw evs. Handle f r d ev t = Return evs \<and> map dle_id evs = map m_id fw
      \<and> map dle_err evs = Router_Publish r (dlq_stream (dl_cfg d)) fw
      \<and> set (map m_id fw) = r_id ` {row \<in> set t. r_id row \<in> tm_id ` set (it_failed ev)}
      \<and> list_all2 (dead_letter_of d (it_failed ev)) ms fw"
proof -
  let ?fw = "forwarded_messages d (it_failed ev) ms"
  have "\<exists>evs. Handle f r d ev t = Return evs \<and> map dle_id evs = map m_id ?fw
      \<and> map dle_err evs = Router_Publish r (dlq_stream (dl_cfg d)) ?fw"
    using assms event_projections [OF routed.length_publish]
    by (simp add: Handle_def Let_def report_results_router del: map_map forwarded_ids)
  moreover have "set (map m_id ?fw) = r_id ` {row \<in> set t. r_id row \<in> tm_id ` set (it_failed ev)}"
    using fetched_ids [OF assms(2,3)] by simp
  moreover have "m_id m0 \<in> tm_id ` set (it_failed ev)" if "m0 \<in> set ms" for m0
  proof -
    have "m_id m0 \<in> m_id ` set ms" using that by simp
    then show ?thesis unfolding fetched_ids [OF assms(2,3)] by auto
  qed
  then have "list_all2 (dead_letter_of d (it_failed ev)) ms ?fw"
    unfolding forwarded_messages_def list_all2_map2 list_all2_same using rewrite_dead_letter by blast
  ultimately show ?thesis by blast
qed

theorem failures_are_forwarded_witness:
  "\<exists>(fw :: message list) evs. Handle NoFault mute_router demo_dlq demo_failure [demo_row] = Return evs \<and> map dle_id evs = map m_id fw
     \<and> set (map m_id fw) = {''m1''}"
proof -
  have fetch: "FetchByIDs NoFault (map tm_id (it_failed demo_failure)) [demo_row] = Inr [demo_message]"
    by (simp add: FetchByIDs_def query_def fetch_by_ids_stmt_def id_in_def demo_failure_def scan_message_def
      demo_row_def insert_row_def demo_message_def zero_target_def)
  have "r_id ` {row \<in> set [demo_row]. r_id row \<in> tm_id ` set (it_failed demo_failure)} = {''m1''}"
    by (auto simp: demo_failure_def)
  moreover have "dlq_enabled (dl_cfg demo_dlq)" "it_failed demo_failure \<noteq> []"
    by (simp_all add: demo_dlq_def demo_failure_def)
  from failures_are_forwarded [OF this fetch, of mute_router]
  obtain fw :: "message list" and evs where "Handle NoFault mute_router demo_dlq demo_failure [demo_row] = Return evs"
    "map dle_id evs = map m_id fw"
    "set (map m_id fw) = r_id ` {row \<in> set [demo_row]. r_id row \<in> tm_id ` set (it_failed demo_failure)}"
    by blast
  ultimately show ?thesis by (intro exI [of _ fw] exI [of _ evs]) simp
qed

end
