(* ===== verification/Config_Parse.thy ===== *)
theory Config_Parse
  imports Config_Types Go_Errors
begin

text \<open>
  \<open>internal/config/parse.go\<close> with the parsers and printers of the standard library the configuration
  uses: \<open>strconv.Atoi\<close>, \<open>strconv.ParseBool\<close>, \<open>time.ParseDuration\<close> and \<open>Duration.String\<close>, and the string
  helpers of \<open>internal/config/broker.go\<close>.
\<close>

subsection \<open>Numbers and booleans\<close>

definition digit_value :: "char \<Rightarrow> nat" where
  "digit_value c = of_char c - 48"

definition digits_value :: "string \<Rightarrow> nat" where
  "digits_value s = foldl (\<lambda>n c. 10 * n + digit_value c) 0 s"

definition num_error :: "string \<Rightarrow> string \<Rightarrow> string \<Rightarrow> err" where
  "num_error fn s what = ErrorString (''strconv.'' @ fn @ '': parsing '' @ go_quote s @ '': '' @ what)"

definition Atoi :: "string \<Rightarrow> err + int" where
  "Atoi s =
     (let neg = (s \<noteq> [] \<and> hd s = CHR ''-'');
          ds = (if s \<noteq> [] \<and> (hd s = CHR ''-'' \<or> hd s = CHR ''+'') then tl s else s) in
      if ds = [] \<or> \<not> list_all is_digit ds then Inl (num_error ''Atoi'' s ''invalid syntax'')
      else
        (let n = int (digits_value ds) in
         if (if neg then 2 ^ 63 < n else 2 ^ 63 \<le> n) then Inl (num_error ''Atoi'' s ''value out of range'')
         else Inr (if neg then - n else n)))"

definition ParseBool :: "string \<Rightarrow> err + bool" where
  "ParseBool s =
     (if s \<in> {''1'', ''t'', ''T'', ''true'', ''TRUE'', ''True''} then Inr True
      else if s \<in> {''0'', ''f'', ''F'', ''false'', ''FALSE'', ''False''} then Inr False
      else Inl (num_error ''ParseBool'' s ''invalid syntax''))"

subsection \<open>Durations\<close>

text \<open>\<open>Duration.String\<close>; the micro sign is two bytes.\<close>

definition fmt_frac :: "nat \<Rightarrow> nat \<Rightarrow> string" where
  "fmt_frac v prec =
     (let f = rev (dropWhile (\<lambda>c. c = CHR ''0'') (rev (zero_pad prec (nat_digits (v mod 10 ^ prec))))) in
      if f = [] then [] else CHR ''.'' # f)"

definition micro_sign :: string where
  "micro_sign = [CHR 0xC2, CHR 0xB5]"

definition duration_magnitude :: "nat \<Rightarrow> string" where
  "duration_magnitude u =
     (if u = 0 then ''0s''
      else if u < 1000 then nat_digits u @ ''ns''
      else if u < 1000000 then nat_digits (u div 1000) @ fmt_frac u 3 @ micro_sign @ ''s''
      else if u < 1000000000 then nat_digits (u div 1000000) @ fmt_frac u 6 @ ''ms''
      else
        (let s = u div 1000000000;
             secs = nat_digits (s mod 60) @ fmt_frac u 9 @ ''s'';
             m = s div 60 in
         if m = 0 then secs
         else
           (let mins = nat_digits (m mod 60) @ ''m'' @ secs; h = m div 60 in
            if h = 0 then mins else nat_digits h @ ''h'' @ mins)))"

definition duration_string :: "duration \<Rightarrow> string" where
  "duration_string d = (if d < 0 then CHR ''-'' # duration_magnitude (nat (- d)) else duration_magnitude (nat d))"

text \<open>
  \<open>time.ParseDuration\<close>: numbers with an optional fraction, each followed by a unit; an
  error is the text in front of the quoted input.  Go multiplies the
  fraction in double precision; the model truncates the exact product.
\<close>

definition unit_of :: "string \<Rightarrow> nat option" where
  "unit_of u = map_of [(''ns'', 1), (''us'', 1000), (micro_sign @ ''s'', 1000), ([CHR 0xCE, CHR 0xBC] @ ''s'', 1000),
     (''ms'', 1000000), (''s'', 1000000000), (''m'', 60000000000), (''h'', 3600000000000)] u"

definition not_unit_char :: "char \<Rightarrow> bool" where
  "not_unit_char c \<longleftrightarrow> c = CHR ''.'' \<or> is_digit c"

function parse_segments :: "string \<Rightarrow> nat \<Rightarrow> string + nat" where
  "parse_segments s d =
     (if s = [] then Inr d
      else
        (let whole = takeWhile is_digit s;
             s1 = dropWhile is_digit s;
             dotted = (s1 \<noteq> [] \<and> hd s1 = CHR ''.'');
             frac = (if dotted then takeWhile is_digit (tl s1) else []);
             s2 = (if dotted then dropWhile is_digit (tl s1) else s1);
             u = takeWhile (\<lambda>c. \<not> not_unit_char c) s2;
             s3 = dropWhile (\<lambda>c. \<not> not_unit_char c) s2 in
         if whole = [] \<and> frac = [] then Inl ''time: invalid duration ''
         else if u = [] then Inl ''time: missing unit in duration ''
         else
           (case unit_of u of
              None \<Rightarrow> Inl (''time: unknown unit '' @ go_quote u @ '' in duration '')
            | Some unit \<Rightarrow>
               (let v = digits_value whole * unit + (digits_value frac * unit) div 10 ^ length frac in
                if 2 ^ 63 < digits_value whole * unit \<or> 2 ^ 63 < v \<or> 2 ^ 63 < d + v
                then Inl ''time: invalid duration ''
                else parse_segments s3 (d + v)))))"
  by pat_completeness auto
termination
proof (relation "measure (length \<circ> fst)", simp, goal_cases)
  case (1 s d whole s1 dotted frac s2 u s3 v unit)
  have "length s2 \<le> length s"
  proof -
    have a: "length s1 \<le> length s" by (simp add: 1 length_dropWhile_le)
    show ?thesis
    proof (cases dotted)
      case True
      have "length (dropWhile is_digit (tl s1)) \<le> length (tl s1)" by (rule length_dropWhile_le)
      with True a show ?thesis by (simp add: 1(6))
    next
      case False
      with a show ?thesis by (simp add: 1(6))
    qed
  qed
  moreover have "length s3 < length s2"
  proof -
    have "u @ s3 = s2" by (simp add: 1(7,8))
    then have "length s2 = length u + length s3" by (metis length_append)
    moreover have "u \<noteq> []" using 1 by blast
    ultimately show ?thesis by simp
  qed
  ultimately show ?case by simp
qed

declare parse_segments.simps [simp del]

definition ParseDuration :: "string \<Rightarrow> err + duration" where
  "ParseDuration s =
     (let neg = (s \<noteq> [] \<and> hd s = CHR ''-'');
          b = (if s \<noteq> [] \<and> (hd s = CHR ''-'' \<or> hd s = CHR ''+'') then tl s else s);
          bad = (\<lambda>what. Inl (ErrorString (what @ go_quote s))) in
      if b = ''0'' then Inr 0
      else if b = [] then bad ''time: invalid duration ''
      else
        (case parse_segments b 0 of
           Inl what \<Rightarrow> bad what
         | Inr d \<Rightarrow>
             if neg then Inr (- int d)
             else if 2 ^ 63 \<le> d then bad ''time: invalid duration '' else Inr (int d)))"

subsection \<open>Values with a default\<close>

definition intOrDefault :: "string \<Rightarrow> int \<Rightarrow> err + int" where
  "intOrDefault s dflt = (if s = [] then Inr dflt else Atoi s)"

definition boolOrDefault :: "string \<Rightarrow> bool \<Rightarrow> err + bool" where
  "boolOrDefault s dflt = (if s = [] then Inr dflt else ParseBool s)"

definition durationOrDefault :: "string \<Rightarrow> duration \<Rightarrow> err + duration" where
  "durationOrDefault s dflt = (if s = [] then Inr dflt else ParseDuration s)"

definition orDefault :: "string \<Rightarrow> string \<Rightarrow> string" where
  "orDefault v dflt = (if v = [] then dflt else v)"

subsection \<open>Lists and names\<close>

text \<open>\<open>strings.Split\<close> on a one-byte separator, and \<open>strings.Contains\<close>.\<close>

fun split_on :: "char \<Rightarrow> string \<Rightarrow> string list" where
  "split_on sep [] = [[]]"
| "split_on sep (c # cs) =
     (if c = sep then [] # split_on sep cs
      else (case split_on sep cs of [] \<Rightarrow> [[c]] | p # ps \<Rightarrow> (c # p) # ps))"

fun contains_str :: "string \<Rightarrow> string \<Rightarrow> bool" where
  "contains_str [] sub \<longleftrightarrow> sub = []"
| "contains_str (c # cs) sub \<longleftrightarrow> has_prefix (c # cs) sub \<or> contains_str cs sub"

definition parseList :: "string \<Rightarrow> string list" where
  "parseList s = filter (\<lambda>v. v \<noteq> []) (map trim_space (split_on (CHR '','') s))"

definition envToken :: "string \<Rightarrow> string" where
  "envToken name = to_upper (map (\<lambda>c. if c = CHR ''-'' then CHR ''_'' else c) (trim_space name))"

text \<open>The regular expression \<open>identifier\<close>: \<open>^[a-z_][a-z0-9_]{0,62}$\<close>.\<close>

definition is_identifier :: "string \<Rightarrow> bool" where
  "is_identifier s \<longleftrightarrow> s \<noteq> [] \<and> length s \<le> 63 \<and> (is_lower (hd s) \<or> hd s = CHR ''_'')
     \<and> list_all (\<lambda>c. is_lower c \<or> is_digit c \<or> c = CHR ''_'') s"

subsection \<open>Lemmas\<close>

lemma Atoi_range: "Atoi s = Inr n \<Longrightarrow> - (2 ^ 63) \<le> n \<and> n < 2 ^ 63"
  by (auto simp: Atoi_def Let_def split: if_splits)

lemma parseList_nonempty: "v \<in> set (parseList s) \<Longrightarrow> v \<noteq> []"
  by (simp add: parseList_def)

text \<open>Printing a number and reading it back.\<close>

lemma digit_char: "n < 10 \<Longrightarrow> is_digit (char_of (48 + n)) \<and> digit_value (char_of (48 + n)) = n"
proof -
  assume "n < 10"
  then have "of_char (char_of (48 + n)) = (48 + n :: nat)" by simp
  with \<open>n < 10\<close> show ?thesis by (simp add: is_digit_def digit_value_def less_eq_char_def)
qed

lemma nat_digits_read: "list_all is_digit (nat_digits n) \<and> digits_value (nat_digits n) = n"
proof (induction n rule: nat_digits.induct)
  case (1 n)
  show ?case
  proof (cases "n < 10")
    case True
    then show ?thesis using digit_char by (simp add: nat_digits.simps [of n] digits_value_def)
  next
    case False
    with 1 have "list_all is_digit (nat_digits (n div 10))" "digits_value (nat_digits (n div 10)) = n div 10"
      by auto
    with False digit_char [of "n mod 10"] show ?thesis
      by (simp add: nat_digits.simps [of n] digits_value_def)
  qed
qed

lemma identifier_no_quote: "is_identifier s \<Longrightarrow> c \<in> set s \<Longrightarrow> c \<noteq> CHR 0x22 \<and> c \<noteq> CHR 0x5C"
  by (auto simp: is_identifier_def list_all_iff is_lower_def is_digit_def less_eq_char_def)

lemma identifier_chars: "is_identifier s \<Longrightarrow> c \<in> set s \<Longrightarrow> 48 \<le> (of_char c :: nat) \<and> (of_char c :: nat) \<le> 122"
  by (auto simp: is_identifier_def list_all_iff is_lower_def is_digit_def less_eq_char_def)

lemma identifier_not_space: "is_identifier s \<Longrightarrow> \<forall>c \<in> set s. \<not> is_space c \<and> \<not> digit7 c"
proof
  fix c assume "is_identifier s" "c \<in> set s"
  then have c: "48 \<le> (of_char c :: nat)" "(of_char c :: nat) \<le> 122" using identifier_chars by blast+
  have "digit7 c \<Longrightarrow> 128 \<le> (of_char c :: nat)" by (cases c) simp
  then have "\<not> digit7 c" using c(2) by linarith
  moreover have "\<not> is_space c" using c(1) by (auto simp: is_space_def)
  ultimately show "\<not> is_space c \<and> \<not> digit7 c" by simp
qed

lemma identifier_go_quote: "is_identifier s \<Longrightarrow> go_quote s = CHR 0x22 # s @ [CHR 0x22]"
proof -
  assume s: "is_identifier s"
  have "quote_char c = [c]" if "c \<in> set s" for c
    using identifier_no_quote [OF s that] identifier_chars [OF s that] by (auto simp: quote_char_def Let_def)
  then have "map quote_char s = map (\<lambda>c. [c]) s" by simp
  then show ?thesis unfolding go_quote_def by (simp only:) (simp add: concat_map_singleton)
qed

end
