(* ===== verification/Config_Validate.thy ===== *)
theory Config_Validate
  imports Config_Parse
begin

text \<open>
  \<open>internal/config/validate.go\<close>: every check of the configuration.  A validator returns the list of the
  problems it adds, in the order the code adds them; the streams are visited in the order of the
  association list, which is one of the orders a Go map may have.

  The text of a \<open>float64\<close> under \<open>%v\<close> appears in two messages only; \<open>fmt_float\<close> is the function that
  renders it.
\<close>

subsection \<open>Definitions\<close>

definition problem :: "bool \<Rightarrow> string \<Rightarrow> err list" where
  "problem bad text = (if bad then [ErrorString text] else [])"

definition validateApp :: "config \<Rightarrow> err list" where
  "validateApp c =
     problem (trim_space (app_name (cfg_app c)) = []) ''OUTBOX_APP_NAME must not be empty''
     @ problem (app_shutdown_timeout (cfg_app c) \<le> 0)
         (''OUTBOX_APP_SHUTDOWN_TIMEOUT must be positive, got '' @ duration_string (app_shutdown_timeout (cfg_app c)))"

definition logLevels :: "string list" where
  "logLevels = [''trace'', ''debug'', ''info'', ''warn'', ''error'', ''fatal'', ''panic'']"

definition validateLog :: "config \<Rightarrow> err list" where
  "validateLog c =
     (let l = cfg_log c; f = to_lower (log_format l) in
      problem (to_lower (log_level l) \<notin> set logLevels)
        (''OUTBOX_LOG_LEVEL '' @ go_quote (log_level l) @ '' is not one of '' @ join_with '', '' logLevels)
      @ problem (f \<noteq> ''console'' \<and> f \<noteq> ''text'' \<and> f \<noteq> ''json'')
          (''OUTBOX_LOG_FORMAT '' @ go_quote (log_format l) @ '' is not one of console, text, json''))"

definition validateDB :: "config \<Rightarrow> err list" where
  "validateDB c =
     (let d = cfg_db c in
      (if db_dsn d = [] then
         problem (db_user d = []) ''either OUTBOX_DB_DSN or OUTBOX_DB_USER must be set''
         @ problem (db_name d = []) ''either OUTBOX_DB_DSN or OUTBOX_DB_NAME must be set''
         @ problem (db_port d < 1 \<or> db_port d > 65535)
             (''OUTBOX_DB_PORT must be between 1 and 65535, got '' @ itoa (db_port d))
       else [])
      @ problem (\<not> is_identifier (db_schema d))
          (''OUTBOX_DB_SCHEMA '' @ go_quote (db_schema d) @ '' is not a valid lower-case unquoted identifier'')
      @ problem (\<not> is_identifier (db_table d))
          (''OUTBOX_DB_TABLE '' @ go_quote (db_table d) @ '' is not a valid lower-case unquoted identifier'')
      @ problem (db_max_conns d < 1) (''OUTBOX_DB_MAX_CONNS must be at least 1, got '' @ itoa (db_max_conns d))
      @ problem (db_min_conns d < 0) (''OUTBOX_DB_MIN_CONNS must not be negative, got '' @ itoa (db_min_conns d))
      @ problem (db_min_conns d > db_max_conns d)
          (''OUTBOX_DB_MIN_CONNS ('' @ itoa (db_min_conns d) @ '') must not exceed OUTBOX_DB_MAX_CONNS (''
           @ itoa (db_max_conns d) @ '')'')
      @ problem (db_connect_timeout d \<le> 0)
          (''OUTBOX_DB_CONNECT_TIMEOUT must be positive, got '' @ duration_string (db_connect_timeout d)))"

definition validateDispatch :: "(float64 \<Rightarrow> string) \<Rightarrow> config \<Rightarrow> err list" where
  "validateDispatch fmt_float c =
     (let d = cfg_dispatch c in
      problem (dc_batch_size d < 1) (''OUTBOX_DISPATCH_BATCH_SIZE must be at least 1, got '' @ itoa (dc_batch_size d))
      @ problem (dc_workers d < 1) (''OUTBOX_DISPATCH_WORKERS must be at least 1, got '' @ itoa (dc_workers d))
      @ problem (dc_max_attempts d < 1)
          (''OUTBOX_DISPATCH_MAX_ATTEMPTS must be at least 1, got '' @ itoa (dc_max_attempts d))
      @ problem (dc_max_defer d < 0)
          (''OUTBOX_DISPATCH_MAX_DEFER must not be negative, got '' @ duration_string (dc_max_defer d))
      @ problem (dc_max_defer d > 0 \<and> dc_backoff_base d > 0 \<and> dc_max_defer d < dc_backoff_base d)
          (''OUTBOX_DISPATCH_MAX_DEFER ('' @ duration_string (dc_max_defer d)
           @ '') must not be below OUTBOX_DISPATCH_BACKOFF_BASE ('' @ duration_string (dc_backoff_base d)
           @ ''), otherwise a deferred message fails before it is retried once'')
      @ problem (dc_pause_max d < 0)
          (''OUTBOX_DISPATCH_PAUSE_MAX must not be negative, got '' @ duration_string (dc_pause_max d))
      @ problem (dc_poll_interval d \<le> 0)
          (''OUTBOX_DISPATCH_POLL_INTERVAL must be positive, got '' @ duration_string (dc_poll_interval d))
      @ problem (dc_lease_ttl d \<le> 0)
          (''OUTBOX_DISPATCH_LEASE_TTL must be positive, got '' @ duration_string (dc_lease_ttl d))
      @ problem (dc_publish_timeout d \<le> 0)
          (''OUTBOX_DISPATCH_PUBLISH_TIMEOUT must be positive, got '' @ duration_string (dc_publish_timeout d))
      @ problem (dc_lease_ttl d > 0 \<and> dc_publish_timeout d > 0 \<and> dc_lease_ttl d \<le> dc_publish_timeout d)
          (''OUTBOX_DISPATCH_LEASE_TTL ('' @ duration_string (dc_lease_ttl d)
           @ '') must exceed OUTBOX_DISPATCH_PUBLISH_TIMEOUT ('' @ duration_string (dc_publish_timeout d)
           @ ''), otherwise every claim expires mid-flight'')
      @ problem (dc_backoff_base d \<le> 0)
          (''OUTBOX_DISPATCH_BACKOFF_BASE must be positive, got '' @ duration_string (dc_backoff_base d))
      @ problem (dc_backoff_max d > 0 \<and> dc_backoff_max d < dc_backoff_base d)
          (''OUTBOX_DISPATCH_BACKOFF_MAX ('' @ duration_string (dc_backoff_max d)
           @ '') must not be below OUTBOX_DISPATCH_BACKOFF_BASE ('' @ duration_string (dc_backoff_base d) @ '')'')
      @ problem (f_less (dc_backoff_jitter d) (Finite 0) \<or> f_less (Finite 1) (dc_backoff_jitter d))
          (''OUTBOX_DISPATCH_BACKOFF_JITTER must be between 0 and 1, got '' @ fmt_float (dc_backoff_jitter d))
      @ problem (dc_notify_enabled d \<and> trim_space (dc_notify_channel d) = [])
          ''OUTBOX_DISPATCH_NOTIFY_CHANNEL must not be empty when notifications are enabled''
      @ problem (dc_notify_enabled d \<and> \<not> is_identifier (dc_notify_channel d))
          (''OUTBOX_DISPATCH_NOTIFY_CHANNEL '' @ go_quote (dc_notify_channel d) @ '' is not a valid identifier''))"

definition validateJanitor :: "config \<Rightarrow> err list" where
  "validateJanitor c =
     (let j = cfg_janitor c in
      if \<not> jc_enabled j then []
      else
        problem (jc_reclaim_interval j \<le> 0)
          (''OUTBOX_JANITOR_RECLAIM_INTERVAL must be positive, got '' @ duration_string (jc_reclaim_interval j))
        @ problem (jc_stats_interval j \<le> 0)
            (''OUTBOX_JANITOR_STATS_INTERVAL must be positive, got '' @ duration_string (jc_stats_interval j))
        @ (if jc_retention j > 0 then
             problem (jc_retention_interval j \<le> 0)
               (''OUTBOX_JANITOR_RETENTION_INTERVAL must be positive, got '' @ duration_string (jc_retention_interval j))
             @ problem (jc_retention_batch j < 1)
                 (''OUTBOX_JANITOR_RETENTION_BATCH must be at least 1, got '' @ itoa (jc_retention_batch j))
           else []))"

definition check_port :: "string \<Rightarrow> int \<Rightarrow> err list" where
  "check_port name port = problem (port < 1 \<or> port > 65535) (name @ '' must be between 1 and 65535, got '' @ itoa port)"

definition validatePorts :: "config \<Rightarrow> err list" where
  "validatePorts c =
     (let h = cfg_http c; m = cfg_metrics c in
      (if http_enabled h then check_port ''OUTBOX_HTTP_PORT'' (http_port h) else [])
      @ (if mc_enabled m then
           check_port ''OUTBOX_METRICS_PORT'' (mc_port m)
           @ problem (\<not> has_prefix (mc_path m) ''/'')
               (''OUTBOX_METRICS_PATH '' @ go_quote (mc_path m) @ '' must start with /'')
         else [])
      @ problem (http_enabled h \<and> mc_enabled m \<and> http_port h = mc_port m)
          (''OUTBOX_HTTP_PORT and OUTBOX_METRICS_PORT must differ, both are '' @ itoa (http_port h)))"

definition validateJanitorPartitions :: "config \<Rightarrow> err list" where
  "validateJanitorPartitions c =
     problem (jc_partition_ahead (cfg_janitor c) < 0)
       (''OUTBOX_JANITOR_PARTITION_AHEAD must not be negative, got '' @ itoa (jc_partition_ahead (cfg_janitor c)))"

definition validateOTel :: "(float64 \<Rightarrow> string) \<Rightarrow> config \<Rightarrow> err list" where
  "validateOTel fmt_float c =
     (let o' = cfg_otel c in
      problem (f_less (otel_sampling o') (Finite 0) \<or> f_less (Finite 1) (otel_sampling o'))
        (''OUTBOX_OTEL_SAMPLING must be between 0 and 1, got '' @ fmt_float (otel_sampling o'))
      @ problem (contains_str (otel_endpoint o') ''://'')
          (''OUTBOX_OTEL_ENDPOINT must be host:port without a scheme, got '' @ go_quote (otel_endpoint o')))"

definition validateBrokers :: "config \<Rightarrow> bool \<Rightarrow> err list" where
  "validateBrokers c brokersFailed =
     (let b = cfg_brokers c; q = cfg_dlq c in
      problem (bc_streams b = [] \<and> \<not> brokersFailed) ''at least one stream must be configured through OUTBOX_STREAMS''
      @ concat (map (\<lambda>(name, stream).
            problem (map_of (bc_drivers b) (sc_driver stream) = None)
              (''stream '' @ go_quote name @ '' refers to driver '' @ go_quote (sc_driver stream)
               @ '', which is not configured'')) (bc_streams b))
      @ (if \<not> dlq_enabled q then []
         else
           (if dlq_stream q = [] then
              problem True ''OUTBOX_DLQ_STREAM must be set when the dead-letter queue is enabled''
            else
              problem (map_of (bc_streams b) (to_lower (dlq_stream q)) = None)
                (''OUTBOX_DLQ_STREAM '' @ go_quote (dlq_stream q) @ '' is not among the configured streams''))
           @ problem (trim_space (dlq_topic q) = [])
               ''OUTBOX_DLQ_TOPIC must not be empty when the dead-letter queue is enabled''))"

definition joinErrors :: "err list \<Rightarrow> string \<Rightarrow> string" where
  "joinErrors errs sep = join_with sep (map err_text errs)"

definition report :: "err list \<Rightarrow> err option" where
  "report errs =
     (if errs = [] then None
      else Some (ErrorString (''invalid configuration:'' @ [CHR 0x0A] @ ''  - '' @ joinErrors errs ([CHR 0x0A] @ ''  - ''))))"

definition problems :: "(float64 \<Rightarrow> string) \<Rightarrow> err option \<Rightarrow> config \<Rightarrow> err list" where
  "problems fmt_float prior c =
     (case prior of Some e \<Rightarrow> [Errorf ''broker configuration: '' e []] | None \<Rightarrow> [])
     @ validateApp c @ validateLog c @ validateDB c @ validateDispatch fmt_float c @ validateJanitor c
     @ validatePorts c @ validateJanitorPartitions c @ validateOTel fmt_float c
     @ validateBrokers c (prior \<noteq> None)"

definition validate :: "(float64 \<Rightarrow> string) \<Rightarrow> err option \<Rightarrow> config \<Rightarrow> err option" where
  "validate fmt_float prior c = report (problems fmt_float prior c)"

definition Validate :: "(float64 \<Rightarrow> string) \<Rightarrow> config \<Rightarrow> err option" where
  "Validate fmt_float c = validate fmt_float None c"

definition validateAdmin :: "config \<Rightarrow> err option" where
  "validateAdmin c = report (validateDB c)"

subsection \<open>Lemmas\<close>

lemma problem_nil [simp]: "problem bad text = [] \<longleftrightarrow> \<not> bad"
  by (simp add: problem_def)

lemma report_None [simp]: "report errs = None \<longleftrightarrow> errs = []"
  by (simp add: report_def)

lemma validate_None:
  "validate fmt_float prior c = None \<longleftrightarrow>
     prior = None \<and> validateApp c = [] \<and> validateLog c = [] \<and> validateDB c = []
     \<and> validateDispatch fmt_float c = [] \<and> validateJanitor c = [] \<and> validatePorts c = []
     \<and> validateJanitorPartitions c = [] \<and> validateOTel fmt_float c = [] \<and> validateBrokers c False = []"
  by (cases prior) (auto simp: validate_def problems_def)

text \<open>
  What a configuration that passes guarantees the components.  The tests on the two fractions let a NaN through,
  as no comparison with it is true.
\<close>

definition fraction_ok :: "float64 \<Rightarrow> bool" where
  "fraction_ok x \<longleftrightarrow> x = NaN \<or> (\<exists>q. x = Finite q \<and> 0 \<le> q \<and> q \<le> 1)"

definition dispatch_ok :: "dispatch_config \<Rightarrow> bool" where
  "dispatch_ok d \<longleftrightarrow> 1 \<le> dc_batch_size d \<and> 1 \<le> dc_workers d \<and> 1 \<le> dc_max_attempts d \<and> 0 \<le> dc_max_defer d
     \<and> (dc_max_defer d = 0 \<or> dc_backoff_base d \<le> dc_max_defer d) \<and> 0 \<le> dc_pause_max d \<and> 0 < dc_poll_interval d
     \<and> 0 < dc_publish_timeout d \<and> dc_publish_timeout d < dc_lease_ttl d \<and> 0 < dc_backoff_base d
     \<and> (dc_backoff_max d \<le> 0 \<or> dc_backoff_base d \<le> dc_backoff_max d)
     \<and> fraction_ok (dc_backoff_jitter d)
     \<and> (dc_notify_enabled d \<longrightarrow> is_identifier (dc_notify_channel d))"

lemma validateDispatch_ok: "validateDispatch fmt_float c = [] \<longleftrightarrow> dispatch_ok (cfg_dispatch c)"
proof -
  have "is_identifier ch \<Longrightarrow> trim_space ch \<noteq> []" for ch
    using trim_space_id [OF identifier_not_space] by (auto simp: is_identifier_def)
  then show ?thesis
    by (auto simp: validateDispatch_def dispatch_ok_def fraction_ok_def f_between [symmetric] Let_def not_less not_le)
qed

definition brokers_ok :: "broker_config \<Rightarrow> bool" where
  "brokers_ok b \<longleftrightarrow> bc_streams b \<noteq> []
     \<and> (\<forall>(name, stream) \<in> set (bc_streams b). map_of (bc_drivers b) (sc_driver stream) \<noteq> None)"

lemma validateBrokers_ok: "validateBrokers c False = [] \<Longrightarrow> brokers_ok (cfg_brokers c)"
  by (auto simp: validateBrokers_def brokers_ok_def Let_def split: if_splits)

end
