(* ===== verification/Config_Brokers.thy ===== *)
theory Config_Brokers
  imports Config_Validate "HOL-Library.AList"
begin

text \<open>
  \<open>loadBrokers\<close> of \<open>internal/config/broker.go\<close> with the three driver builders, and \<open>decode\<close> of
  \<open>internal/config/load.go\<close>: from the variables of the environment to a configuration.

  A \<open>Source\<close> is an association list with distinct upper-case keys.  Code of other packages is an
  argument: \<open>url_string\<close> renders the database URL, \<open>b64\<close> and \<open>is_pem\<close> are the base64 and PEM decoders of
  the standard library, and \<open>bound\<close> is what the binding library makes of the plain settings.
\<close>

type_synonym source = "(string \<times> string) list"

subsection \<open>Lookups\<close>

definition lookup :: "source \<Rightarrow> string \<Rightarrow> string" where
  "lookup src key = (case map_of src key of None \<Rightarrow> [] | Some v \<Rightarrow> v)"

definition stream_driver_key :: "string \<Rightarrow> string" where
  "stream_driver_key stream = ''OUTBOX_STREAM_'' @ envToken stream @ ''_DRIVER''"

definition driver_prefix :: "string \<Rightarrow> string" where
  "driver_prefix name = ''OUTBOX_DRIVER_'' @ envToken name @ ''_''"

definition parseDriverType :: "string \<Rightarrow> err + driver_type" where
  "parseDriverType s =
     (if s \<in> {''rmq'', ''rabbit'', ''rabbitmq'', ''amqp''} then Inr DriverRabbitMQ
      else if s = ''kafka'' then Inr DriverKafka
      else if s \<in> {''postgres'', ''postgresql'', ''pg'', ''inbox''} then Inr DriverPostgres
      else Inl (ErrorString (''unsupported driver type '' @ go_quote s @ '' (want rabbitmq, kafka or postgres)'')))"

definition commonDriverKeys :: "string list" where
  "commonDriverKeys = [''TYPE'', ''PREFIX'', ''PREFIX_SEP'', ''VERSION_SEP'']"

fun driver_keys :: "driver_type \<Rightarrow> string list" where
  "driver_keys DriverRabbitMQ =
     [''DSN'', ''CHANNELS'', ''DECLARE'', ''MANDATORY'', ''PUBLISH_TIMEOUT'', ''RECONNECT_DELAY'']"
| "driver_keys DriverKafka =
     [''BROKERS'', ''SECURITY_PROTOCOL'', ''SASL_MECHANISM'', ''SASL_USERNAME'', ''SASL_PASSWORD'',
      ''SSL_CA_PEM_B64'', ''SSL_CERT_PEM_B64'', ''SSL_KEY_PEM_B64'',
      ''COMPRESSION'', ''REQUIRED_ACKS'', ''MAX_ATTEMPTS'', ''WRITE_TIMEOUT'', ''ALLOW_AUTO_TOPIC_CREATION'']"
| "driver_keys DriverPostgres = [''DSN'', ''SCHEMA'', ''TABLE'', ''WRITE_TIMEOUT'', ''MAX_CONNS'']"

subsection \<open>Driver builders\<close>

text \<open>A check that ends the builder, and a fallible step whose error gets a prefix.\<close>

definition require :: "bool \<Rightarrow> string \<Rightarrow> err + 'a \<Rightarrow> err + 'a" where
  "require ok text k = (if ok then k else Inl (ErrorString text))"

definition try_step :: "err + 'a \<Rightarrow> string \<Rightarrow> ('a \<Rightarrow> err + 'b) \<Rightarrow> err + 'b" where
  "try_step r text k = (case r of Inl e \<Rightarrow> Inl (Errorf (text @ '': '') e []) | Inr x \<Rightarrow> k x)"

definition buildRabbitDriver :: "string \<Rightarrow> naming \<Rightarrow> (string \<Rightarrow> string) \<Rightarrow> err + rabbitmq_driver" where
  "buildRabbitDriver name naming get =
     (let dsn = get ''DSN'' in
      require (dsn \<noteq> []) ''DSN is required''
      (require (has_prefix dsn ''amqp://'' \<or> has_prefix dsn ''amqps://'') ''DSN must start with amqp:// or amqps://''
      (try_step (intOrDefault (get ''CHANNELS'') 4) ''CHANNELS'' (\<lambda>channels.
       require (1 \<le> channels \<and> channels \<le> 128) (''CHANNELS must be between 1 and 128, got '' @ itoa channels)
      (try_step (boolOrDefault (get ''DECLARE'') False) ''DECLARE'' (\<lambda>decl.
       try_step (boolOrDefault (get ''MANDATORY'') True) ''MANDATORY'' (\<lambda>mandatory.
       try_step (durationOrDefault (get ''PUBLISH_TIMEOUT'') (15 * second)) ''PUBLISH_TIMEOUT'' (\<lambda>publishTimeout.
       try_step (durationOrDefault (get ''RECONNECT_DELAY'') second) ''RECONNECT_DELAY'' (\<lambda>reconnectDelay.
       Inr \<lparr>rd_name = name, rd_naming = naming, rd_dsn = dsn, rd_channels = channels, rd_declare = decl,
            rd_mandatory = mandatory, rd_publish_timeout = publishTimeout,
            rd_reconnect_delay = reconnectDelay\<rparr>)))))))))"

definition kafkaProtocols :: "string list" where
  "kafkaProtocols = [''PLAINTEXT'', ''SSL'', ''SASL_PLAINTEXT'', ''SASL_SSL'']"

definition kafkaMechanisms :: "string list" where
  "kafkaMechanisms = [''PLAIN'', ''SCRAM-SHA-256'', ''SCRAM-SHA-512'']"

definition kafkaCompression :: "string list" where
  "kafkaCompression = [''none'', ''gzip'', ''snappy'', ''lz4'', ''zstd'']"

definition kafkaAcks :: "string list" where
  "kafkaAcks = [''none'', ''one'', ''all'']"

definition decodePEM :: "(string \<Rightarrow> err + bytes) \<Rightarrow> (bytes \<Rightarrow> bool) \<Rightarrow> string \<Rightarrow> err + bytes" where
  "decodePEM b64 is_pem src =
     (if src = [] then Inr []
      else try_step (b64 src) ''not valid base64'' (\<lambda>raw.
        require (is_pem raw) ''decodes to something that is not PEM'' (Inr raw)))"

definition not_one_of :: "string \<Rightarrow> string \<Rightarrow> string list \<Rightarrow> string" where
  "not_one_of key v vs = key @ '' '' @ go_quote v @ '' is not one of '' @ join_with '', '' vs"

text \<open>The three SASL settings come together or not at all.\<close>

definition check_sasl :: "string \<Rightarrow> string \<Rightarrow> string \<Rightarrow> string \<Rightarrow> err + 'a \<Rightarrow> err + 'a" where
  "check_sasl protocol mechanism username password k =
     (if has_prefix protocol ''SASL'' then
        require (mechanism \<noteq> []) (''SECURITY_PROTOCOL='' @ protocol @ '' requires SASL_MECHANISM'')
        (require (username \<noteq> [] \<and> password \<noteq> [])
          (''SECURITY_PROTOCOL='' @ protocol @ '' requires SASL_USERNAME and SASL_PASSWORD'') k)
      else
        require (mechanism = []) ''SASL_MECHANISM is set but SECURITY_PROTOCOL is not a SASL_* protocol'' k)"

definition buildKafkaDriver ::
  "(string \<Rightarrow> err + bytes) \<Rightarrow> (bytes \<Rightarrow> bool) \<Rightarrow> string \<Rightarrow> naming \<Rightarrow> (string \<Rightarrow> string) \<Rightarrow> err + kafka_driver" where
  "buildKafkaDriver b64 is_pem name naming get =
     (let brokers = parseList (get ''BROKERS'');
          protocol = to_upper (get ''SECURITY_PROTOCOL'');
          mechanism = to_upper (get ''SASL_MECHANISM'');
          username = get ''SASL_USERNAME''; password = get ''SASL_PASSWORD'';
          compression = to_lower (orDefault (get ''COMPRESSION'') ''none'');
          acks = to_lower (orDefault (get ''REQUIRED_ACKS'') ''all'') in
      require (brokers \<noteq> []) ''BROKERS is required''
      (require (protocol = [] \<or> protocol \<in> set kafkaProtocols) (not_one_of ''SECURITY_PROTOCOL'' protocol kafkaProtocols)
      (require (mechanism = [] \<or> mechanism \<in> set kafkaMechanisms) (not_one_of ''SASL_MECHANISM'' mechanism kafkaMechanisms)
      (check_sasl protocol mechanism username password
      (try_step (decodePEM b64 is_pem (get ''SSL_CA_PEM_B64'')) ''SSL_CA_PEM_B64'' (\<lambda>ca.
       try_step (decodePEM b64 is_pem (get ''SSL_CERT_PEM_B64'')) ''SSL_CERT_PEM_B64'' (\<lambda>cert.
       try_step (decodePEM b64 is_pem (get ''SSL_KEY_PEM_B64'')) ''SSL_KEY_PEM_B64'' (\<lambda>key.
       require ((cert = []) = (key = [])) ''SSL_CERT_PEM_B64 and SSL_KEY_PEM_B64 must be set together''
      (require (compression \<in> set kafkaCompression) (not_one_of ''COMPRESSION'' compression kafkaCompression)
      (require (acks \<in> set kafkaAcks) (not_one_of ''REQUIRED_ACKS'' acks kafkaAcks)
      (try_step (intOrDefault (get ''MAX_ATTEMPTS'') 3) ''MAX_ATTEMPTS'' (\<lambda>maxAttempts.
       require (1 \<le> maxAttempts) (''MAX_ATTEMPTS must be at least 1, got '' @ itoa maxAttempts)
      (try_step (durationOrDefault (get ''WRITE_TIMEOUT'') (15 * second)) ''WRITE_TIMEOUT'' (\<lambda>writeTimeout.
       try_step (boolOrDefault (get ''ALLOW_AUTO_TOPIC_CREATION'') False) ''ALLOW_AUTO_TOPIC_CREATION'' (\<lambda>autoCreate.
       Inr \<lparr>kd_name = name, kd_naming = naming, kd_brokers = brokers, kd_security_protocol = protocol,
            kd_sasl_mechanism = mechanism, kd_sasl_username = username, kd_sasl_password = password,
            kd_ssl_ca_pem = ca, kd_ssl_cert_pem = cert, kd_ssl_key_pem = key, kd_compression = compression,
            kd_required_acks = acks, kd_max_attempts = maxAttempts, kd_write_timeout = writeTimeout,
            kd_allow_auto_topic_creation = autoCreate\<rparr>)))))))))))))))"

definition ConnString :: "(db_config \<Rightarrow> string) \<Rightarrow> db_config \<Rightarrow> string" where
  "ConnString url_string c = (if db_dsn c \<noteq> [] then db_dsn c else url_string c)"

definition driver_says :: "string \<Rightarrow> string \<Rightarrow> string" where
  "driver_says name text = ''driver '' @ go_quote name @ '': '' @ text"

definition buildPostgresDriver ::
  "(db_config \<Rightarrow> string) \<Rightarrow> string \<Rightarrow> naming \<Rightarrow> (string \<Rightarrow> string) \<Rightarrow> db_config \<Rightarrow> err + postgres_driver" where
  "buildPostgresDriver url_string name naming get db =
     (let sameDatabase = (get ''DSN'' = []);
          dsn = (if sameDatabase then ConnString url_string db else get ''DSN'');
          schema = get ''SCHEMA''; tab = get ''TABLE'' in
      require (dsn \<noteq> []) (driver_says name ''no DSN, and the dispatcher's own database is not configured either'')
      (require (schema \<noteq> []) (driver_says name ''SCHEMA is not set'')
      (require (tab \<noteq> []) (driver_says name ''TABLE is not set'')
      (require (is_identifier schema)
         (driver_says name (''SCHEMA '' @ go_quote schema @ '' is not a valid lower-case unquoted identifier''))
      (require (is_identifier tab)
         (driver_says name (''TABLE '' @ go_quote tab @ '' is not a valid lower-case unquoted identifier''))
      (require (\<not> (sameDatabase \<and> schema = db_schema db \<and> tab = db_table db))
         (driver_says name (''the destination is the dispatcher's own outbox table ('' @ schema @ ''.'' @ tab
            @ ''), which would deliver to itself''))
      (try_step (durationOrDefault (get ''WRITE_TIMEOUT'') (15 * second)) (driver_says name ''WRITE_TIMEOUT'') (\<lambda>writeTimeout.
       require (0 < writeTimeout)
         (driver_says name (''WRITE_TIMEOUT must be positive, got '' @ duration_string writeTimeout))
      (try_step (intOrDefault (get ''MAX_CONNS'') 4) (driver_says name ''MAX_CONNS'') (\<lambda>maxConns.
       require (1 \<le> maxConns \<and> maxConns \<le> 64)
         (driver_says name (''MAX_CONNS must be between 1 and 64, got '' @ itoa maxConns))
       (Inr \<lparr>pd_name = name, pd_naming = naming, pd_dsn = trim_space dsn, pd_same_database = sameDatabase,
             pd_schema = schema, pd_table = tab, pd_write_timeout = writeTimeout, pd_max_conns = maxConns\<rparr>)))))))))))"

definition Qualified :: "postgres_driver \<Rightarrow> string" where
  "Qualified d = go_quote (pd_schema d) @ ''.'' @ go_quote (pd_table d)"

subsection \<open>One driver\<close>

definition belongsToOtherDriver :: "string \<Rightarrow> string \<Rightarrow> string list \<Rightarrow> bool" where
  "belongsToOtherDriver key self allNames \<longleftrightarrow>
     list_ex (\<lambda>other. other \<noteq> self \<and> length self < length other \<and> has_prefix key (driver_prefix other)) allNames"

definition prefixAll :: "string \<Rightarrow> string list \<Rightarrow> string list" where
  "prefixAll ns keys = sort (map (\<lambda>k. ns @ k) keys)"

definition unknown_keys :: "source \<Rightarrow> string \<Rightarrow> string \<Rightarrow> string list \<Rightarrow> string list \<Rightarrow> string list" where
  "unknown_keys src ns name allNames known =
     filter (\<lambda>key. has_prefix key ns \<and> drop (length ns) key \<noteq> []
         \<and> drop (length ns) key \<notin> set known \<and> \<not> belongsToOtherDriver key name allNames) (map fst src)"

definition rejectUnknownKeys ::
  "source \<Rightarrow> string \<Rightarrow> string \<Rightarrow> string list \<Rightarrow> string list \<Rightarrow> err option" where
  "rejectUnknownKeys src ns name allNames known =
     (let unknown = unknown_keys src ns name allNames known in
      if unknown = [] then None
      else Some (ErrorString (''unknown setting(s) '' @ join_with '', '' (sort unknown) @ ''; supported keys are ''
             @ join_with '', '' (prefixAll ns known))))"

definition driver_naming_for :: "driver_type \<Rightarrow> (string \<Rightarrow> string) \<Rightarrow> naming" where
  "driver_naming_for dType get =
     (let sep = (if dType = DriverRabbitMQ then ''_'' else ''.'') in
      \<lparr>n_prefix = get ''PREFIX'', n_prefix_sep = orDefault (get ''PREFIX_SEP'') sep,
       n_version_sep = orDefault (get ''VERSION_SEP'') sep\<rparr>)"

record load_args =
  la_url_string :: "db_config \<Rightarrow> string"
  la_b64 :: "string \<Rightarrow> err + bytes"
  la_is_pem :: "bytes \<Rightarrow> bool"

definition build_driver ::
  "load_args \<Rightarrow> driver_type \<Rightarrow> string \<Rightarrow> (string \<Rightarrow> string) \<Rightarrow> db_config \<Rightarrow> err + driver_config" where
  "build_driver la dType name get db =
     (let naming = driver_naming_for dType get in
      case dType of
        DriverRabbitMQ \<Rightarrow> map_sum id RabbitMQDriver (buildRabbitDriver name naming get)
      | DriverKafka \<Rightarrow> map_sum id KafkaDriver (buildKafkaDriver (la_b64 la) (la_is_pem la) name naming get)
      | DriverPostgres \<Rightarrow> map_sum id PostgresDriver (buildPostgresDriver (la_url_string la) name naming get db))"

definition loadDriver ::
  "load_args \<Rightarrow> source \<Rightarrow> string \<Rightarrow> string list \<Rightarrow> db_config \<Rightarrow> err + driver_config" where
  "loadDriver la src name allNames db =
     (let ns = driver_prefix name;
          get = (\<lambda>key. trim_space (lookup src (ns @ key)));
          rawType = to_lower (get ''TYPE'') in
      if rawType = [] then Inl (ErrorString (ns @ ''TYPE is not set''))
      else
        (case parseDriverType rawType of
           Inl e \<Rightarrow> Inl e
         | Inr dType \<Rightarrow>
            (case rejectUnknownKeys src ns name allNames (commonDriverKeys @ driver_keys dType) of
               Some e \<Rightarrow> Inl e
             | None \<Rightarrow> build_driver la dType name get db)))"

subsection \<open>The routing table\<close>

fun load_streams ::
  "source \<Rightarrow> string list \<Rightarrow> (string \<times> stream_config) list \<Rightarrow> string list
   \<Rightarrow> err + ((string \<times> stream_config) list \<times> string list)" where
  "load_streams src [] streams driverNames = Inr (streams, driverNames)"
| "load_streams src (name # names) streams driverNames =
     (let stream = to_lower name;
          key = stream_driver_key stream;
          driver = to_lower (trim_space (lookup src key)) in
      if driver = [] then Inl (ErrorString (''stream '' @ go_quote stream @ '': '' @ key @ '' is not set''))
      else load_streams src names (AList.update stream \<lparr>sc_name = stream, sc_driver = driver\<rparr> streams)
             (if driver \<in> set driverNames then driverNames else driverNames @ [driver]))"

fun rejectCollidingNames :: "(string \<times> string) list \<Rightarrow> string list \<Rightarrow> err option" where
  "rejectCollidingNames seen [] = None"
| "rejectCollidingNames seen (name # names) =
     (case map_of seen (envToken name) of
        Some other \<Rightarrow>
          Some (ErrorString (''drivers '' @ go_quote other @ '' and '' @ go_quote name @ '' both read ''
            @ ''OUTBOX_DRIVER_'' @ envToken name @ ''_* '' @ [CHR 0xE2, CHR 0x80, CHR 0x94]
            @ '' rename one so their settings are distinguishable''))
      | None \<Rightarrow> rejectCollidingNames ((envToken name, name) # seen) names)"

fun load_drivers ::
  "load_args \<Rightarrow> source \<Rightarrow> string list \<Rightarrow> db_config \<Rightarrow> string list \<Rightarrow> (string \<times> driver_config) list \<times> err list" where
  "load_drivers la src allNames db [] = ([], [])"
| "load_drivers la src allNames db (name # names) =
     (let (drivers, errs) = load_drivers la src allNames db names in
      case loadDriver la src name allNames db of
        Inl e \<Rightarrow> (drivers, Errorf (''driver '' @ go_quote name @ '': '') e [] # errs)
      | Inr d \<Rightarrow> ((name, d) # drivers, errs))"

definition stream_names :: "source \<Rightarrow> string list" where
  "stream_names src =
     (let names = parseList (lookup src ''OUTBOX_STREAMS'') in if names = [] then [''local''] else names)"

definition loadBrokers :: "load_args \<Rightarrow> source \<Rightarrow> db_config \<Rightarrow> err + broker_config" where
  "loadBrokers la src db =
     (case load_streams src (stream_names src) [] [] of
        Inl e \<Rightarrow> Inl e
      | Inr (streams, driverNames) \<Rightarrow>
         (case rejectCollidingNames [] driverNames of
            Some e \<Rightarrow> Inl e
          | None \<Rightarrow>
             (case load_drivers la src driverNames db driverNames of
                (drivers, errs) \<Rightarrow>
                  if errs \<noteq> [] then Inl (JoinError errs)
                  else Inr \<lparr>bc_streams = streams, bc_drivers = drivers\<rparr>)))"

subsection \<open>The whole configuration\<close>

definition empty_brokers :: broker_config where
  "empty_brokers = \<lparr>bc_streams = [], bc_drivers = []\<rparr>"

definition defaultInstance :: "string option \<Rightarrow> int \<Rightarrow> string" where
  "defaultInstance hostname pid =
     (case hostname of Some h \<Rightarrow> if h \<noteq> [] then h else ''pid-'' @ itoa pid | None \<Rightarrow> ''pid-'' @ itoa pid)"

definition decode ::
  "(float64 \<Rightarrow> string) \<Rightarrow> load_args \<Rightarrow> string option \<Rightarrow> int \<Rightarrow> source \<Rightarrow> err + config \<Rightarrow> bool \<Rightarrow> err + config" where
  "decode fmt_float la hostname pid src bound adminOnly =
     (case bound of
        Inl e \<Rightarrow> Inl (Errorf ''read configuration: '' e [])
      | Inr cfg0 \<Rightarrow>
         (let res = loadBrokers la src (cfg_db cfg0);
              cfg1 = cfg0\<lparr>cfg_brokers := (case res of Inl _ \<Rightarrow> empty_brokers | Inr b \<Rightarrow> b)\<rparr>;
              cfg = (if app_instance (cfg_app cfg1) = []
                     then cfg1\<lparr>cfg_app := (cfg_app cfg1)\<lparr>app_instance := defaultInstance hostname pid\<rparr>\<rparr>
                     else cfg1) in
          if adminOnly then (case validateAdmin cfg of Some e \<Rightarrow> Inl e | None \<Rightarrow> Inr cfg)
          else
            (case validate fmt_float (case res of Inl e \<Rightarrow> Some e | Inr _ \<Rightarrow> None) cfg of
               Some e \<Rightarrow> Inl e
             | None \<Rightarrow> Inr cfg)))"

subsection \<open>Lemmas\<close>

lemma lower_char_idem [simp]: "lower_char (lower_char c) = lower_char c"
proof (cases "is_upper c")
  case True
  then have "of_char c \<le> (90 :: nat)" by (simp add: is_upper_def less_eq_char_def)
  with True have "\<not> is_upper (lower_char c)"
    by (simp add: lower_char_def is_upper_def less_eq_char_def)
  then show ?thesis by (simp add: lower_char_def [of "lower_char c"])
qed (simp add: lower_char_def)

lemma to_lower_idem [simp]: "to_lower (to_lower s) = to_lower s"
  by (simp add: to_lower_def)

definition streams_ok :: "(string \<times> stream_config) list \<Rightarrow> string list \<Rightarrow> bool" where
  "streams_ok streams driverNames \<longleftrightarrow> distinct driverNames \<and> distinct (map fst streams)
     \<and> (\<forall>(name, c) \<in> set streams. sc_name c = name \<and> to_lower name = name \<and> sc_driver c \<in> set driverNames)"

lemma update_mem: "(k', v') \<in> set (AList.update k v al) \<Longrightarrow> k' = k \<and> v' = v \<or> (k', v') \<in> set al"
  by (induction al) (auto split: if_splits)

lemma load_streams_ok:
  "load_streams src names streams ds = Inr (streams', ds') \<Longrightarrow> streams_ok streams ds \<Longrightarrow>
   streams_ok streams' ds' \<and> (names \<noteq> [] \<or> streams \<noteq> [] \<longrightarrow> streams' \<noteq> [])"
proof (induction src names streams ds rule: load_streams.induct)
  case (2 src name names streams ds)
  let ?stream = "to_lower name" and ?driver = "to_lower (trim_space (lookup src (stream_driver_key (to_lower name))))"
  let ?streams = "AList.update ?stream \<lparr>sc_name = ?stream, sc_driver = ?driver\<rparr> streams"
  let ?ds = "if ?driver \<in> set ds then ds else ds @ [?driver]"
  have rec: "load_streams src names ?streams ?ds = Inr (streams', ds')" and d: "?driver \<noteq> []"
    using 2(2) by (auto simp: Let_def split: if_splits)
  have "streams_ok ?streams ?ds"
    using 2(3) distinct_update [of streams ?stream] 
    by (auto simp: streams_ok_def dest!: update_mem)
  from 2(1) [OF refl refl refl d rec this] show ?case by (cases streams) auto
qed auto

lemma rejectCollidingNames_None:
  "rejectCollidingNames seen names = None \<Longrightarrow>
   distinct (map envToken names) \<and> (\<forall>n \<in> set names. map_of seen (envToken n) = None)"
proof (induction seen names rule: rejectCollidingNames.induct)
  case (2 seen name names)
  then have n: "map_of seen (envToken name) = None" and rec: "rejectCollidingNames ((envToken name, name) # seen) names = None"
    by (auto split: option.splits)
  from 2(1) [OF n rec] n show ?case by (auto split: if_splits)
qed auto

lemma load_drivers_ok:
  "load_drivers la src allNames db names = (drivers, []) \<Longrightarrow>
   map fst drivers = names \<and> (\<forall>(name, d) \<in> set drivers. loadDriver la src name allNames db = Inr d)"
  by (induction names arbitrary: drivers) (auto split: prod.splits sum.splits)

lemma require_Inr: "require ok text k = Inr x \<longleftrightarrow> ok \<and> k = Inr x"
  by (simp add: require_def)

lemma try_step_Inr: "try_step r text k = Inr x \<longleftrightarrow> (\<exists>y. r = Inr y \<and> k y = Inr x)"
  by (auto simp: try_step_def split: sum.splits)

lemma buildRabbitDriver_name: "buildRabbitDriver name n get = Inr d \<Longrightarrow> rd_name d = name \<and> 1 \<le> rd_channels d"
  by (auto simp: buildRabbitDriver_def Let_def require_Inr try_step_Inr)

lemma buildKafkaDriver_name: "buildKafkaDriver b64 is_pem name n get = Inr d \<Longrightarrow> kd_name d = name \<and> kd_brokers d \<noteq> []"
  by (auto simp: buildKafkaDriver_def check_sasl_def Let_def require_Inr try_step_Inr split: if_splits)

lemma buildPostgresDriver_ok:
  "buildPostgresDriver url_string name n get db = Inr d \<Longrightarrow>
   pd_name d = name \<and> is_identifier (pd_schema d) \<and> is_identifier (pd_table d) \<and> 0 < pd_write_timeout d
   \<and> 1 \<le> pd_max_conns d \<and> pd_max_conns d \<le> 64
   \<and> \<not> (pd_same_database d \<and> pd_schema d = db_schema db \<and> pd_table d = db_table db)"
  by (auto simp: buildPostgresDriver_def Let_def require_Inr try_step_Inr)

lemma loadDriver_ok:
  assumes "loadDriver la src name allNames db = Inr d"
  shows "driver_name d = name
    \<and> unknown_keys src (driver_prefix name) name allNames (commonDriverKeys @ driver_keys (driver_type_of d)) = []
    \<and> (case d of PostgresDriver p \<Rightarrow> is_identifier (pd_schema p) \<and> is_identifier (pd_table p)
          \<and> \<not> (pd_same_database p \<and> pd_schema p = db_schema db \<and> pd_table p = db_table db)
        | _ \<Rightarrow> True)"
proof -
  obtain get dType where b: "build_driver la dType name get db = Inr d"
    and u: "unknown_keys src (driver_prefix name) name allNames (commonDriverKeys @ driver_keys dType) = []"
    using assms by (auto simp: loadDriver_def Let_def rejectUnknownKeys_def split: if_splits sum.splits option.splits)
  have "driver_type_of d = dType \<and> driver_name d = name
    \<and> (case d of PostgresDriver p \<Rightarrow> is_identifier (pd_schema p) \<and> is_identifier (pd_table p)
          \<and> \<not> (pd_same_database p \<and> pd_schema p = db_schema db \<and> pd_table p = db_table db)
        | _ \<Rightarrow> True)"
  proof (cases dType)
    case DriverRabbitMQ
    with b obtain r where "buildRabbitDriver name (driver_naming_for dType get) get = Inr r" "d = RabbitMQDriver r"
      by (auto simp: build_driver_def Let_def map_sum_def split: sum.splits)
    with DriverRabbitMQ show ?thesis by (auto dest: buildRabbitDriver_name)
  next
    case DriverKafka
    with b obtain r where "buildKafkaDriver (la_b64 la) (la_is_pem la) name (driver_naming_for dType get) get = Inr r" "d = KafkaDriver r"
      by (auto simp: build_driver_def Let_def map_sum_def split: sum.splits)
    with DriverKafka show ?thesis by (auto dest: buildKafkaDriver_name)
  next
    case DriverPostgres
    with b obtain r where "buildPostgresDriver (la_url_string la) name (driver_naming_for dType get) get db = Inr r" "d = PostgresDriver r"
      by (auto simp: build_driver_def Let_def map_sum_def split: sum.splits)
    with DriverPostgres show ?thesis by (auto dest: buildPostgresDriver_ok)
  qed
  with u show ?thesis by simp
qed

lemma loadBrokers_parts:
  assumes "loadBrokers la src db = Inr b"
  shows "\<exists>ds. streams_ok (bc_streams b) ds \<and> bc_streams b \<noteq> [] \<and> distinct (map envToken ds)
    \<and> load_drivers la src ds db ds = (bc_drivers b, [])"
proof -
  obtain streams ds drivers where s: "load_streams src (stream_names src) [] [] = Inr (streams, ds)"
    and c: "rejectCollidingNames [] ds = None" and d: "load_drivers la src ds db ds = (drivers, [])"
    and b: "b = \<lparr>bc_streams = streams, bc_drivers = drivers\<rparr>"
    using assms by (auto simp: loadBrokers_def split: sum.splits option.splits prod.splits if_splits)
  have "streams_ok [] []" by (simp add: streams_ok_def)
  moreover have "stream_names src \<noteq> []" by (simp add: stream_names_def Let_def)
  ultimately show ?thesis
    using load_streams_ok [OF s] rejectCollidingNames_None [OF c] d b by auto
qed

lemma map_of_fst_mem: "k \<in> fst ` set xs \<Longrightarrow> map_of xs k \<noteq> None"
  by (simp add: map_of_eq_None_iff)

end
