(* ===== verification/Config_Safety.thy ===== *)
theory Config_Safety
  imports Config_Brokers Broker_Router Store_Partition
begin

text \<open>
  What a loaded configuration guarantees: the declarative reading of validation, the closed routing
  table, and the identifiers that reach SQL text.
\<close>

subsection \<open>The declarative reading\<close>

definition db_ok :: "db_config \<Rightarrow> bool" where
  "db_ok d \<longleftrightarrow> (db_dsn d \<noteq> [] \<or> db_user d \<noteq> [] \<and> db_name d \<noteq> [] \<and> 1 \<le> db_port d \<and> db_port d \<le> 65535)
     \<and> is_identifier (db_schema d) \<and> is_identifier (db_table d)
     \<and> 1 \<le> db_max_conns d \<and> 0 \<le> db_min_conns d \<and> db_min_conns d \<le> db_max_conns d \<and> 0 < db_connect_timeout d"

definition janitor_ok :: "janitor_config \<Rightarrow> bool" where
  "janitor_ok j \<longleftrightarrow> 0 \<le> jc_partition_ahead j
     \<and> (jc_enabled j \<longrightarrow> 0 < jc_reclaim_interval j \<and> 0 < jc_stats_interval j
          \<and> (0 < jc_retention j \<longrightarrow> 0 < jc_retention_interval j \<and> 1 \<le> jc_retention_batch j))"

definition ports_ok :: "http_config \<Rightarrow> metrics_config \<Rightarrow> bool" where
  "ports_ok h m \<longleftrightarrow> (http_enabled h \<longrightarrow> 1 \<le> http_port h \<and> http_port h \<le> 65535)
     \<and> (mc_enabled m \<longrightarrow> 1 \<le> mc_port m \<and> mc_port m \<le> 65535 \<and> has_prefix (mc_path m) ''/'')
     \<and> (http_enabled h \<and> mc_enabled m \<longrightarrow> http_port h \<noteq> mc_port m)"

definition dlq_ok :: "dlq_config \<Rightarrow> broker_config \<Rightarrow> bool" where
  "dlq_ok q b \<longleftrightarrow> (dlq_enabled q \<longrightarrow> dlq_stream q \<noteq> [] \<and> trim_space (dlq_topic q) \<noteq> []
     \<and> config_DriverFor b (dlq_stream q) \<noteq> None)"

definition config_ok :: "config \<Rightarrow> bool" where
  "config_ok c \<longleftrightarrow>
     trim_space (app_name (cfg_app c)) \<noteq> [] \<and> 0 < app_shutdown_timeout (cfg_app c)
     \<and> to_lower (log_level (cfg_log c)) \<in> set logLevels
     \<and> to_lower (log_format (cfg_log c)) \<in> {''console'', ''text'', ''json''}
     \<and> db_ok (cfg_db c) \<and> dispatch_ok (cfg_dispatch c) \<and> janitor_ok (cfg_janitor c)
     \<and> ports_ok (cfg_http c) (cfg_metrics c)
     \<and> fraction_ok (otel_sampling (cfg_otel c))
     \<and> \<not> contains_str (otel_endpoint (cfg_otel c)) ''://''
     \<and> brokers_ok (cfg_brokers c) \<and> dlq_ok (cfg_dlq c) (cfg_brokers c)"

lemma validateDB_ok: "validateDB c = [] \<longleftrightarrow> db_ok (cfg_db c)"
  by (auto simp: validateDB_def db_ok_def Let_def not_less not_le split: if_splits)

lemma validateJanitor_ok:
  "validateJanitor c = [] \<and> validateJanitorPartitions c = [] \<longleftrightarrow> janitor_ok (cfg_janitor c)"
  by (auto simp: validateJanitor_def validateJanitorPartitions_def janitor_ok_def Let_def not_less not_le split: if_splits)

lemma validatePorts_ok: "validatePorts c = [] \<longleftrightarrow> ports_ok (cfg_http c) (cfg_metrics c)"
  by (auto simp: validatePorts_def check_port_def ports_ok_def Let_def not_less not_le split: if_splits)

lemma validateBrokers_iff: "validateBrokers c False = [] \<longleftrightarrow> brokers_ok (cfg_brokers c) \<and> dlq_ok (cfg_dlq c) (cfg_brokers c)"
  by (auto simp: validateBrokers_def brokers_ok_def dlq_ok_def config_DriverFor_def Let_def split: if_splits)

text \<open>An environment with one stream over RabbitMQ and one into a table, for the witnesses.\<close>

definition demo_source :: source where
  "demo_source =
     [(''OUTBOX_STREAMS'', ''local''), (''OUTBOX_STREAM_LOCAL_DRIVER'', ''in''),
      (''OUTBOX_DRIVER_IN_TYPE'', ''pg''), (''OUTBOX_DRIVER_IN_SCHEMA'', ''app''), (''OUTBOX_DRIVER_IN_TABLE'', ''inbox'')]"

definition demo_db :: db_config where
  "demo_db = \<lparr>db_dsn = ''postgres://h/d'', db_host = [], db_port = 5432, db_user = [], db_password = [], db_name = [],
     db_ssl_mode = [], db_schema = ''outbox'', db_table = ''messages'', db_max_conns = 10, db_min_conns = 2,
     db_connect_timeout = 5 * second, db_statement_timeout = 0, db_max_conn_lifetime = 0, db_max_conn_idle_time = 0,
     db_auto_migrate = False, db_migration_lock_key = 1\<rparr>"

definition demo_load :: load_args where
  "demo_load = \<lparr>la_url_string = (\<lambda>_. []), la_b64 = Inr, la_is_pem = (\<lambda>_. True)\<rparr>"

definition demo_settings :: config where
  "demo_settings =
     \<lparr>cfg_app = \<lparr>app_name = ''outbox'', app_env = ''prod'', app_instance = [], app_shutdown_timeout = 30 * second\<rparr>,
      cfg_log = \<lparr>log_level = ''info'', log_format = ''json'', log_caller = False\<rparr>,
      cfg_db = demo_db,
      cfg_dispatch = \<lparr>dc_poll_interval = 5 * second, dc_batch_size = 200, dc_workers = 8, dc_lease_ttl = 60 * second,
        dc_max_attempts = 10, dc_max_defer = 0, dc_backoff_base = second, dc_backoff_max = 300 * second,
        dc_backoff_jitter = Finite (1 / 5), dc_pause_max = 60 * second, dc_publish_timeout = 10 * second,
        dc_write_back_timeout = 10 * second, dc_notify_enabled = False, dc_notify_channel = [],
        dc_notify_debounce = 0, dc_notify_jitter = 0\<rparr>,
      cfg_janitor = \<lparr>jc_enabled = True, jc_reclaim_interval = 30 * second, jc_stats_interval = 30 * second,
        jc_partition_ahead = 3, jc_retention = 604800 * second, jc_retention_interval = 300 * second,
        jc_retention_batch = 5000, jc_lock_key = 809021150\<rparr>,
      cfg_http = \<lparr>http_enabled = True, http_port = 8085, http_read_timeout = 10 * second,
        http_write_timeout = 30 * second, http_shutdown_timeout = 10 * second, http_admin_token = []\<rparr>,
      cfg_metrics = \<lparr>mc_enabled = True, mc_port = 9100, mc_path = ''/metrics''\<rparr>,
      cfg_otel = \<lparr>otel_endpoint = [], otel_insecure = False, otel_sampling = Finite 1\<rparr>,
      cfg_dlq = \<lparr>dlq_enabled = False, dlq_stream = [], dlq_topic = ''outbox.dead-letter''\<rparr>,
      cfg_brokers = empty_brokers\<rparr>"

lemma demo_loads: "\<exists>b. loadBrokers demo_load demo_source demo_db = Inr b \<and> bc_drivers b \<noteq> []"
proof -
  have "case loadBrokers demo_load demo_source demo_db of Inl _ \<Rightarrow> False | Inr b \<Rightarrow> bc_drivers b \<noteq> []" by code_simp
  then show ?thesis by (auto split: sum.splits)
qed

subsection \<open>Properties\<close>

text \<open>
  C25.  Validation accepts exactly the configurations that satisfy every documented constraint, of every
  section at once - with one exception, which the declarative form shows: the jitter and the sampling
  fraction are between 0 and 1 or not a number (\<open>fraction_ok\<close>).
\<close>

theorem validate_accepts_exactly:
  "Validate fmt_float c = None \<longleftrightarrow> config_ok c"
proof -
  have app: "validateApp c = [] \<longleftrightarrow> trim_space (app_name (cfg_app c)) \<noteq> [] \<and> 0 < app_shutdown_timeout (cfg_app c)"
    by (auto simp: validateApp_def)
  have log: "validateLog c = [] \<longleftrightarrow> to_lower (log_level (cfg_log c)) \<in> set logLevels
      \<and> to_lower (log_format (cfg_log c)) \<in> {''console'', ''text'', ''json''}"
    by (auto simp: validateLog_def Let_def)
  have otel: "validateOTel fmt_float c = [] \<longleftrightarrow> fraction_ok (otel_sampling (cfg_otel c))
      \<and> \<not> contains_str (otel_endpoint (cfg_otel c)) ''://''"
    by (auto simp: validateOTel_def fraction_ok_def f_between [symmetric] Let_def)
  show ?thesis
    unfolding Validate_def validate_None app log otel validateDB_ok validateDispatch_ok validatePorts_ok validateBrokers_iff config_ok_def
    using validateJanitor_ok [of c] by blast
qed

text \<open>
  C26.  A routing table that loads is closed: it has a stream; every stream is in lower case and refers to
  a driver of the table; no two drivers read the same block of variables, and no variable of a
  driver's block is unknown unless it belongs to a driver with a longer name; and a router over
  publishers for the table's drivers can be built.
\<close>

theorem loaded_routing_table_is_closed:
  assumes "loadBrokers la src db = Inr b"
  shows "brokers_ok b \<and> list_all (\<lambda>(name, c). to_lower name = name \<and> sc_name c = name) (bc_streams b)
    \<and> distinct (map (envToken \<circ> fst) (bc_drivers b))
    \<and> list_all (\<lambda>(name, d). driver_name d = name
        \<and> unknown_keys src (driver_prefix name) name (map fst (bc_drivers b))
            (commonDriverKeys @ driver_keys (driver_type_of d)) = []) (bc_drivers b)
    \<and> (\<exists>r. NewRouter b (map (\<lambda>(name, d). (name, connect d)) (bc_drivers b)) = Inr r)"
proof -
  obtain ds where ds: "streams_ok (bc_streams b) ds" "bc_streams b \<noteq> []" "distinct (map envToken ds)"
    and d: "load_drivers la src ds db ds = (bc_drivers b, [])"
    using loadBrokers_parts [OF assms] by blast
  have keys: "map fst (bc_drivers b) = ds"
    and each: "\<forall>(name, d) \<in> set (bc_drivers b). loadDriver la src name ds db = Inr d"
    using load_drivers_ok [OF d] by auto
  have ok: "brokers_ok b"
    using ds keys unfolding brokers_ok_def streams_ok_def by (auto simp: map_of_eq_None_iff)
  have dom: "fst ` set (map (\<lambda>(name, d). (name, connect d)) (bc_drivers b)) = set ds"
    using keys [symmetric] by (simp add: image_image case_prod_unfold)
  have "\<exists>ss. router_streams (map (\<lambda>(name, d). (name, connect d)) (bc_drivers b)) cs = Inr ss"
    if "\<forall>(name, c) \<in> set cs. sc_driver c \<in> set ds" for cs
    using that
  proof (induction cs)
    case (Cons c cs)
    then show ?case using dom by (cases c) (auto simp: map_of_eq_None_iff)
  qed simp
  then have "\<exists>r. NewRouter b (map (\<lambda>(name, d). (name, connect d)) (bc_drivers b)) = Inr r"
    using ds(1) by (fastforce simp: NewRouter_def streams_ok_def)
  moreover have "distinct (map (envToken \<circ> fst) (bc_drivers b))" using ds(3) by (simp add: keys [symmetric])
  moreover have "list_all (\<lambda>(name, c). to_lower name = name \<and> sc_name c = name) (bc_streams b)"
    using ds(1) by (auto simp: streams_ok_def list_all_iff)
  moreover have "list_all (\<lambda>(name, d). driver_name d = name
        \<and> unknown_keys src (driver_prefix name) name (map fst (bc_drivers b))
            (commonDriverKeys @ driver_keys (driver_type_of d)) = []) (bc_drivers b)"
    using each loadDriver_ok by (fastforce simp: list_all_iff keys)
  ultimately show ?thesis using ok by blast
qed

theorem loaded_routing_table_is_closed_witness:
  "\<exists>b r. loadBrokers demo_load demo_source demo_db = Inr b \<and> brokers_ok b
     \<and> NewRouter b (map (\<lambda>(name, d). (name, \<lparr>pub_publish = map (\<lambda>_. None), pub_health = None, pub_close = None\<rparr>))
         (bc_drivers b)) = Inr r"
proof -
  obtain b where b: "loadBrokers demo_load demo_source demo_db = Inr b" using demo_loads by blast
  from loaded_routing_table_is_closed [OF b, of "\<lambda>_. \<lparr>pub_publish = map (\<lambda>_. None), pub_health = None, pub_close = None\<rparr>"] b
  show ?thesis by blast
qed

text \<open>
  C27.  Identifiers that reach SQL text are safe.  Whatever the environment, a configuration that
  loads - in full or for an administrative command - has a table name that quotes to itself between
  quotation marks, with nothing inside that could end the quotation, and every statement of the store interpolates that
  name or the quoted schema and nothing else; so has the table of every \<open>postgres\<close> driver.  A \<open>postgres\<close> driver
  without a DSN of its own, which delivers into the dispatcher's database, is never pointed at the outbox table
  itself; one with a DSN of its own is not compared with the dispatcher's.
\<close>

definition quotes_safely :: "string \<Rightarrow> string \<Rightarrow> string \<Rightarrow> bool" where
  "quotes_safely sql schema tab \<longleftrightarrow> sql = quoteIdent schema @ ''.'' @ quoteIdent tab
     \<and> CHR 0x22 \<notin> set schema \<and> CHR 0x22 \<notin> set tab"

theorem interpolated_identifiers_are_safe:
  assumes "decode fmt_float la hostname pid src bound adminOnly = Inr cfg"
  shows "quotes_safely (s_table (NewStore (cfg_db cfg))) (db_schema (cfg_db cfg)) (db_table (cfg_db cfg))
    \<and> interpolated (store_queries (cfg_db cfg)) = {quoteIdent (db_schema (cfg_db cfg)), s_table (NewStore (cfg_db cfg))}
    \<and> list_all (\<lambda>(name, d). case d of
          PostgresDriver p \<Rightarrow> quotes_safely (Qualified p) (pd_schema p) (pd_table p)
            \<and> \<not> (pd_same_database p \<and> pd_schema p = db_schema (cfg_db cfg) \<and> pd_table p = db_table (cfg_db cfg))
        | _ \<Rightarrow> True) (bc_drivers (cfg_brokers cfg))"
proof -
  have safe: "quotes_safely (go_quote s @ ''.'' @ go_quote t) s t" if "is_identifier s" "is_identifier t" for s t
    using that identifier_no_quote by (auto simp: quotes_safely_def identifier_go_quote quoteIdent_def)
  obtain cfg0 where cfg0: "bound = Inr cfg0" using assms by (auto simp: decode_def split: sum.splits)
  have db: "cfg_db cfg = cfg_db cfg0" and br: "cfg_brokers cfg = (case loadBrokers la src (cfg_db cfg0) of Inl _ \<Rightarrow> empty_brokers | Inr b \<Rightarrow> b)"
    and ok: "validateDB cfg = []"
    using assms unfolding cfg0
    by (auto simp: decode_def Let_def validateAdmin_def validate_None split: if_splits option.splits sum.splits)
  have "list_all (\<lambda>(name, d). case d of
          PostgresDriver p \<Rightarrow> quotes_safely (Qualified p) (pd_schema p) (pd_table p)
            \<and> \<not> (pd_same_database p \<and> pd_schema p = db_schema (cfg_db cfg) \<and> pd_table p = db_table (cfg_db cfg))
        | _ \<Rightarrow> True) (bc_drivers (cfg_brokers cfg))"
  proof (cases "loadBrokers la src (cfg_db cfg0)")
    case (Inl e)
    then show ?thesis by (simp add: br empty_brokers_def)
  next
    case (Inr b)
    obtain ds where "load_drivers la src ds (cfg_db cfg0) ds = (bc_drivers b, [])"
      using loadBrokers_parts [OF Inr] by blast
    then have "\<forall>(name, d) \<in> set (bc_drivers b). loadDriver la src name ds (cfg_db cfg0) = Inr d"
      using load_drivers_ok by blast
    then show ?thesis
      using loadDriver_ok safe by (fastforce simp: br Inr db list_all_iff Qualified_def split: driver_config.splits)
  qed
  moreover have "is_identifier (db_schema (cfg_db cfg))" "is_identifier (db_table (cfg_db cfg))"
    using ok by (auto simp: validateDB_ok db_ok_def)
  ultimately show ?thesis using safe by (simp add: NewStore_def interpolated_names)
qed

theorem interpolated_identifiers_are_safe_witness:
  "\<exists>cfg. decode (\<lambda>_. []) demo_load (Some ''pod-a'') 1 demo_source (Inr demo_settings) True = Inr cfg
     \<and> bc_drivers (cfg_brokers cfg) \<noteq> []
     \<and> quotes_safely (s_table (NewStore (cfg_db cfg))) (db_schema (cfg_db cfg)) (db_table (cfg_db cfg))"
proof -
  obtain b where b: "loadBrokers demo_load demo_source demo_db = Inr b" "bc_drivers b \<noteq> []" using demo_loads by blast
  have "is_identifier ''outbox''" "is_identifier ''messages''" by code_simp+
  then have "db_ok demo_db" by (simp add: db_ok_def demo_db_def second_def)
  then have ok: "validateDB c = []" if "cfg_db c = demo_db" for c using that by (simp add: validateDB_ok)
  have db: "cfg_db demo_settings = demo_db" by (simp add: demo_settings_def)
  let ?c = "demo_settings\<lparr>cfg_brokers := b, cfg_app := (cfg_app demo_settings)\<lparr>app_instance := ''pod-a''\<rparr>\<rparr>"
  have cfg: "decode (\<lambda>_. []) demo_load (Some ''pod-a'') 1 demo_source (Inr demo_settings) True = Inr ?c"
    "cfg_brokers ?c = b"
    using b(1) ok [of ?c] db
    by (simp_all add: decode_def Let_def validateAdmin_def report_def defaultInstance_def demo_settings_def)
  note safe = conjunct1 [OF interpolated_identifiers_are_safe [OF cfg(1)]]
  show ?thesis by (rule exI [of _ ?c], intro conjI) (rule cfg(1), simp only: cfg(2) b(2) not_False_eq_True, rule safe)
qed

end
