(* ===== verification/Broker_Classify.thy ===== *)
theory Broker_Classify
  imports Broker_Router
begin

text \<open>
  What the three drivers share: how they look at errors, and the contract of a classifier.  A
  classifier reads an error of a client library and says whether the message was rejected
  (permanent), the broker was not there (unavailable), or neither.
\<close>

subsection \<open>Errors as the drivers see them\<close>

text \<open>
  The nodes of an error tree that satisfy \<open>net.Error\<close>: network errors, \<open>context.DeadlineExceeded\<close>, and
  Kafka's protocol errors, which have the same methods.
\<close>

fun is_net_node :: "err \<Rightarrow> bool" where
  "is_net_node (NetError s) = True"
| "is_net_node (KafkaError c s) = True"
| "is_net_node DeadlineExceeded = True"
| "is_net_node e = False"

fun is_kafka_node :: "err \<Rightarrow> bool" where
  "is_kafka_node (KafkaError c s) = True"
| "is_kafka_node e = False"

fun is_pg_node :: "err \<Rightarrow> bool" where
  "is_pg_node (PgError c s) = True"
| "is_pg_node e = False"

fun is_connect_node :: "err \<Rightarrow> bool" where
  "is_connect_node (ConnectError s) = True"
| "is_connect_node e = False"

text \<open>An error of a library: it carries no classification yet.\<close>

definition plain :: "err \<Rightarrow> bool" where
  "plain e \<longleftrightarrow> \<not> IsPermanent e \<and> \<not> IsUnavailable e"

text \<open>Both kinds of context error.\<close>

definition context_error :: "err \<Rightarrow> bool" where
  "context_error e \<longleftrightarrow> errors_is e DeadlineExceeded \<or> errors_is e Canceled"

subsection \<open>The contract of a classifier\<close>

locale classifier =
  fixes classify :: "bool \<Rightarrow> err \<Rightarrow> err"
  assumes verdict: "classify live e = e \<or> (\<exists>reason. classify live e = Permanent reason (Some e))
      \<or> (\<exists>reason. classify live e = Unavailable reason (Some e))"
begin

lemma keeps_cause: "x \<in> set (err_nodes e) \<Longrightarrow> x \<in> set (err_nodes (classify live e))"
  using verdict [of live e] by (auto simp: Permanent_def Unavailable_def)

lemma exclusive_verdict:
  assumes "plain e"
  shows "\<not> (IsPermanent (classify live e) \<and> IsUnavailable (classify live e))"
  using verdict [of live e] assms by (auto simp: plain_def)

text \<open>A message is judged in one of three ways, and the original error stays readable.\<close>

lemma three_verdicts:
  assumes "plain e"
  shows "\<not> (IsPermanent (classify live e) \<and> IsUnavailable (classify live e))
    \<and> set (err_nodes e) \<subseteq> set (err_nodes (classify live e))"
  using exclusive_verdict [OF assms] keeps_cause by blast

end

end
