(* ===== verification/Broker_Kafka.thy ===== *)
theory Broker_Kafka
  imports Broker_Classify
begin

text \<open>
  \<open>internal/broker/kafka/kafka.go\<close>.  The client library is represented by arguments: \<open>title\<close> and
  \<open>temporary\<close> describe a protocol error by its code, and a call of \<open>WriteMessages\<close> is a function from the
  records to its result.  The protocol codes are those of the Kafka protocol.
\<close>

subsection \<open>Classification\<close>

definition rejected_codes :: "int list" where
  "rejected_codes = [10, 18, 17, 87, 29, 31, 58, 43]"

text \<open>
  \<open>MessageSizeTooLarge\<close>, \<open>RecordListTooLarge\<close>, \<open>InvalidTopic\<close>, \<open>InvalidRecord\<close>,
  \<open>TopicAuthorizationFailed\<close>, \<open>ClusterAuthorizationFailed\<close>, \<open>SASLAuthenticationFailed\<close>,
  \<open>UnsupportedForMessageFormat\<close>; then \<open>UnknownTopicOrPartition\<close>; then \<open>LeaderNotAvailable\<close>,
  \<open>NotLeaderForPartition\<close>, \<open>BrokerNotAvailable\<close>, \<open>ReplicaNotAvailable\<close>, \<open>ListenerNotFound\<close>,
  \<open>NetworkException\<close>, \<open>RequestTimedOut\<close>, \<open>KafkaStorageError\<close>, \<open>NotEnoughReplicas\<close>,
  \<open>NotEnoughReplicasAfterAppend\<close>.
\<close>

definition unknown_topic_code :: int where
  "unknown_topic_code = 3"

definition outage_codes :: "int list" where
  "outage_codes = [5, 6, 8, 9, 72, 13, 7, 56, 19, 20]"

record kafka_lib =
  kl_title :: "int \<Rightarrow> string"
  kl_temporary :: "int \<Rightarrow> bool"

fun kafka_code :: "err \<Rightarrow> int option" where
  "kafka_code (KafkaError code text) = Some code"
| "kafka_code e = None"

definition kafka_classify :: "kafka_lib \<Rightarrow> bool \<Rightarrow> err \<Rightarrow> err" where
  "kafka_classify lib parentLive e =
     (case Option.bind (errors_as is_kafka_node e) kafka_code of
        Some code \<Rightarrow>
          if code \<in> set rejected_codes then Permanent (kl_title lib code) (Some e)
          else if code = unknown_topic_code then Permanent ''unknown topic'' (Some e)
          else if code \<in> set outage_codes then Unavailable (kl_title lib code) (Some e)
          else if \<not> kl_temporary lib code then Permanent (kl_title lib code) (Some e)
          else e
      | None \<Rightarrow>
          if context_error e then
            (if parentLive \<and> errors_is e DeadlineExceeded then Unavailable ''write timed out'' (Some e) else e)
          else if errors_as is_net_node e \<noteq> None then Unavailable ''network'' (Some e)
          else if errors_is e IoEOF \<or> errors_is e IoUnexpectedEOF then Unavailable ''connection lost'' (Some e)
          else e)"

subsection \<open>Records\<close>

record kafka_record =
  kr_topic :: string
  kr_key :: "bytes option"
  kr_value :: bytes
  kr_headers :: "(string \<times> bytes) list"
  kr_time :: timestamptz

definition kafka_headers :: "message \<Rightarrow> (string \<times> bytes) list" where
  "kafka_headers msg = (''message_id'', m_id msg) # filter (\<lambda>(k, v). k \<noteq> ''message_id'') (m_headers msg)"

definition kafka_record_of :: "kafka_driver \<Rightarrow> message \<Rightarrow> kafka_record" where
  "kafka_record_of cfg msg =
     (let dest = Resolve (kd_naming cfg) msg in
      \<lparr>kr_topic = dst_topic dest, kr_key = dst_key dest, kr_value = m_payload msg,
       kr_headers = kafka_headers msg, kr_time = m_created_at msg\<rparr>)"

subsection \<open>Publish\<close>

text \<open>
  \<open>WriteMessages\<close> succeeds, fails with a positional \<open>WriteErrors\<close> (whose own error value is the second
  component), or fails as a whole.
\<close>

datatype write_result = Written | WriteErrors "err option list" err | WriteError err

definition kafka_Publish ::
  "kafka_lib \<Rightarrow> (kafka_record list \<Rightarrow> write_result) \<Rightarrow> bool \<Rightarrow> kafka_driver \<Rightarrow> message list \<Rightarrow> err option list" where
  "kafka_Publish lib write parentLive cfg msgs =
     (if msgs = [] then []
      else
        (case write (map (kafka_record_of cfg) msgs) of
           Written \<Rightarrow> replicate (length msgs) None
         | WriteErrors partial e \<Rightarrow>
             if length partial = length msgs then map (map_option (kafka_classify lib parentLive)) partial
             else replicate (length msgs) (Some (kafka_classify lib parentLive e))
         | WriteError e \<Rightarrow> replicate (length msgs) (Some (kafka_classify lib parentLive e))))"

subsection \<open>Startup, health, options\<close>

text \<open>\<open>probe\<close> dials the brokers in order until one answers.\<close>

fun probe_brokers :: "(string \<Rightarrow> err option) \<Rightarrow> string list \<Rightarrow> err list \<Rightarrow> err list option" where
  "probe_brokers dial [] errs = Some errs"
| "probe_brokers dial (addr # addrs) errs =
     (case dial addr of
        None \<Rightarrow> None
      | Some e \<Rightarrow> probe_brokers dial addrs (errs @ [Errorf (addr @ '': '') e []]))"

definition probe :: "(string \<Rightarrow> err option) \<Rightarrow> kafka_driver \<Rightarrow> err option" where
  "probe dial cfg =
     (case probe_brokers dial (kd_brokers cfg) [] of
        None \<Rightarrow> None
      | Some errs \<Rightarrow> Some (Errorf ''kafka: no broker answered: '' (JoinError errs) []))"

definition kafka_HealthCheck :: "err option \<Rightarrow> err option" where
  "kafka_HealthCheck metadata = map_option (\<lambda>e. Errorf ''kafka: metadata: '' e []) metadata"

definition kafka_Close :: "err option \<Rightarrow> err option" where
  "kafka_Close result = map_option (\<lambda>e. Errorf ''kafka: close writer: '' e []) result"

datatype required_acks = RequireNone | RequireOne | RequireAll

definition requiredAcks :: "string \<Rightarrow> required_acks" where
  "requiredAcks s =
     (if to_lower s = ''none'' then RequireNone else if to_lower s = ''one'' then RequireOne else RequireAll)"

datatype compression_codec = NoCompression | Gzip | Snappy | Lz4 | Zstd

definition compression :: "string \<Rightarrow> compression_codec" where
  "compression s =
     (if to_lower s = ''gzip'' then Gzip else if to_lower s = ''snappy'' then Snappy
      else if to_lower s = ''lz4'' then Lz4 else if to_lower s = ''zstd'' then Zstd else NoCompression)"

text \<open>
  The TLS settings: which parts are present.  \<open>usable_ca\<close> and \<open>key_pair\<close> are the certificate parsers.
\<close>

record tls_config =
  tls_root_ca :: "bytes option"
  tls_certificate :: "(bytes \<times> bytes) option"

definition tlsConfig ::
  "(bytes \<Rightarrow> bool) \<Rightarrow> (bytes \<Rightarrow> bytes \<Rightarrow> err option) \<Rightarrow> kafka_driver \<Rightarrow> err + tls_config option" where
  "tlsConfig usable_ca key_pair cfg =
     (let protocol = to_lower (kd_security_protocol cfg);
          needed = protocol = ''ssl'' \<or> protocol = ''sasl_ssl'' \<or> kd_ssl_ca_pem cfg \<noteq> [] \<or> kd_ssl_cert_pem cfg \<noteq> [] in
      if \<not> needed then Inr None
      else if kd_ssl_ca_pem cfg \<noteq> [] \<and> \<not> usable_ca (kd_ssl_ca_pem cfg) then
        Inl (ErrorString ''kafka: the CA bundle contains no usable certificate'')
      else
        (let ca = (if kd_ssl_ca_pem cfg \<noteq> [] then Some (kd_ssl_ca_pem cfg) else None) in
         if kd_ssl_cert_pem cfg \<noteq> [] \<and> kd_ssl_key_pem cfg \<noteq> [] then
           (case key_pair (kd_ssl_cert_pem cfg) (kd_ssl_key_pem cfg) of
              Some e \<Rightarrow> Inl (Errorf ''kafka: client certificate: '' e [])
            | None \<Rightarrow> Inr (Some \<lparr>tls_root_ca = ca,
                 tls_certificate = Some (kd_ssl_cert_pem cfg, kd_ssl_key_pem cfg)\<rparr>))
         else Inr (Some \<lparr>tls_root_ca = ca, tls_certificate = None\<rparr>)))"

datatype sasl_mechanism = Plain string string | ScramSHA256 string string | ScramSHA512 string string

definition saslMechanism :: "(string \<Rightarrow> string \<Rightarrow> err option) \<Rightarrow> kafka_driver \<Rightarrow> err + sasl_mechanism option" where
  "saslMechanism scram cfg =
     (let mech = to_upper (kd_sasl_mechanism cfg); u = kd_sasl_username cfg; pw = kd_sasl_password cfg in
      if kd_sasl_mechanism cfg = [] then Inr None
      else if mech = ''PLAIN'' then Inr (Some (Plain u pw))
      else if mech = ''SCRAM-SHA-256'' then (case scram u pw of Some e \<Rightarrow> Inl e | None \<Rightarrow> Inr (Some (ScramSHA256 u pw)))
      else if mech = ''SCRAM-SHA-512'' then (case scram u pw of Some e \<Rightarrow> Inl e | None \<Rightarrow> Inr (Some (ScramSHA512 u pw)))
      else Inl (ErrorString (''kafka: unsupported SASL mechanism '' @ go_quote (kd_sasl_mechanism cfg))))"

definition newTransport ::
  "(bytes \<Rightarrow> bool) \<Rightarrow> (bytes \<Rightarrow> bytes \<Rightarrow> err option) \<Rightarrow> (string \<Rightarrow> string \<Rightarrow> err option) \<Rightarrow> kafka_driver
   \<Rightarrow> err + (tls_config option \<times> sasl_mechanism option)" where
  "newTransport usable_ca key_pair scram cfg =
     (case tlsConfig usable_ca key_pair cfg of
        Inl e \<Rightarrow> Inl e
      | Inr tls \<Rightarrow> (case saslMechanism scram cfg of Inl e \<Rightarrow> Inl e | Inr mech \<Rightarrow> Inr (tls, mech)))"

text \<open>\<open>New\<close>: the writer is synchronous and hashes the key; \<open>dial\<close> goes through the transport.\<close>

record kafka_writer =
  kw_brokers :: "string list"
  kw_transport :: "tls_config option \<times> sasl_mechanism option"
  kw_required_acks :: required_acks
  kw_compression :: compression_codec
  kw_max_attempts :: int
  kw_write_timeout :: duration
  kw_read_timeout :: duration
  kw_allow_auto_topic_creation :: bool
  kw_async :: bool
  kw_batch_timeout :: duration

definition kafka_New ::
  "(bytes \<Rightarrow> bool) \<Rightarrow> (bytes \<Rightarrow> bytes \<Rightarrow> err option) \<Rightarrow> (string \<Rightarrow> string \<Rightarrow> err option)
   \<Rightarrow> (tls_config option \<times> sasl_mechanism option \<Rightarrow> string \<Rightarrow> err option) \<Rightarrow> kafka_driver \<Rightarrow> err + kafka_writer" where
  "kafka_New usable_ca key_pair scram dial cfg =
     (case newTransport usable_ca key_pair scram cfg of
        Inl e \<Rightarrow> Inl e
      | Inr transport \<Rightarrow>
         (case probe (dial transport) cfg of
            Some e \<Rightarrow> Inl e
          | None \<Rightarrow> Inr
             \<lparr>kw_brokers = kd_brokers cfg, kw_transport = transport,
              kw_required_acks = requiredAcks (kd_required_acks cfg), kw_compression = compression (kd_compression cfg),
              kw_max_attempts = kd_max_attempts cfg, kw_write_timeout = kd_write_timeout cfg,
              kw_read_timeout = kd_write_timeout cfg,
              kw_allow_auto_topic_creation = kd_allow_auto_topic_creation cfg, kw_async = False,
              kw_batch_timeout = millisecond\<rparr>))"

subsection \<open>The contracts\<close>

lemma kafka_verdict:
  "kafka_classify lib live e = e \<or> (\<exists>reason. kafka_classify lib live e = Permanent reason (Some e))
   \<or> (\<exists>reason. kafka_classify lib live e = Unavailable reason (Some e))"
  by (auto simp: kafka_classify_def split: option.split)

interpretation kafka_cls: classifier "kafka_classify lib" for lib
  by unfold_locales (rule kafka_verdict)

interpretation kafka_pub: publisher "kafka_Publish lib wr live cfg" for lib wr live cfg
  by unfold_locales (auto simp: kafka_Publish_def split: write_result.split)

text \<open>\<open>probe\<close> fails only when every broker was dialled and none answered.\<close>

lemma probe_brokers_None: "probe_brokers dial addrs errs = None \<longleftrightarrow> (\<exists>a \<in> set addrs. dial a = None)"
  by (induction addrs arbitrary: errs) (auto split: option.splits)

text \<open>A writer that was built waits for the brokers' answer, and some broker was there.\<close>

lemma kafka_New_ok:
  assumes "kafka_New usable_ca key_pair scram dial cfg = Inr w"
  shows "\<not> kw_async w \<and> (\<exists>a \<in> set (kd_brokers cfg). dial (kw_transport w) a = None)"
proof -
  from assms obtain tr where tr: "newTransport usable_ca key_pair scram cfg = Inr tr" "probe (dial tr) cfg = None"
    and w: "kw_transport w = tr" "\<not> kw_async w"
    by (auto simp: kafka_New_def split: sum.splits option.splits)
  then have "probe_brokers (dial tr) (kd_brokers cfg) [] = None" by (simp add: probe_def split: option.splits)
  then show ?thesis using w by (simp add: probe_brokers_None)
qed

end
