(* ===== verification/Broker_RabbitMQ.thy ===== *)
theory Broker_RabbitMQ
  imports Broker_Classify
begin

text \<open>
  \<open>internal/broker/rabbitmq\<close>: the supervised connection (\<open>conn.go\<close>), the return stream of a channel
  (\<open>channel.go\<close>), the publisher (\<open>publisher.go\<close>) and its classifier (\<open>classify.go\<close>).

  The AMQP library and the broker are in the record \<open>attempt_env\<close>: what each call of one publish
  returns, and whether the broker closes the connection meanwhile.
\<close>

subsection \<open>The connection\<close>

record rmq_conn =
  rq_current :: bool
  rq_is_closed :: bool
  rq_redial :: bool
  rq_declared :: "string list"
  rq_shut :: bool

definition live :: "rmq_conn \<Rightarrow> bool" where
  "live c \<longleftrightarrow> rq_current c \<and> \<not> rq_is_closed c"

definition requestRedial :: "rmq_conn \<Rightarrow> rmq_conn" where
  "requestRedial c = c\<lparr>rq_current := False, rq_redial := True\<rparr>"

text \<open>
  A channel is opened and put into confirm mode, either of which may fail; the result says whether it listens for
  returns.  One attempt to connect dials, then opens each channel of the pool.  A fresh connection has
  declared nothing.
\<close>

definition newPublishChannel :: "err option \<times> err option \<Rightarrow> rabbitmq_driver \<Rightarrow> err + bool" where
  "newPublishChannel answers cfg =
     (case fst answers of
        Some e \<Rightarrow> Inl (Errorf ''rabbitmq: open channel: '' e [])
      | None \<Rightarrow>
         (case snd answers of
            Some e \<Rightarrow> Inl (Errorf ''rabbitmq: enable publisher confirms: '' e [])
          | None \<Rightarrow> Inr (rd_mandatory cfg)))"

definition channel_error :: "rabbitmq_driver \<Rightarrow> err option \<times> err option \<Rightarrow> err option" where
  "channel_error cfg answers = (case newPublishChannel answers cfg of Inl e \<Rightarrow> Some e | Inr _ \<Rightarrow> None)"

definition connect :: "err option \<Rightarrow> (nat \<Rightarrow> err option \<times> err option) \<Rightarrow> rabbitmq_driver \<Rightarrow> rmq_conn \<Rightarrow> rmq_conn \<times> err option" where
  "connect dial open_channel cfg c =
     (case dial of
        Some e \<Rightarrow> (c, Some (Errorf ''rabbitmq: dial: '' e []))
      | None \<Rightarrow>
         (case List.map_filter (\<lambda>k. channel_error cfg (open_channel k)) [0..<nat (rd_channels cfg)] of
            e # _ \<Rightarrow> (c, Some e)
          | [] \<Rightarrow> (c\<lparr>rq_current := True, rq_is_closed := False, rq_declared := []\<rparr>, None)))"

definition Dial :: "err option \<Rightarrow> (nat \<Rightarrow> err option \<times> err option) \<Rightarrow> rabbitmq_driver \<Rightarrow> err + rmq_conn" where
  "Dial dial open_channel cfg =
     (case connect dial open_channel cfg
             \<lparr>rq_current = False, rq_is_closed = False, rq_redial = False, rq_declared = [], rq_shut = False\<rparr> of
        (c, Some e) \<Rightarrow> Inl e
      | (c, None) \<Rightarrow> Inr c)"

definition rmq_New :: "err option \<Rightarrow> (nat \<Rightarrow> err option \<times> err option) \<Rightarrow> rabbitmq_driver \<Rightarrow> err + (rmq_conn \<times> rabbitmq_driver)" where
  "rmq_New dial open_channel cfg = (case Dial dial open_channel cfg of Inl e \<Rightarrow> Inl e | Inr c \<Rightarrow> Inr (c, cfg))"

definition maxReconnectDelay :: duration where
  "maxReconnectDelay = 30 * second"

text \<open>
  \<open>supervise\<close> after a request to redial: attempts, each given by what dialling and opening channels
  return, with the delay before each; the result says whether the connection is back.
\<close>

fun redial_loop ::
  "(err option \<times> (nat \<Rightarrow> err option \<times> err option)) list \<Rightarrow> duration \<Rightarrow> rabbitmq_driver \<Rightarrow> rmq_conn
   \<Rightarrow> rmq_conn \<times> bool \<times> duration list" where
  "redial_loop [] delay cfg c = (c, False, [])"
| "redial_loop ((dial, chans) # attempts) delay cfg c =
     (case connect dial chans cfg c of
        (c', None) \<Rightarrow> (c', True, [delay])
      | (c', Some e) \<Rightarrow>
          (case redial_loop attempts (if delay < maxReconnectDelay then delay * 2 else delay) cfg c' of
             (c'', back, delays) \<Rightarrow> (c'', back, delay # delays)))"

definition supervise ::
  "(err option \<times> (nat \<Rightarrow> err option \<times> err option)) list \<Rightarrow> rabbitmq_driver \<Rightarrow> rmq_conn \<Rightarrow> rmq_conn \<times> bool \<times> duration list" where
  "supervise attempts cfg c =
     (if \<not> rq_redial c then (c, False, [])
      else redial_loop attempts (rd_reconnect_delay cfg) cfg (c\<lparr>rq_redial := False\<rparr>))"

definition rmq_HealthCheck :: "rmq_conn \<Rightarrow> err option" where
  "rmq_HealthCheck c = (if live c then None else Some ErrNotConnected)"

text \<open>\<open>Close\<close> runs once; what the library's own close returns is the first argument.\<close>

definition rmq_Close :: "err option \<Rightarrow> rmq_conn \<Rightarrow> rmq_conn \<times> err option" where
  "rmq_Close closing c =
     (if rq_shut c then (c, None)
      else (c\<lparr>rq_shut := True, rq_current := False\<rparr>, if rq_current c then closing else None))"

subsection \<open>Returns\<close>

record rmq_return =
  rr_id :: uuid
  rr_code :: int
  rr_text :: string

fun take_return :: "uuid \<Rightarrow> rmq_return list \<Rightarrow> string option" where
  "take_return i [] = None"
| "take_return i (r # rs) =
     (if rr_id r = i then Some (itoa (rr_code r) @ '' '' @ rr_text r) else take_return i rs)"

definition takeReturn :: "bool \<Rightarrow> uuid \<Rightarrow> rmq_return list \<Rightarrow> string option" where
  "takeReturn mandatory i returns = (if \<not> mandatory then None else take_return i returns)"

definition drainReturns :: "bool \<Rightarrow> rmq_return list \<Rightarrow> rmq_return list" where
  "drainReturns mandatory returns = (if \<not> mandatory then returns else [])"

subsection \<open>One message\<close>

record attempt_env =
  ae_before :: "rmq_conn \<Rightarrow> rmq_conn"
  ae_acquire :: "err option"
  ae_declare :: "err option"
  ae_left_over :: "rmq_return list"
  ae_publish :: "err option"
  ae_confirm :: "err + bool"
  ae_returns :: "rmq_return list"
  ae_gone :: bool

definition acquire :: "attempt_env \<Rightarrow> rmq_conn \<Rightarrow> err option" where
  "acquire env c = (if \<not> rq_current c then Some ErrNotConnected else ae_acquire env)"

text \<open>
  The broker may close the connection while the publish is under way; what the supervisor and the
  broker did to the connection since the last message is \<open>ae_before\<close>.
\<close>

definition meanwhile :: "attempt_env \<Rightarrow> rmq_conn \<Rightarrow> rmq_conn" where
  "meanwhile env c = (if ae_gone env then requestRedial c else c)"

definition rmq_classify :: "bool \<Rightarrow> err \<Rightarrow> err" where
  "rmq_classify alive e =
     (if IsPermanent e then e
      else if errors_is e ErrNotConnected \<or> errors_is e AmqpErrClosed then Unavailable ''rabbitmq unreachable'' (Some e)
      else if \<not> alive then Unavailable ''rabbitmq unreachable'' (Some e)
      else e)"

definition rmq_declare :: "attempt_env \<Rightarrow> string \<Rightarrow> rmq_conn \<Rightarrow> rmq_conn \<times> err option" where
  "rmq_declare env queue c =
     (if queue \<in> set (rq_declared c) then (c, None)
      else
        (case ae_declare env of
           Some e \<Rightarrow> (requestRedial c, Some (Errorf (''rabbitmq: declare queue '' @ go_quote queue @ '': '') e []))
         | None \<Rightarrow> (c\<lparr>rq_declared := queue # rq_declared c\<rparr>, None)))"

definition rmq_unroutable :: "message \<Rightarrow> destination \<Rightarrow> string \<Rightarrow> err" where
  "rmq_unroutable msg dest reason =
     Permanent ''unroutable'' (Some (ErrorString (''rabbitmq returned '' @ m_id msg @ '': '' @ reason @ '' (exchange ''
       @ go_quote (dst_exchange dest) @ '', routing key '' @ go_quote (dst_routing_key dest) @ '')'')))"

definition await_confirm ::
  "attempt_env \<Rightarrow> rabbitmq_driver \<Rightarrow> message \<Rightarrow> destination \<Rightarrow> rmq_conn \<Rightarrow> err option" where
  "await_confirm env cfg msg dest c =
     (case ae_confirm env of
        Inl e \<Rightarrow>
          Some (rmq_classify (live c) (Errorf (''rabbitmq: awaiting confirmation for '' @ m_id msg @ '': '') e []))
      | Inr ack \<Rightarrow>
         (case takeReturn (rd_mandatory cfg) (m_id msg)
                 (drainReturns (rd_mandatory cfg) (ae_left_over env) @ ae_returns env) of
            Some reason \<Rightarrow> Some (rmq_unroutable msg dest reason)
          | None \<Rightarrow> if ack then None else Some (ErrorString (''rabbitmq: broker nacked '' @ m_id msg))))"

definition publishOne :: "attempt_env \<Rightarrow> rabbitmq_driver \<Rightarrow> message \<Rightarrow> rmq_conn \<Rightarrow> rmq_conn \<times> err option" where
  "publishOne env cfg msg c =
     (case acquire env c of
        Some e \<Rightarrow> (c, Some (rmq_classify (live c) e))
      | None \<Rightarrow>
         (let dest = Resolve (rd_naming cfg) msg;
              (c1, declared) = (if rd_declare cfg \<and> dst_exchange dest = []
                                then rmq_declare env (dst_routing_key dest) c else (c, None)) in
          case declared of
            Some e \<Rightarrow> (c1, Some (rmq_classify (live c1) e))
          | None \<Rightarrow>
             (let c2 = meanwhile env c1 in
              case ae_publish env of
                Some e \<Rightarrow>
                  (requestRedial c2,
                   Some (rmq_classify (live (requestRedial c2))
                           (Errorf (''rabbitmq: publish '' @ m_id msg @ '': '') e [])))
              | None \<Rightarrow> (c2, await_confirm env cfg msg dest c2))))"

fun publish_each ::
  "(nat \<Rightarrow> attempt_env) \<Rightarrow> rabbitmq_driver \<Rightarrow> nat \<Rightarrow> message list \<Rightarrow> rmq_conn \<Rightarrow> rmq_conn \<times> err option list" where
  "publish_each envs cfg i [] c = (c, [])"
| "publish_each envs cfg i (msg # msgs) c =
     (let (c1, r) = publishOne (envs i) cfg msg (ae_before (envs i) c);
          (c2, rs) = publish_each envs cfg (Suc i) msgs c1 in
      (c2, r # rs))"

definition rmq_Publish ::
  "(nat \<Rightarrow> attempt_env) \<Rightarrow> rabbitmq_driver \<Rightarrow> rmq_conn \<Rightarrow> message list \<Rightarrow> err option list" where
  "rmq_Publish envs cfg c msgs = snd (publish_each envs cfg 0 msgs c)"

subsection \<open>The AMQP message\<close>

record amqp_publishing =
  ap_message_id :: uuid
  ap_timestamp :: timestamptz
  ap_persistent :: bool
  ap_content_type :: string
  ap_body :: bytes
  ap_headers :: headers

definition contentType :: "headers \<Rightarrow> string" where
  "contentType hs =
     (case filter (\<lambda>key. case map_of hs key of Some v \<Rightarrow> v \<noteq> [] | None \<Rightarrow> False)
             [''content-type'', ''Content-Type'', ''content_type''] of
        key # _ \<Rightarrow> the (map_of hs key)
      | [] \<Rightarrow> ''application/octet-stream'')"

definition publishing :: "message \<Rightarrow> amqp_publishing" where
  "publishing msg =
     \<lparr>ap_message_id = m_id msg, ap_timestamp = m_created_at msg, ap_persistent = True,
      ap_content_type = contentType (m_headers msg), ap_body = m_payload msg, ap_headers = m_headers msg\<rparr>"

subsection \<open>The contracts\<close>

interpretation rmq_cls: classifier rmq_classify
  by unfold_locales (auto simp: rmq_classify_def)

lemma length_publish_each: "length (snd (publish_each envs cfg i msgs c)) = length msgs"
  by (induction envs cfg i msgs c rule: publish_each.induct) (auto simp: Let_def split: prod.splits)

interpretation rmq_pub: publisher "rmq_Publish envs cfg c" for envs cfg c
  by unfold_locales (simp add: rmq_Publish_def length_publish_each)

lemma take_return_None: "take_return i rs = None \<longleftrightarrow> i \<notin> rr_id ` set rs"
  by (induction rs) auto

lemma publishOne_accepts:
  assumes "publishOne env cfg msg c = (c', None)"
  shows "rq_current c \<and> ae_publish env = None \<and> ae_confirm env = Inr True
    \<and> (rd_mandatory cfg \<longrightarrow> m_id msg \<notin> rr_id ` set (ae_returns env))"
  using assms
  by (auto simp: publishOne_def acquire_def await_confirm_def takeReturn_def drainReturns_def take_return_None Let_def
    split: option.splits if_splits sum.splits prod.splits)

lemma publishOne_disconnected:
  assumes "\<not> rq_current c"
  shows "\<exists>e. publishOne env cfg msg c = (c, Some e) \<and> IsUnavailable e \<and> \<not> IsPermanent e"
  using assms by (simp add: publishOne_def acquire_def rmq_classify_def errors_is_def IsPermanent_iff Unavailable_def)

lemma publish_each_accepts:
  assumes "publish_each envs cfg i msgs c = (c', rs)" and "k < length msgs" and "rs ! k = None"
  shows "ae_publish (envs (i + k)) = None \<and> ae_confirm (envs (i + k)) = Inr True
    \<and> (rd_mandatory cfg \<longrightarrow> m_id (msgs ! k) \<notin> rr_id ` set (ae_returns (envs (i + k))))"
  using assms
proof (induction envs cfg i msgs c arbitrary: k c' rs rule: publish_each.induct)
  case (2 envs cfg i msg msgs c)
  obtain c1 r where one: "publishOne (envs i) cfg msg (ae_before (envs i) c) = (c1, r)" by fastforce
  obtain c2 rs' where rest: "publish_each envs cfg (Suc i) msgs c1 = (c2, rs')" by fastforce
  have rs: "rs = r # rs'" using 2(2) one rest by simp
  show ?case
  proof (cases k)
    case 0
    then show ?thesis using publishOne_accepts one 2(4) rs by fastforce
  next
    case (Suc k')
    then show ?thesis using 2(1) [OF one [symmetric] refl rest, of k'] 2(3,4) rs by simp
  qed
qed simp

text \<open>\<open>Dial\<close> succeeds only with a live connection, and so does the supervisor.\<close>

lemma connect_live: "connect dial chans cfg c = (c', None) \<Longrightarrow> live c' \<and> rq_declared c' = []"
  by (auto simp: connect_def live_def split: option.splits list.splits)

lemma Dial_live: "Dial dial chans cfg = Inr c \<Longrightarrow> live c"
  by (auto simp: Dial_def dest: connect_live split: prod.splits option.splits)

lemma rmq_New_live: "rmq_New dial chans cfg = Inr (c, cfg') \<Longrightarrow> live c \<and> rmq_HealthCheck c = None \<and> cfg' = cfg"
  by (auto simp: rmq_New_def rmq_HealthCheck_def dest: Dial_live split: sum.splits)

lemma redial_loop_live: "redial_loop attempts delay cfg c = (c', True, delays) \<Longrightarrow> live c'"
  by (induction attempts delay cfg c arbitrary: c' delays rule: redial_loop.induct)
    (auto dest: connect_live split: prod.splits option.splits)

text \<open>A driver, a live connection and a publish the broker confirms, for the witness.\<close>

definition demo_rabbit :: rabbitmq_driver where
  "demo_rabbit = \<lparr>rd_name = ''rmq'', rd_naming = \<lparr>n_prefix = [], n_prefix_sep = ''_'', n_version_sep = ''_''\<rparr>,
     rd_dsn = ''amqp://h'', rd_channels = 4, rd_declare = False, rd_mandatory = True,
     rd_publish_timeout = 15 * second, rd_reconnect_delay = second\<rparr>"

definition demo_conn :: rmq_conn where
  "demo_conn = \<lparr>rq_current = True, rq_is_closed = False, rq_redial = False, rq_declared = [], rq_shut = False\<rparr>"

definition demo_confirmed :: attempt_env where
  "demo_confirmed = \<lparr>ae_before = (\<lambda>c. c), ae_acquire = None, ae_declare = None,
     ae_left_over = [\<lparr>rr_id = ''m1'', rr_code = 312, rr_text = ''NO_ROUTE''\<rparr>], ae_publish = None,
     ae_confirm = Inr True, ae_returns = [\<lparr>rr_id = ''m0'', rr_code = 312, rr_text = ''NO_ROUTE''\<rparr>], ae_gone = False\<rparr>"

subsection \<open>Properties\<close>

text \<open>
  C31.  The driver accepts only what the broker confirmed.  A message whose result is nil was published
  on a live channel, its own confirmation arrived as an acknowledgement, and with \<open>MANDATORY\<close> on the
  broker did not return it; whatever returns earlier publishes left behind, none is mistaken for it.
  A message that finds no connection is deferred, not failed.
\<close>

theorem rabbitmq_accepts_only_confirmed:
  assumes "k < length msgs" and "rmq_Publish envs cfg c msgs ! k = None"
  shows "ae_publish (envs k) = None \<and> ae_confirm (envs k) = Inr True
    \<and> (rd_mandatory cfg \<longrightarrow> m_id (msgs ! k) \<notin> rr_id ` set (ae_returns (envs k)))
    \<and> (\<forall>env c'. \<not> rq_current c' \<longrightarrow>
        (\<exists>e. publishOne env cfg (msgs ! k) c' = (c', Some e) \<and> IsUnavailable e \<and> \<not> IsPermanent e))"
proof -
  obtain c' rs where p: "publish_each envs cfg 0 msgs c = (c', rs)" by fastforce
  then have "rs ! k = None" using assms(2) by (simp add: rmq_Publish_def)
  from publish_each_accepts [OF p assms(1) this] publishOne_disconnected show ?thesis by simp
qed

theorem rabbitmq_accepts_only_confirmed_witness:
  "rmq_Publish (\<lambda>_. demo_confirmed) demo_rabbit demo_conn [demo_message] ! 0 = None
   \<and> ae_confirm demo_confirmed = Inr True \<and> m_id demo_message \<notin> rr_id ` set (ae_returns demo_confirmed)"
proof -
  have r: "rmq_Publish (\<lambda>_. demo_confirmed) demo_rabbit demo_conn [demo_message] ! 0 = None"
    by (simp add: rmq_Publish_def publishOne_def acquire_def demo_confirmed_def demo_rabbit_def demo_conn_def
      await_confirm_def takeReturn_def drainReturns_def meanwhile_def demo_message_def)
  have "rd_mandatory demo_rabbit" by (simp add: demo_rabbit_def)
  with r rabbitmq_accepts_only_confirmed [of 0 "[demo_message]" "\<lambda>_. demo_confirmed" demo_rabbit demo_conn]
  show ?thesis by simp
qed

end
