(* ===== verification/Broker_Postgres.thy ===== *)
theory Broker_Postgres
  imports Broker_Classify Store_Ops
begin

text \<open>
  \<open>internal/broker/postgres\<close>: delivery into the consumer's inbox table.

  The inbox is the list of its rows, of which the driver writes five columns.  The consumer's own
  constraints are the function \<open>refuse\<close>: the error the server raises for a row that does not fit.  A
  statement is all or nothing; how the call itself fails is a \<open>fault\<close>.
\<close>

subsection \<open>Classification\<close>

definition pg_permanent_codes :: "string list" where
  "pg_permanent_codes = [''42P01'', ''42703'', ''42501'', ''3F000'', ''42804'', ''42P02'']"

definition pg_unavailable_codes :: "string list" where
  "pg_unavailable_codes = [''53300'', ''53100'', ''53200'', ''57P01'', ''57P02'', ''57P03'', ''58030'', ''57014'']"

definition sqlstate_class :: "string \<Rightarrow> string" where
  "sqlstate_class code = (if length code < 2 then [] else take 2 code)"

definition classifyServer :: "string \<Rightarrow> string \<Rightarrow> err \<Rightarrow> err" where
  "classifyServer code text e =
     (let reason = code @ '' '' @ text; cls = sqlstate_class code in
      if code \<in> set pg_permanent_codes then Permanent reason (Some e)
      else if code \<in> set pg_unavailable_codes then Unavailable reason (Some e)
      else if cls = ''23'' then Permanent reason (Some e)
      else if cls = ''40'' \<or> cls = ''55'' then e
      else if cls = ''08'' then Unavailable reason (Some e)
      else if cls = ''22'' \<or> cls = ''42'' then Permanent reason (Some e)
      else e)"

fun pg_fields :: "err \<Rightarrow> (string \<times> string) option" where
  "pg_fields (PgError code text) = Some (code, text)"
| "pg_fields e = None"

definition pg_classify :: "bool \<Rightarrow> err \<Rightarrow> err" where
  "pg_classify parentLive e =
     (case Option.bind (errors_as is_pg_node e) pg_fields of
        Some (code, text) \<Rightarrow> classifyServer code text e
      | None \<Rightarrow>
          if context_error e then
            (if parentLive \<and> errors_is e DeadlineExceeded then Unavailable ''insert timed out'' (Some e) else e)
          else if errors_as is_connect_node e \<noteq> None then Unavailable ''cannot connect'' (Some e)
          else if errors_as is_net_node e \<noteq> None then Unavailable ''network'' (Some e)
          else e)"

subsection \<open>The inbox\<close>

record inbox_row =
  ib_id :: uuid
  ib_stream :: string
  ib_topic :: string
  ib_payload :: bytes
  ib_headers :: json

text \<open>\<open>encodeHeaders\<close>: \<open>json.Marshal\<close> of a string map does not fail.\<close>

definition encodeHeaders :: "message \<Rightarrow> json" where
  "encodeHeaders msg = (if m_headers msg = [] then JObj [] else encode_headers (m_headers msg))"

definition inbox_row_of :: "postgres_driver \<Rightarrow> message \<Rightarrow> inbox_row" where
  "inbox_row_of cfg msg =
     \<lparr>ib_id = m_id msg, ib_stream = m_stream msg, ib_topic = dst_topic (Resolve (pd_naming cfg) msg),
      ib_payload = m_payload msg, ib_headers = encodeHeaders msg\<rparr>"

text \<open>\<open>ON CONFLICT (id) DO NOTHING\<close>.\<close>

definition insert_new :: "inbox_row \<Rightarrow> inbox_row list \<Rightarrow> inbox_row list" where
  "insert_new r inbox = (if ib_id r \<in> ib_id ` set inbox then inbox else inbox @ [r])"

definition insert_stmt_inbox ::
  "(inbox_row \<Rightarrow> err option) \<Rightarrow> inbox_row list \<Rightarrow> inbox_row list \<Rightarrow> err + inbox_row list" where
  "insert_stmt_inbox refuse rows inbox =
     (case List.map_filter refuse rows of e # _ \<Rightarrow> Inl e | [] \<Rightarrow> Inr (fold insert_new rows inbox))"

definition insertBatch ::
  "fault \<Rightarrow> (inbox_row \<Rightarrow> err option) \<Rightarrow> postgres_driver \<Rightarrow> message list \<Rightarrow> inbox_row list
   \<Rightarrow> inbox_row list \<times> err option" where
  "insertBatch f refuse cfg msgs inbox =
     (case (f, insert_stmt_inbox refuse (map (inbox_row_of cfg) msgs) inbox) of
        (NoFault, Inl e) \<Rightarrow> (inbox, Some e)
      | (NoFault, Inr inbox') \<Rightarrow> (inbox', None)
      | (FailBefore e, _) \<Rightarrow> (inbox, Some e)
      | (FailRows e, _) \<Rightarrow> (inbox, Some e)
      | (FailAfter e, Inl _) \<Rightarrow> (inbox, Some e)
      | (FailAfter e, Inr inbox') \<Rightarrow> (inbox', Some e))"

subsection \<open>Publish\<close>

record inbox_env =
  ie_fault :: "nat \<Rightarrow> fault"
  ie_refuse :: "inbox_row \<Rightarrow> err option"
  ie_live :: "nat \<Rightarrow> bool"

text \<open>The second pass, one message at a time; the number counts the statements.\<close>

fun insert_each ::
  "inbox_env \<Rightarrow> postgres_driver \<Rightarrow> nat \<Rightarrow> message list \<Rightarrow> inbox_row list \<Rightarrow> inbox_row list \<times> err option list" where
  "insert_each env cfg i [] inbox = (inbox, [])"
| "insert_each env cfg i (msg # msgs) inbox =
     (let (inbox1, r) = insertBatch (ie_fault env i) (ie_refuse env) cfg [msg] inbox;
          (inbox2, rs) = insert_each env cfg (Suc i) msgs inbox1 in
      (inbox2, map_option (pg_classify (ie_live env i)) r # rs))"

definition pg_Publish ::
  "inbox_env \<Rightarrow> postgres_driver \<Rightarrow> inbox_row list \<Rightarrow> message list \<Rightarrow> inbox_row list \<times> err option list" where
  "pg_Publish env cfg inbox msgs =
     (if msgs = [] then (inbox, [])
      else
        (case insertBatch (ie_fault env 0) (ie_refuse env) cfg msgs inbox of
           (inbox1, None) \<Rightarrow> (inbox1, replicate (length msgs) None)
         | (inbox1, Some e) \<Rightarrow>
             (let classified = pg_classify (ie_live env 0) e in
              if IsUnavailable classified then (inbox1, replicate (length msgs) (Some classified))
              else insert_each env cfg 1 msgs inbox1)))"

text \<open>\<open>verify\<close>, given what the catalogue query returns.\<close>

definition verify :: "err + bool \<Rightarrow> postgres_driver \<Rightarrow> string \<Rightarrow> err option" where
  "verify exists cfg qualified =
     (case exists of
        Inl e \<Rightarrow> Some (Errorf (''postgres driver '' @ go_quote (pd_name cfg) @ '': reach '' @ qualified @ '': '') e [])
      | Inr True \<Rightarrow> None
      | Inr False \<Rightarrow> Some (ErrorString (''postgres driver '' @ go_quote (pd_name cfg) @ '': table '' @ qualified
          @ '' does not exist; the inbox belongs to its consumer and is not created here'')))"

text \<open>\<open>New\<close>, given what parsing the DSN and opening the pool return: the configuration and the statement's table.\<close>

definition pg_New :: "err option \<Rightarrow> err option \<Rightarrow> err + bool \<Rightarrow> postgres_driver \<Rightarrow> err + (postgres_driver \<times> string)" where
  "pg_New parsed opened exists cfg =
     (case parsed of
        Some e \<Rightarrow> Inl (Errorf (''postgres driver '' @ go_quote (pd_name cfg) @ '': parse DSN: '') e [])
      | None \<Rightarrow>
         (case opened of
            Some e \<Rightarrow> Inl (Errorf (''postgres driver '' @ go_quote (pd_name cfg) @ '': open pool: '') e [])
          | None \<Rightarrow>
             (let qualified = go_quote (pd_schema cfg) @ ''.'' @ go_quote (pd_table cfg) in
              case verify exists cfg qualified of Some e \<Rightarrow> Inl e | None \<Rightarrow> Inr (cfg, qualified))))"

definition pg_HealthCheck :: "err option \<Rightarrow> postgres_driver \<Rightarrow> err option" where
  "pg_HealthCheck ping cfg =
     map_option (\<lambda>e. Errorf (''postgres driver '' @ go_quote (pd_name cfg) @ '': '') e []) ping"

subsection \<open>The contracts\<close>

lemma classifyServer_verdict:
  "classifyServer code text e = e \<or> (\<exists>reason. classifyServer code text e = Permanent reason (Some e))
   \<or> (\<exists>reason. classifyServer code text e = Unavailable reason (Some e))"
  by (auto simp: classifyServer_def Let_def)

interpretation pg_cls: classifier pg_classify
proof
  fix live e
  show "pg_classify live e = e \<or> (\<exists>reason. pg_classify live e = Permanent reason (Some e))
      \<or> (\<exists>reason. pg_classify live e = Unavailable reason (Some e))"
    using classifyServer_verdict by (auto simp: pg_classify_def split: option.split)
qed

lemma length_insert_each: "length (snd (insert_each env cfg i msgs inbox)) = length msgs"
  by (induction env cfg i msgs inbox rule: insert_each.induct) (auto simp: Let_def split: prod.splits)

interpretation pg_pub: publisher "\<lambda>msgs. snd (pg_Publish env cfg inbox msgs)" for env cfg inbox
  by unfold_locales (auto simp: pg_Publish_def Let_def length_insert_each split: prod.splits option.splits)

subsection \<open>Lemmas\<close>

text \<open>What a publish may do to the inbox: add rows of its messages under new identifiers.\<close>

definition extends :: "postgres_driver \<Rightarrow> message list \<Rightarrow> inbox_row list \<Rightarrow> inbox_row list \<Rightarrow> bool" where
  "extends cfg msgs inbox inbox' \<longleftrightarrow>
     (\<exists>new. inbox' = inbox @ new \<and> set new \<subseteq> inbox_row_of cfg ` set msgs)
     \<and> (distinct (map ib_id inbox) \<longrightarrow> distinct (map ib_id inbox'))"

lemma extends_refl: "extends cfg msgs inbox inbox"
  by (simp add: extends_def)

lemma extends_trans: "extends cfg msgs a b \<Longrightarrow> extends cfg msgs b c \<Longrightarrow> extends cfg msgs a c"
  by (fastforce simp: extends_def)

lemma extends_mono: "extends cfg msgs a b \<Longrightarrow> set msgs \<subseteq> set msgs' \<Longrightarrow> extends cfg msgs' a b"
  unfolding extends_def by blast

lemma extends_ids: "extends cfg msgs a b \<Longrightarrow> i \<in> ib_id ` set a \<Longrightarrow> i \<in> ib_id ` set b"
  by (auto simp: extends_def)

lemma fold_insert_extends:
  "extends cfg msgs inbox (fold insert_new (map (inbox_row_of cfg) msgs) inbox)
   \<and> m_id ` set msgs \<subseteq> ib_id ` set (fold insert_new (map (inbox_row_of cfg) msgs) inbox)"
proof (induction msgs arbitrary: inbox)
  case (Cons m msgs)
  let ?r = "inbox_row_of cfg m"
  have one: "extends cfg (m # msgs) inbox (insert_new ?r inbox)"
    by (auto simp: extends_def insert_new_def)
  have id: "m_id m \<in> ib_id ` set (insert_new ?r inbox)"
    by (auto simp: insert_new_def inbox_row_of_def)
  note IH = Cons.IH [of "insert_new ?r inbox"]
  have "extends cfg (m # msgs) (insert_new ?r inbox) (fold insert_new (map (inbox_row_of cfg) msgs) (insert_new ?r inbox))"
    using IH extends_mono by (metis set_subset_Cons)
  with one have "extends cfg (m # msgs) inbox (fold insert_new (map (inbox_row_of cfg) (m # msgs)) inbox)"
    using extends_trans by simp
  moreover have "m_id m \<in> ib_id ` set (fold insert_new (map (inbox_row_of cfg) (m # msgs)) inbox)"
    using extends_ids [OF conjunct1 [OF IH] id] by simp
  ultimately show ?case using IH by simp
qed (simp add: extends_refl)

lemma insertBatch_extends:
  assumes "insertBatch f refuse cfg msgs inbox = (inbox', r)"
  shows "extends cfg msgs inbox inbox' \<and> (r = None \<longrightarrow> m_id ` set msgs \<subseteq> ib_id ` set inbox')"
  using assms fold_insert_extends [of cfg msgs inbox]
  by (auto simp: insertBatch_def insert_stmt_inbox_def extends_refl split: fault.splits sum.splits list.splits)

lemma insert_each_extends:
  assumes "insert_each env cfg i msgs inbox = (inbox', rs)"
  shows "extends cfg msgs inbox inbox' \<and> (\<forall>k < length msgs. rs ! k = None \<longrightarrow> m_id (msgs ! k) \<in> ib_id ` set inbox')"
  using assms
proof (induction env cfg i msgs inbox arbitrary: inbox' rs rule: insert_each.induct)
  case (2 env cfg i m msgs inbox)
  obtain b1 r where one: "insertBatch (ie_fault env i) (ie_refuse env) cfg [m] inbox = (b1, r)" by fastforce
  obtain b2 rs' where rest: "insert_each env cfg (Suc i) msgs b1 = (b2, rs')" by fastforce
  have out: "inbox' = b2" "rs = map_option (pg_classify (ie_live env i)) r # rs'"
    using 2(2) one rest by simp_all
  note a = insertBatch_extends [OF one] and b = 2(1) [OF one [symmetric] refl rest]
  have "extends cfg (m # msgs) inbox b1" using extends_mono [OF conjunct1 [OF a]] by simp
  moreover have "extends cfg (m # msgs) b1 b2" 
    by (rule extends_mono [OF conjunct1 [OF b]]) auto
  ultimately have "extends cfg (m # msgs) inbox inbox'" using extends_trans out(1) by blast
  moreover have "m_id ((m # msgs) ! k) \<in> ib_id ` set inbox'" if "k < length (m # msgs)" "rs ! k = None" for k
  proof (cases k)
    case 0
    then have "m_id m \<in> ib_id ` set b1" using a that(2) out(2) by simp
    then show ?thesis using 0 extends_ids [OF conjunct1 [OF b]] out(1) by simp
  next
    case (Suc k')
    then show ?thesis using b that out by simp
  qed
  ultimately show ?case by blast
qed (simp add: extends_refl)

lemma fold_insert_known:
  "m_id ` set msgs \<subseteq> ib_id ` set inbox \<Longrightarrow> fold insert_new (map (inbox_row_of cfg) msgs) inbox = inbox"
  by (induction msgs) (auto simp: insert_new_def inbox_row_of_def)

lemma insertBatch_known:
  "m_id ` set msgs \<subseteq> ib_id ` set inbox \<Longrightarrow> fst (insertBatch f refuse cfg msgs inbox) = inbox"
  by (auto simp: insertBatch_def insert_stmt_inbox_def fold_insert_known split: fault.splits sum.splits list.splits)

lemma insert_each_known:
  "m_id ` set msgs \<subseteq> ib_id ` set inbox \<Longrightarrow> fst (insert_each env cfg i msgs inbox) = inbox"
proof (induction msgs arbitrary: i)
  case (Cons m msgs)
  obtain b r where x: "insertBatch (ie_fault env i) (ie_refuse env) cfg [m] inbox = (b, r)" by fastforce
  then have "b = inbox"
    using insertBatch_known [of "[m]" inbox "ie_fault env i" "ie_refuse env" cfg] Cons.prems by simp
  then show ?case using x Cons.IH [of "Suc i"] Cons.prems by (cases "insert_each env cfg (Suc i) msgs inbox") simp
qed simp

lemma pg_Publish_known:
  assumes "m_id ` set msgs \<subseteq> ib_id ` set inbox"
  shows "fst (pg_Publish env cfg inbox msgs) = inbox"
  using insertBatch_known [OF assms, of "ie_fault env 0" "ie_refuse env" cfg] insert_each_known [OF assms]
  by (auto simp: pg_Publish_def Let_def split: prod.splits option.splits)

lemma pg_Publish_extends:
  assumes "pg_Publish env cfg inbox msgs = (inbox', rs)"
  shows "extends cfg msgs inbox inbox' \<and> (\<forall>k < length msgs. rs ! k = None \<longrightarrow> m_id (msgs ! k) \<in> ib_id ` set inbox')"
proof (cases "msgs = []")
  case False
  obtain b1 r where one: "insertBatch (ie_fault env 0) (ie_refuse env) cfg msgs inbox = (b1, r)" by fastforce
  note a = insertBatch_extends [OF one]
  show ?thesis
  proof (cases r)
    case None
    then show ?thesis using a assms one False by (auto simp: pg_Publish_def image_subset_iff)
  next
    case (Some e)
    show ?thesis
    proof (cases "IsUnavailable (pg_classify (ie_live env 0) e)")
      case True
      then show ?thesis using a assms one False Some by (auto simp: pg_Publish_def Let_def)
    next
      case no: False
      then have "insert_each env cfg 1 msgs b1 = (inbox', rs)"
        using assms one False Some by (simp add: pg_Publish_def Let_def)
      from insert_each_extends [OF this] a show ?thesis using extends_trans by blast
    qed
  qed
qed (use assms in \<open>simp add: pg_Publish_def extends_refl\<close>)

text \<open>An inbox whose consumer refuses empty payloads, for the witness.\<close>

definition demo_pg :: postgres_driver where
  "demo_pg = \<lparr>pd_name = ''inbox'', pd_naming = \<lparr>n_prefix = [], n_prefix_sep = ''_'', n_version_sep = ''_''\<rparr>,
     pd_dsn = ''postgres://h/db'', pd_same_database = False, pd_schema = ''public'', pd_table = ''inbox'',
     pd_write_timeout = 5 * second, pd_max_conns = 4\<rparr>"

definition demo_inbox_env :: inbox_env where
  "demo_inbox_env = \<lparr>ie_fault = (\<lambda>_. NoFault),
     ie_refuse = (\<lambda>r. if ib_payload r = [] then Some (PgError ''23514'' ''check'') else None), ie_live = (\<lambda>_. True)\<rparr>"

lemma demo_refusal:
  "pg_classify True (PgError ''23514'' ''check'') = Permanent ''23514 check'' (Some (PgError ''23514'' ''check''))"
  by (simp add: pg_classify_def errors_as_def classifyServer_def Let_def pg_permanent_codes_def pg_unavailable_codes_def
      sqlstate_class_def)

subsection \<open>Properties\<close>

text \<open>
  C33.  Delivery into an inbox is idempotent.  Whatever fails, a publish only appends rows of its own
  messages to the inbox and keeps the primary key; a message whose result is nil is in the inbox; and
  publishing a message again that is already there - after a crash between the insert and the
  write-back - changes nothing, whatever happens to that second publish.
\<close>

theorem inbox_delivery_is_idempotent:
  assumes "pg_Publish env cfg inbox msgs = (inbox', rs)" and "distinct (map ib_id inbox)"
  shows "(\<exists>new. inbox' = inbox @ new \<and> set new \<subseteq> inbox_row_of cfg ` set msgs) \<and> distinct (map ib_id inbox')
    \<and> (\<forall>k < length msgs. rs ! k = None \<longrightarrow> m_id (msgs ! k) \<in> ib_id ` set inbox')
    \<and> (\<forall>again env'. (\<forall>m \<in> set again. \<exists>k < length msgs. msgs ! k = m \<and> rs ! k = None) \<longrightarrow>
         fst (pg_Publish env' cfg inbox' again) = inbox')"
proof -
  note e = pg_Publish_extends [OF assms(1)]
  have "fst (pg_Publish env' cfg inbox' again) = inbox'"
    if "\<forall>m \<in> set again. \<exists>k < length msgs. msgs ! k = m \<and> rs ! k = None" for again env'
    using that e by (intro pg_Publish_known) fastforce
  with e assms(2) show ?thesis unfolding extends_def by blast
qed

text \<open>A batch with one row the inbox refuses: the other row is delivered, and delivering it again changes nothing.\<close>

theorem inbox_delivery_is_idempotent_witness:
  "map (\<lambda>r. r = None) (snd (pg_Publish demo_inbox_env demo_pg [] [demo_message, demo_message\<lparr>m_id := ''bad'', m_payload := []\<rparr>]))
     = [True, False]
   \<and> fst (pg_Publish demo_inbox_env demo_pg
       (fst (pg_Publish demo_inbox_env demo_pg [] [demo_message, demo_message\<lparr>m_id := ''bad'', m_payload := []\<rparr>]))
       [demo_message])
     = [inbox_row_of demo_pg demo_message]"
proof -
  let ?bad = "demo_message\<lparr>m_id := ''bad'', m_payload := []\<rparr>"
  let ?e = "PgError ''23514'' ''check''"
  have c: "pg_Publish demo_inbox_env demo_pg [] [demo_message, ?bad]
      = ([inbox_row_of demo_pg demo_message], [None, Some (Permanent ''23514 check'' (Some ?e))])"
    by (simp add: pg_Publish_def insertBatch_def insert_stmt_inbox_def List.map_filter_def demo_inbox_env_def Let_def
        demo_refusal inbox_row_of_def demo_message_def insert_new_def IsUnavailable_def errors_as_def Permanent_def)
  have "fst (pg_Publish demo_inbox_env demo_pg [inbox_row_of demo_pg demo_message] [demo_message])
      = [inbox_row_of demo_pg demo_message]"
    using inbox_delivery_is_idempotent [OF c] by (auto dest!: spec [of _ "[demo_message]"] spec [of _ demo_inbox_env])
  with c show ?thesis by simp
qed

end
