(* ===== verification/Broker_Drivers.thy ===== *)
theory Broker_Drivers
  imports Broker_Kafka Broker_RabbitMQ Broker_Postgres Dispatch_Publish
begin

text \<open>
  What the three drivers have in common: each interprets the contract of a classifier
  (\<open>classifier\<close>) and of a publisher (\<open>publisher\<close>), so the router and the pipeline may be proved
  against the contracts; and what an error of a broker comes to mean for the row of a message.
\<close>

subsection \<open>Verdicts\<close>

text \<open>How the pipeline reads a failure: the message was refused, the broker was not there, or neither.\<close>

datatype verdict = Rejected | Unreachable | Retryable

text \<open>
  The decision tables, from the protocols.  Kafka: the codes that refuse a message or a client
  for good; those by which the cluster says that it cannot take the write; every other code by the protocol's
  own flag.  PostgreSQL: no connection, no resources or shutting down; a row or a statement that does not
  fit; everything else may be retried.  RabbitMQ answers with no codes.  Without an answer of the
  broker, a deadline is its silence while the caller still runs, and no verdict during a shutdown.
\<close>

definition silent :: "bool \<Rightarrow> (err \<Rightarrow> bool) \<Rightarrow> err \<Rightarrow> verdict" where
  "silent is_live lost e =
     (if errors_is e DeadlineExceeded then (if is_live then Unreachable else Retryable)
      else if errors_is e Canceled then Retryable
      else if \<exists>x \<in> set (err_nodes e). lost x then Unreachable else Retryable)"

definition kafka_verdict :: "kafka_lib \<Rightarrow> bool \<Rightarrow> err \<Rightarrow> verdict" where
  "kafka_verdict lib is_live e =
     (case Option.bind (errors_as is_kafka_node e) kafka_code of
        Some c \<Rightarrow>
          if c \<in> {5, 6, 7, 8, 9, 13, 19, 20, 56, 72} then Unreachable
          else if c \<in> {3, 10, 17, 18, 29, 31, 43, 58, 87} \<or> \<not> kl_temporary lib c then Rejected
          else Retryable
      | None \<Rightarrow> silent is_live (\<lambda>x. is_net_node x \<or> x = IoEOF \<or> x = IoUnexpectedEOF) e)"

definition pg_verdict :: "bool \<Rightarrow> err \<Rightarrow> verdict" where
  "pg_verdict is_live e =
     (case Option.bind (errors_as is_pg_node e) pg_fields of
        Some (code, _) \<Rightarrow>
          if code \<in> {''53100'', ''53200'', ''53300'', ''57014'', ''57P01'', ''57P02'', ''57P03'', ''58030''}
            \<or> take 2 code = ''08'' then Unreachable
          else if code = ''3F000'' \<or> take 2 code \<in> {''22'', ''23'', ''42''} then Rejected
          else Retryable
      | None \<Rightarrow> silent is_live (\<lambda>x. is_connect_node x \<or> is_net_node x) e)"

definition rmq_verdict :: "bool \<Rightarrow> err \<Rightarrow> verdict" where
  "rmq_verdict alive e =
     (if alive \<and> \<not> errors_is e ErrNotConnected \<and> \<not> errors_is e AmqpErrClosed then Retryable else Unreachable)"

text \<open>The row after the result of its message was written back.\<close>

definition row_after :: "int \<Rightarrow> duration \<Rightarrow> timestamptz \<Rightarrow> duration \<Rightarrow> publish_event \<Rightarrow> row \<Rightarrow> row" where
  "row_after max_attempts max_defer now delay pub r =
     nack_apply max_attempts max_defer now
       (input_of \<lparr>o_id = r_id r, o_err = ev_err pub, o_permanent = ev_permanent pub,
                  o_deferred = ev_deferred pub, o_delay = delay\<rparr>) r"

text \<open>
  What the verdict means for the row: a refusal fails it, an unreachable broker leaves its counter
  alone and fails it only after \<open>MaxDefer\<close>, everything else spends one of its attempts.
\<close>

definition verdict_status :: "int \<Rightarrow> duration \<Rightarrow> timestamptz \<Rightarrow> row \<Rightarrow> verdict \<Rightarrow> status" where
  "verdict_status max_attempts max_defer now r v =
     (case v of
        Rejected \<Rightarrow> StatusFailed
      | Unreachable \<Rightarrow>
          if 0 < max_defer \<and> deferred_start now r \<le> now - make_interval max_defer then StatusFailed else StatusPending
      | Retryable \<Rightarrow> if max_attempts \<le> r_attempts r + 1 then StatusFailed else StatusPending)"

definition the_drivers :: "kafka_lib \<Rightarrow> ((bool \<Rightarrow> err \<Rightarrow> err) \<times> (bool \<Rightarrow> err \<Rightarrow> verdict)) list" where
  "the_drivers lib = [(kafka_classify lib, kafka_verdict lib), (rmq_classify, rmq_verdict), (pg_classify, pg_verdict)]"

text \<open>An answer that the pipeline reads as the verdict.\<close>

definition decides :: "verdict \<Rightarrow> err \<Rightarrow> bool" where
  "decides v e \<longleftrightarrow> (IsPermanent e \<longleftrightarrow> v = Rejected) \<and> (IsUnavailable e \<longleftrightarrow> v = Unreachable)"

definition demo_lib :: kafka_lib where
  "demo_lib = \<lparr>kl_title = (\<lambda>_. ''title''), kl_temporary = (\<lambda>_. False)\<rparr>"

subsection \<open>Lemmas\<close>

text \<open>
  An error that is only the end of the caller's own context is no verdict of the Kafka or the PostgreSQL
  driver: shutting down must not look like an outage.
\<close>

lemma kafka_cancelled:
  "errors_as is_kafka_node e = None \<Longrightarrow> context_error e \<Longrightarrow> kafka_classify lib False e = e"
  by (simp add: kafka_classify_def)

lemma pg_cancelled: "errors_as is_pg_node e = None \<Longrightarrow> context_error e \<Longrightarrow> pg_classify False e = e"
  by (simp add: pg_classify_def)

lemma decides_simps [simp]:
  "plain e \<Longrightarrow> decides v e \<longleftrightarrow> v = Retryable"
  "plain e \<Longrightarrow> decides v (Permanent reason (Some e)) \<longleftrightarrow> v = Rejected"
  "plain e \<Longrightarrow> decides v (Unavailable reason (Some e)) \<longleftrightarrow> v = Unreachable"
  by (cases v; simp add: decides_def plain_def)+

text \<open>Each classifier decides as its table says.\<close>

lemma kafka_decides: "plain e \<Longrightarrow> decides (kafka_verdict lib is_live e) (kafka_classify lib is_live e)"
  unfolding kafka_classify_def kafka_verdict_def silent_def context_error_def errors_as_iff errors_is_def
    rejected_codes_def unknown_topic_code_def outage_codes_def
  by (cases "Option.bind (errors_as is_kafka_node e) kafka_code") auto

lemma sqlstate_class_take:
  "length cls = 2 \<Longrightarrow> sqlstate_class code = cls \<longleftrightarrow> take 2 code = cls"
  by (auto simp: sqlstate_class_def)

lemma pg_server_decides:
  assumes "plain e"
  shows "decides
    (if code \<in> {''53100'', ''53200'', ''53300'', ''57014'', ''57P01'', ''57P02'', ''57P03'', ''58030''}
        \<or> take 2 code = ''08'' then Unreachable
     else if code = ''3F000'' \<or> take 2 code \<in> {''22'', ''23'', ''42''} then Rejected
     else Retryable) (classifyServer code text e)"
  using assms
  by (auto simp: classifyServer_def Let_def pg_permanent_codes_def pg_unavailable_codes_def sqlstate_class_take)

lemma pg_decides: "plain e \<Longrightarrow> decides (pg_verdict is_live e) (pg_classify is_live e)"
proof (cases "Option.bind (errors_as is_pg_node e) pg_fields")
  case None
  then show "plain e \<Longrightarrow> ?thesis"
    unfolding pg_classify_def pg_verdict_def silent_def context_error_def errors_as_iff errors_is_def by auto
next
  case (Some x)
  obtain code msg where x: "x = (code, msg)" by fastforce
  show "plain e \<Longrightarrow> ?thesis"
    unfolding pg_classify_def pg_verdict_def Some x option.case prod.case by (rule pg_server_decides)
qed

lemma rmq_decides: "plain e \<Longrightarrow> decides (rmq_verdict alive e) (rmq_classify alive e)"
  unfolding rmq_classify_def rmq_verdict_def by (auto simp: plain_def)

lemma row_after_verdict:
  assumes "decides v x" and "pub = outcome_event d m (Some x)"
  shows "r_attempts (row_after ma md now delay pub r) = r_attempts r + (if v = Unreachable then 0 else 1)
    \<and> r_status (row_after ma md now delay pub r) = verdict_status ma md now r v"
  using assms
  by (cases v) (auto simp: decides_def outcome_event_def row_after_def verdict_status_def nack_apply_def nack_terminal_def
      input_of_def Let_def)

subsection \<open>Properties\<close>

text \<open>
  C30.  A broker's error costs a message what the protocol says it should.  For an error of a client library,
  which carries no classification of its own, the answer of each driver is read, reported and
  written back so that the row ends as the decision table of the driver's protocol has it: failed at once for a refusal, its
  counter untouched when the broker was out of reach, and one attempt spent otherwise.  In particular
  no error is taken for both a refusal and an outage, and with Kafka and PostgreSQL a deadline counts as
  an outage only while the caller itself still runs.  The original error stays readable in the answer.
\<close>

theorem broker_error_decides_row:
  assumes "plain e"
  shows "list_all (\<lambda>(classify, verdict).
      r_attempts (row_after ma md now delay (outcome_event d m (Some (classify is_live e))) r)
        = r_attempts r + (if verdict is_live e = Unreachable then 0 else 1)
      \<and> r_status (row_after ma md now delay (outcome_event d m (Some (classify is_live e))) r)
        = verdict_status ma md now r (verdict is_live e)
      \<and> set (err_nodes e) \<subseteq> set (err_nodes (classify is_live e))) (the_drivers lib)"
  unfolding the_drivers_def
  using row_after_verdict [OF kafka_decides [OF assms] refl] row_after_verdict [OF pg_decides [OF assms] refl]
    row_after_verdict [OF rmq_decides [OF assms] refl] kafka_cls.three_verdicts [OF assms]
    rmq_cls.three_verdicts [OF assms] pg_cls.three_verdicts [OF assms]
  by simp

text \<open>A reset connection, seen by PostgreSQL's driver, costs nothing; an unknown topic fails at once.\<close>

theorem broker_error_decides_row_witness:
  "r_attempts (row_after 5 0 3000 9 (outcome_event 1 demo_message (Some (pg_classify True (NetError ''reset'')))) demo_row)
     = r_attempts demo_row
   \<and> r_status (row_after 5 0 3000 9 (outcome_event 1 demo_message (Some (kafka_classify demo_lib True (KafkaError 3 ''x'')))) demo_row)
     = StatusFailed"
proof -
  have p: "plain (NetError ''reset'')" "plain (KafkaError 3 ''x'')" by code_simp+
  have v: "pg_verdict True (NetError ''reset'') = Unreachable" "kafka_verdict demo_lib True (KafkaError 3 ''x'') = Rejected"
    by code_simp+
  show ?thesis
    using broker_error_decides_row [OF p(1), of 5 0 3000 9 1 demo_message True demo_row demo_lib]
      broker_error_decides_row [OF p(2), of 5 0 3000 9 1 demo_message True demo_row demo_lib] v
    by (simp add: the_drivers_def verdict_status_def)
qed

end
