(* ===== verification/Client_Enqueue.thy ===== *)
theory Client_Enqueue
  imports Store_Claim Config_Parse "HOL-Library.AList"
begin

text \<open>
  The producer's side: \<open>pkg/outboxclient/client.go\<close> (on pgx) and \<open>pkg/outboxsql/client.go\<close> (on
  \<open>database/sql\<close>), each with its own \<open>prepare\<close>, \<open>Enqueue\<close> and \<open>EnqueueBatch\<close>.

  A client writes inside the caller's transaction: the table below is the table as that transaction
  sees it, and the clients commit nothing.  What the drivers and the server do to the arguments
  (parsing a UUID, storing a byte slice, converting a time, refusing a row) is the record \<open>db_env\<close>.
\<close>

subsection \<open>Text through \<open>encoding/json\<close>\<close>

text \<open>
  A Go string is a sequence of bytes; \<open>json.Marshal\<close> replaces every byte that is not part of a
  well-formed UTF-8 sequence by U+FFFD.  \<open>rune_len\<close> is the length of the well-formed sequence a string
  starts with, \<open>0\<close> if there is none.
\<close>

definition byte :: "char \<Rightarrow> nat" where
  "byte c = of_char c"

definition cont :: "char \<Rightarrow> bool" where
  "cont c \<longleftrightarrow> 0x80 \<le> byte c \<and> byte c \<le> 0xBF"

definition second_byte :: "nat \<Rightarrow> char \<Rightarrow> bool" where
  "second_byte b c \<longleftrightarrow>
     (if b = 0xE0 then 0xA0 \<le> byte c \<and> byte c \<le> 0xBF
      else if b = 0xED then 0x80 \<le> byte c \<and> byte c \<le> 0x9F
      else if b = 0xF0 then 0x90 \<le> byte c \<and> byte c \<le> 0xBF
      else if b = 0xF4 then 0x80 \<le> byte c \<and> byte c \<le> 0x8F
      else cont c)"

definition rune_size :: "nat \<Rightarrow> nat" where
  "rune_size b =
     (if b < 0x80 then 1 else if 0xC2 \<le> b \<and> b \<le> 0xDF then 2 else if 0xE0 \<le> b \<and> b \<le> 0xEF then 3
      else if 0xF0 \<le> b \<and> b \<le> 0xF4 then 4 else 0)"

fun rune_len :: "string \<Rightarrow> nat" where
  "rune_len [] = 0"
| "rune_len (c # cs) =
     (let n = rune_size (byte c) in
      if n \<le> 1 then n
      else if length cs < n - 1 then 0
      else if second_byte (byte c) (hd cs) \<and> list_all cont (take (n - 2) (tl cs)) then n
      else 0)"

definition replacement :: string where
  "replacement = [CHR 0xEF, CHR 0xBF, CHR 0xBD]"

function coerce_utf8 :: "string \<Rightarrow> string" where
  "coerce_utf8 [] = []"
| "coerce_utf8 (c # cs) =
     (let n = rune_len (c # cs) in
      if n = 0 then replacement @ coerce_utf8 cs
      else take n (c # cs) @ coerce_utf8 (drop n (c # cs)))"
  by pat_completeness auto
termination
  by (relation "measure length") auto

definition valid_utf8 :: "string \<Rightarrow> bool" where
  "valid_utf8 s \<longleftrightarrow> coerce_utf8 s = s"

text \<open>
  \<open>json.Marshal\<close> of a string map, read as JSONB: of keys that became equal the last one stays.
\<close>

definition marshal_headers :: "headers \<Rightarrow> json" where
  "marshal_headers hs =
     encode_headers (rev (AList.clearjunk (rev (map (\<lambda>(k, v). (coerce_utf8 k, coerce_utf8 v)) hs))))"

definition marshal_target :: "target \<Rightarrow> json" where
  "marshal_target t =
     encode_target (t\<lparr>t_key := coerce_utf8 (t_key t), t_exchange := coerce_utf8 (t_exchange t),
                      t_routing_key := coerce_utf8 (t_routing_key t)\<rparr>)"

subsection \<open>Messages and statements\<close>

text \<open>A nil map, a nil slice and the zero time are \<open>None\<close>.\<close>

record client_message =
  cm_id :: string
  cm_stream :: string
  cm_topic :: string
  cm_payload :: "bytes option"
  cm_headers :: "headers option"
  cm_target :: target
  cm_available_at :: "go_time option"

record client =
  cl_insert :: string
  cl_table :: string

text \<open>The arguments of the INSERT, in its order.\<close>

record insert_args =
  ia_id :: string
  ia_stream :: string
  ia_topic :: string
  ia_payload :: "bytes option"
  ia_headers :: json
  ia_target :: json
  ia_available_at :: "go_time option"

record db_env =
  de_uuid :: "string \<Rightarrow> err + uuid"
  de_bytea :: "bytes option \<Rightarrow> bytes option"
  de_time :: "go_time \<Rightarrow> timestamptz"
  de_refuse :: "row \<Rightarrow> err option"

definition not_null_violation :: err where
  "not_null_violation = PgError ''23502'' ''null value in column payload''"

definition unique_violation :: err where
  "unique_violation = PgError ''23505'' ''duplicate key value''"

definition exec_insert :: "db_env \<Rightarrow> timestamptz \<Rightarrow> insert_args \<Rightarrow> table \<Rightarrow> err + (table \<times> unit)" where
  "exec_insert env now a t =
     (case de_uuid env (ia_id a) of
        Inl e \<Rightarrow> Inl e
      | Inr i \<Rightarrow>
         (case de_bytea env (ia_payload a) of
            None \<Rightarrow> Inl not_null_violation
          | Some p \<Rightarrow>
             (let r = insert_row now i (ia_stream a) (ia_topic a) p (ia_headers a) (ia_target a)
                        (map_option (de_time env) (ia_available_at a)) in
              case de_refuse env r of
                Some e \<Rightarrow> Inl e
              | None \<Rightarrow> (case insert_stmt r t of None \<Rightarrow> Inl unique_violation | Some t' \<Rightarrow> Inr (t', ())))))"

subsection \<open>\<open>pkg/outboxclient\<close>\<close>

definition insert_text :: "string \<Rightarrow> string" where
  "insert_text qualified =
     ''INSERT INTO '' @ qualified @ '' (id, stream, topic, payload, headers, target, available_at)''
     @ [CHR 0x0A, CHR 0x09, CHR 0x09, CHR 0x09] @ '' VALUES ($1, $2, $3, $4, $5, $6, coalesce($7, now()))''"

definition client_New :: "string \<Rightarrow> string \<Rightarrow> err + client" where
  "client_New schema tab =
     (if \<not> is_identifier schema then
        Inl (ErrorString (''schema '' @ go_quote schema @ '' is not a valid lower-case unquoted identifier''))
      else if \<not> is_identifier tab then
        Inl (ErrorString (''table '' @ go_quote tab @ '' is not a valid lower-case unquoted identifier''))
      else
        (let qualified = go_quote schema @ ''.'' @ go_quote tab in
         Inr \<lparr>cl_insert = insert_text qualified, cl_table = qualified\<rparr>))"

definition client_prepare :: "err + string \<Rightarrow> client_message \<Rightarrow> err + (string \<times> json \<times> json)" where
  "client_prepare v7 msg =
     (if cm_stream msg = [] then Inl (ErrorString ''stream must not be empty'')
      else if cm_topic msg = [] then Inl (ErrorString ''topic must not be empty'')
      else
        (case (if cm_id msg = [] then v7 else Inr (cm_id msg)) of
           Inl e \<Rightarrow> Inl (Errorf ''generate message id: '' e [])
         | Inr i \<Rightarrow>
             Inr (i, case cm_headers msg of None \<Rightarrow> JObj [] | Some hs \<Rightarrow> marshal_headers hs,
                  marshal_target (cm_target msg))))"

definition client_args :: "string \<times> json \<times> json \<Rightarrow> client_message \<Rightarrow> insert_args" where
  "client_args p msg =
     (case p of (i, hs, tg) \<Rightarrow>
        \<lparr>ia_id = i, ia_stream = cm_stream msg, ia_topic = cm_topic msg, ia_payload = cm_payload msg,
         ia_headers = hs, ia_target = tg, ia_available_at = cm_available_at msg\<rparr>)"

definition client_Enqueue ::
  "db_env \<Rightarrow> fault \<Rightarrow> err + string \<Rightarrow> timestamptz \<Rightarrow> client_message \<Rightarrow> table \<Rightarrow> table \<times> err option" where
  "client_Enqueue env f v7 now msg t =
     (case client_prepare v7 msg of
        Inl e \<Rightarrow> (t, Some e)
      | Inr p \<Rightarrow>
         (case query f (exec_insert env now (client_args p msg) t) t of
            (t', Inl e) \<Rightarrow> (t', Some (Errorf ''enqueue outbox message: '' e []))
          | (t', Inr _) \<Rightarrow> (t', None)))"

text \<open>
  \<open>EnqueueBatch\<close> prepares every message, then sends the statements together and reads their results
  in order; a statement that fails aborts those after it.  Call \<open>i\<close> gets identifier \<open>v7 i\<close> and
  meets the fault \<open>f i\<close>.
\<close>

fun prepare_all :: "(nat \<Rightarrow> err + string) \<Rightarrow> nat \<Rightarrow> client_message list \<Rightarrow> err + insert_args list" where
  "prepare_all v7 i [] = Inr []"
| "prepare_all v7 i (msg # msgs) =
     (case client_prepare (v7 i) msg of
        Inl e \<Rightarrow> Inl e
      | Inr p \<Rightarrow>
         (case prepare_all v7 (Suc i) msgs of Inl e \<Rightarrow> Inl e | Inr as \<Rightarrow> Inr (client_args p msg # as)))"

definition batch_error :: "string \<Rightarrow> nat \<Rightarrow> nat \<Rightarrow> err \<Rightarrow> err" where
  "batch_error what i n e = Errorf (what @ itoa (int i + 1) @ '' of '' @ itoa (int n) @ '': '') e []"

fun send_batch ::
  "db_env \<Rightarrow> (nat \<Rightarrow> fault) \<Rightarrow> timestamptz \<Rightarrow> nat \<Rightarrow> nat \<Rightarrow> insert_args list \<Rightarrow> table \<Rightarrow> table \<times> err option" where
  "send_batch env f now n i [] t = (t, None)"
| "send_batch env f now n i (a # as) t =
     (case query (f i) (exec_insert env now a t) t of
        (t', Inl e) \<Rightarrow> (t', Some (batch_error ''enqueue outbox message '' i n e))
      | (t', Inr _) \<Rightarrow> send_batch env f now n (Suc i) as t')"

definition client_EnqueueBatch ::
  "db_env \<Rightarrow> (nat \<Rightarrow> fault) \<Rightarrow> (nat \<Rightarrow> err + string) \<Rightarrow> timestamptz \<Rightarrow> client_message list \<Rightarrow> table
   \<Rightarrow> table \<times> err option" where
  "client_EnqueueBatch env f v7 now msgs t =
     (if msgs = [] then (t, None)
      else
        (case prepare_all v7 0 msgs of
           Inl e \<Rightarrow> (t, Some e)
         | Inr as \<Rightarrow> send_batch env f now (length msgs) 0 as t))"

subsection \<open>\<open>pkg/outboxsql\<close>\<close>

definition sql_New :: "string \<Rightarrow> string \<Rightarrow> err + client" where
  "sql_New schema tab =
     (if \<not> is_identifier schema then
        Inl (ErrorString (''schema '' @ go_quote schema @ '' is not a valid lower-case unquoted identifier''))
      else if \<not> is_identifier tab then
        Inl (ErrorString (''table '' @ go_quote tab @ '' is not a valid lower-case unquoted identifier''))
      else
        (let qualified = go_quote schema @ ''.'' @ go_quote tab in
         Inr \<lparr>cl_insert = insert_text qualified, cl_table = qualified\<rparr>))"

text \<open>\<open>Default\<close> of both packages: the dispatcher's default table.\<close>

definition client_Default :: "client go" where
  "client_Default = (case client_New ''outbox'' ''messages'' of Inl e \<Rightarrow> Panic (err_text e) | Inr c \<Rightarrow> Return c)"

definition sql_Default :: "client go" where
  "sql_Default = (case sql_New ''outbox'' ''messages'' of Inl e \<Rightarrow> Panic (err_text e) | Inr c \<Rightarrow> Return c)"

definition sql_prepare :: "err + string \<Rightarrow> client_message \<Rightarrow> err + insert_args" where
  "sql_prepare v7 msg =
     (if cm_stream msg = [] then Inl (ErrorString ''stream must not be empty'')
      else if cm_topic msg = [] then Inl (ErrorString ''topic must not be empty'')
      else
        (case (if cm_id msg = [] then v7 else Inr (cm_id msg)) of
           Inl e \<Rightarrow> Inl (Errorf ''generate message id: '' e [])
         | Inr i \<Rightarrow>
            (let hs = (case cm_headers msg of None \<Rightarrow> JObj [] | Some hs \<Rightarrow> marshal_headers hs);
                 tg = marshal_target (cm_target msg) in
             Inr \<lparr>ia_id = i, ia_stream = cm_stream msg, ia_topic = cm_topic msg, ia_payload = cm_payload msg,
                  ia_headers = hs, ia_target = tg, ia_available_at = cm_available_at msg\<rparr>)))"

definition sql_Enqueue ::
  "db_env \<Rightarrow> fault \<Rightarrow> err + string \<Rightarrow> timestamptz \<Rightarrow> client_message \<Rightarrow> table \<Rightarrow> table \<times> err option" where
  "sql_Enqueue env f v7 now msg t =
     (case sql_prepare v7 msg of
        Inl e \<Rightarrow> (t, Some e)
      | Inr a \<Rightarrow>
         (case query f (exec_insert env now a t) t of
            (t', Inl e) \<Rightarrow> (t', Some (Errorf ''enqueue outbox message: '' e []))
          | (t', Inr _) \<Rightarrow> (t', None)))"

fun sql_batch_loop ::
  "db_env \<Rightarrow> (nat \<Rightarrow> fault) \<Rightarrow> (nat \<Rightarrow> err + string) \<Rightarrow> timestamptz \<Rightarrow> nat \<Rightarrow> nat \<Rightarrow> client_message list \<Rightarrow> table
   \<Rightarrow> table \<times> err option" where
  "sql_batch_loop env f v7 now n i [] t = (t, None)"
| "sql_batch_loop env f v7 now n i (msg # msgs) t =
     (case sql_Enqueue env (f i) (v7 i) now msg t of
        (t', Some e) \<Rightarrow> (t', Some (batch_error ''enqueue message '' i n e))
      | (t', None) \<Rightarrow> sql_batch_loop env f v7 now n (Suc i) msgs t')"

definition sql_EnqueueBatch ::
  "db_env \<Rightarrow> (nat \<Rightarrow> fault) \<Rightarrow> (nat \<Rightarrow> err + string) \<Rightarrow> timestamptz \<Rightarrow> client_message list \<Rightarrow> table
   \<Rightarrow> table \<times> err option" where
  "sql_EnqueueBatch env f v7 now msgs t = sql_batch_loop env f v7 now (length msgs) 0 msgs t"

subsection \<open>Lemmas\<close>

text \<open>What the clients share: one preparation, one statement.\<close>

lemma sql_prepare_client:
  "sql_prepare v7 msg = (case client_prepare v7 msg of Inl e \<Rightarrow> Inl e | Inr p \<Rightarrow> Inr (client_args p msg))"
  by (simp add: sql_prepare_def client_prepare_def client_args_def Let_def split: sum.split)

lemma sql_Enqueue_client: "sql_Enqueue env f v7 now msg t = client_Enqueue env f v7 now msg t"
  by (simp add: sql_Enqueue_def client_Enqueue_def sql_prepare_client split: sum.split)

lemma sql_New_client: "sql_New schema tab = client_New schema tab"
  by (simp add: sql_New_def client_New_def)

lemma default_clients: "client_Default = sql_Default" "\<exists>c. client_Default = Return c"
proof -
  have "is_identifier ''outbox''" "is_identifier ''messages''" by code_simp+
  then show "\<exists>c. client_Default = Return c" by (simp add: client_Default_def client_New_def Let_def)
qed (simp add: client_Default_def sql_Default_def sql_New_client)

lemma batch_loop_unprepared:
  "prepare_all v7 i msgs = Inl e \<Longrightarrow> \<exists>e'. snd (sql_batch_loop env f v7 now n i msgs t) = Some e'"
proof (induction v7 i msgs arbitrary: t rule: prepare_all.induct)
  case (2 v7 i msg msgs)
  show ?case
  proof (cases "client_prepare (v7 i) msg")
    case (Inl e1)
    then show ?thesis by (simp add: sql_Enqueue_client client_Enqueue_def)
  next
    case (Inr p)
    with 2(2) have "prepare_all v7 (Suc i) msgs = Inl e" by (simp split: sum.splits)
    from 2(1) [OF Inr this] show ?thesis by (simp split: prod.split option.split)
  qed
qed simp

lemma batch_loop_prepared:
  assumes "prepare_all v7 i msgs = Inr as"
  shows "sql_batch_loop env f v7 now n i msgs t = send_batch env f now n i as t
    \<or> (\<exists>e. snd (sql_batch_loop env f v7 now n i msgs t) = Some e) \<and> (\<exists>e. snd (send_batch env f now n i as t) = Some e)"
  using assms
proof (induction v7 i msgs arbitrary: as t rule: prepare_all.induct)
  case (2 v7 i msg msgs)
  then obtain p as' where p: "client_prepare (v7 i) msg = Inr p" "prepare_all v7 (Suc i) msgs = Inr as'"
    "as = client_args p msg # as'"
    by (auto split: sum.splits)
  obtain t1 res where q: "query (f i) (exec_insert env now (client_args p msg) t) t = (t1, res)" by fastforce
  show ?case
    using 2(1) [OF p(1) p(2), of t1] p q
    by (cases res) (simp_all add: sql_Enqueue_client client_Enqueue_def)
qed simp

text \<open>What a nil result of \<open>Enqueue\<close> says.\<close>

lemma client_Enqueue_nil:
  assumes "client_Enqueue env f v7 now msg t = (t', None)"
  obtains s i pay where
    "(if cm_id msg = [] then v7 else Inr (cm_id msg)) = Inr s" and "de_uuid env s = Inr i"
    and "de_bytea env (cm_payload msg) = Some pay" and "i \<notin> r_id ` set t"
    and "t' = t @ [insert_row now i (cm_stream msg) (cm_topic msg) pay
            (case cm_headers msg of None \<Rightarrow> JObj [] | Some hs \<Rightarrow> marshal_headers hs)
            (marshal_target (cm_target msg)) (map_option (de_time env) (cm_available_at msg))]"
    and "cm_stream msg \<noteq> []" and "cm_topic msg \<noteq> []"
proof -
  from assms obtain p where p: "client_prepare v7 msg = Inr p"
    by (auto simp: client_Enqueue_def split: sum.splits)
  with assms have "\<exists>u. query f (exec_insert env now (client_args p msg) t) t = (t', Inr u)"
    by (auto simp: client_Enqueue_def split: sum.splits prod.splits)
  then have "exec_insert env now (client_args p msg) t = Inr (t', ())"
    by (auto simp: query_def split: fault.splits sum.splits)
  then show thesis
    using p that
    by (auto simp: exec_insert_def client_args_def client_prepare_def insert_stmt_def insert_row_def Let_def
        split: sum.splits option.splits if_splits)
qed

lemma decode_marshal_headers:
  assumes "distinct (map fst hs)" and "list_all (\<lambda>(k, v). valid_utf8 k \<and> valid_utf8 v) hs"
  shows "decode_headers (marshal_headers hs) = Some hs"
proof -
  have "map (\<lambda>(k, v). (coerce_utf8 k, coerce_utf8 v)) hs = hs"
    using assms(2) by (induction hs) (auto simp: valid_utf8_def)
  then show ?thesis using assms(1) by (simp add: marshal_headers_def distinct_clearjunk_id rev_map [symmetric])
qed

text \<open>A message whose text survives JSON: what a producer in possession of valid UTF-8 writes.\<close>

definition storable :: "client_message \<Rightarrow> bool" where
  "storable msg \<longleftrightarrow>
     (case cm_headers msg of
        None \<Rightarrow> True
      | Some hs \<Rightarrow> distinct (map fst hs) \<and> list_all (\<lambda>(k, v). valid_utf8 k \<and> valid_utf8 v) hs)
     \<and> list_all valid_utf8 [t_key (cm_target msg), t_exchange (cm_target msg), t_routing_key (cm_target msg)]
     \<and> - (2 ^ 63) \<le> t_version (cm_target msg) \<and> t_version (cm_target msg) < 2 ^ 63"

text \<open>The message a dispatcher should see.\<close>

definition as_written :: "uuid \<Rightarrow> timestamptz \<Rightarrow> bytes \<Rightarrow> client_message \<Rightarrow> message" where
  "as_written i now pay msg =
     \<lparr>m_id = i, m_stream = cm_stream msg, m_topic = cm_topic msg, m_payload = pay,
      m_headers = (case cm_headers msg of None \<Rightarrow> [] | Some hs \<Rightarrow> hs), m_target = cm_target msg,
      m_attempts = 0, m_created_at = now\<rparr>"

lemma decode_marshal_target:
  assumes "storable msg"
  shows "decode_target (marshal_target (cm_target msg)) = Some (cm_target msg)"
  using assms by (simp add: storable_def marshal_target_def valid_utf8_def)

lemma scan_written_row:
  assumes "storable msg"
  shows "scan_message (insert_row now i (cm_stream msg) (cm_topic msg) pay
            (case cm_headers msg of None \<Rightarrow> JObj [] | Some hs \<Rightarrow> marshal_headers hs)
            (marshal_target (cm_target msg)) available) = Inr (as_written i now pay msg)"
  using assms decode_marshal_target [OF assms]
  by (auto simp: scan_message_def insert_row_def as_written_def storable_def decode_marshal_headers
      split: option.split)

lemma row_ok_insert_row [simp]: "row_ok (insert_row now i st tp pay hs tg available)"
  by (simp add: inv_defs insert_row_def max_int32_def)

lemma Claim_includes:
  assumes "table_ok t" and "Claim f go_now now locked stream limit lease t = (t', Inr ms)"
    and "length ms < limit" and "r \<in> set t" and "claim_due stream now locked r" and "scan_message r = Inr m"
  shows "m \<in> set ms"
proof -
  let ?ids = "due_ids stream limit now locked t"
  have "r_id r \<in> set ?ids"
    using claimed_ids(3) [OF assms(1,2)] assms(3-5) by (auto intro: due_ids_all)
  then have "r \<in> set (filter (id_in ?ids) t)" using assms(4) by (simp add: id_in_def)
  then obtain k where k: "k < length (filter (id_in ?ids) t)" "filter (id_in ?ids) t ! k = r"
    by (metis in_set_conv_nth)
  have "list_all2 (\<lambda>r m. scan_message r = Inr m) (filter (id_in ?ids) t) ms"
    using Claim_ok_cases(2) [OF assms(2)] by (simp add: scan_messages_Inr_iff)
  from list_all2_nthD [OF this k(1)] list_all2_lengthD [OF this] have "scan_message r = Inr (ms ! k)" "k < length ms"
    using k by simp_all
  then show ?thesis using assms(6) by auto
qed

text \<open>The row a successful \<open>Enqueue\<close> leaves.\<close>

lemma enqueued_row:
  assumes "client_Enqueue env f v7 now msg t = (t', None)" and "table_ok t" and "storable msg"
    and "cm_payload msg = Some pay" and bytea_faithful: "de_bytea env (Some pay) = Some pay"
  obtains s i r where "(if cm_id msg = [] then v7 else Inr (cm_id msg)) = Inr s" and "de_uuid env s = Inr i"
    and "t' = t @ [r]" and "table_ok t'" and "r_id r = i" and "r_attempts r = 0"
    and "scan_message r = Inr (as_written i now pay msg)"
    and "\<forall>later locked. (case cm_available_at msg of None \<Rightarrow> now | Some a \<Rightarrow> de_time env a) \<le> later \<longrightarrow>
        i \<notin> set locked \<longrightarrow> claim_due (cm_stream msg) later locked r"
proof -
  obtain s i where s: "(if cm_id msg = [] then v7 else Inr (cm_id msg)) = Inr s" "de_uuid env s = Inr i"
    and new: "i \<notin> r_id ` set t"
    and t': "t' = t @ [insert_row now i (cm_stream msg) (cm_topic msg) pay
            (case cm_headers msg of None \<Rightarrow> JObj [] | Some hs \<Rightarrow> marshal_headers hs)
            (marshal_target (cm_target msg)) (map_option (de_time env) (cm_available_at msg))]" (is "_ = t @ [?r]")
    using assms(1,4) bytea_faithful by (auto elim!: client_Enqueue_nil)
  have id: "r_id ?r = i" "r_attempts ?r = 0" by (simp_all add: insert_row_def)
  have ok: "table_ok t'" using assms(2) new t' by (simp add: table_ok_def id)
  have due: "\<forall>later locked. (case cm_available_at msg of None \<Rightarrow> now | Some a \<Rightarrow> de_time env a) \<le> later \<longrightarrow>
        i \<notin> set locked \<longrightarrow> claim_due (cm_stream msg) later locked ?r"
    by (cases "cm_available_at msg") (simp_all add: claim_due_def insert_row_def)
  show thesis by (rule that [OF s t' ok id scan_written_row [OF assms(3)] due])
qed

definition demo_driver :: db_env where
  "demo_driver = \<lparr>de_uuid = Inr, de_bytea = (\<lambda>p. p), de_time = (\<lambda>x. x div 1000), de_refuse = (\<lambda>_. None)\<rparr>"

definition demo_order :: client_message where
  "demo_order = \<lparr>cm_id = [], cm_stream = ''local'', cm_topic = ''orders'', cm_payload = Some ''x'',
     cm_headers = Some [(''k'', ''v'')], cm_target = zero_target\<lparr>t_key := ''k1'', t_version := 2\<rparr>,
     cm_available_at = None\<rparr>"

subsection \<open>Properties\<close>

text \<open>
  C28.  Enqueue and claim are a round trip.  When \<open>Enqueue\<close> returns nil for a message whose text is
  valid UTF-8, the table has one more row, still satisfying every constraint, and any later successful
  claim of the message's stream that is not full and comes after \<open>AvailableAt\<close> returns exactly what the
  producer wrote: stream, topic, payload byte for byte, headers and target, with no attempt spent.
\<close>

theorem enqueue_claim_roundtrip:
  assumes "client_Enqueue env f v7 now msg t = (t', None)" and "table_ok t" and "storable msg"
    and "cm_payload msg = Some pay" and bytea_faithful: "de_bytea env (Some pay) = Some pay"
  shows "\<exists>s i. (if cm_id msg = [] then v7 else Inr (cm_id msg)) = Inr s \<and> de_uuid env s = Inr i
    \<and> table_ok t' \<and> length t' = Suc (length t)
    \<and> (\<forall>f' go_now later locked limit lease t'' ms.
         Claim f' go_now later locked (cm_stream msg) limit lease t' = (t'', Inr ms) \<and> length ms < limit
         \<and> (case cm_available_at msg of None \<Rightarrow> now | Some a \<Rightarrow> de_time env a) \<le> later \<and> i \<notin> set locked
         \<longrightarrow> as_written i now pay msg \<in> set ms)"
proof -
  obtain s i r where s: "(if cm_id msg = [] then v7 else Inr (cm_id msg)) = Inr s" "de_uuid env s = Inr i"
    and t': "t' = t @ [r]" and ok: "table_ok t'" and "r_id r = i" "r_attempts r = 0" and scan: "scan_message r = Inr (as_written i now pay msg)"
    and due: "\<forall>later locked. (case cm_available_at msg of None \<Rightarrow> now | Some a \<Rightarrow> de_time env a) \<le> later \<longrightarrow>
        i \<notin> set locked \<longrightarrow> claim_due (cm_stream msg) later locked r"
    using assms by (rule enqueued_row)
  have "r \<in> set t'" by (simp add: t')
  with Claim_includes [OF ok _ _ this _ scan] due s ok t' show ?thesis by auto
qed

text \<open>A message with a generated identifier, headers and a target, enqueued into an empty table and claimed.\<close>

theorem enqueue_claim_roundtrip_witness:
  "\<exists>t' t'' ms. client_Enqueue demo_driver NoFault (Inr ''m1'') 1000 demo_order [] = (t', None) \<and> table_ok t'
     \<and> Claim NoFault 2000 2000 [] ''local'' 5 \<lparr>l_token = ''k'', l_owner = ''o'', l_until = 2010\<rparr> t' = (t'', Inr ms)
     \<and> as_written ''m1'' 1000 ''x'' demo_order \<in> set ms"
proof -
  let ?lease = "\<lparr>l_token = ''k'', l_owner = ''o'', l_until = 2010\<rparr>"
  obtain t' where e: "client_Enqueue demo_driver NoFault (Inr ''m1'') 1000 demo_order [] = (t', None)"
    by (simp add: client_Enqueue_def client_prepare_def demo_order_def demo_driver_def query_def exec_insert_def
      client_args_def insert_stmt_def Let_def)
  have st: "storable demo_order" by code_simp
  have p: "cm_payload demo_order = Some ''x''" "de_bytea demo_driver (Some ''x'') = Some ''x''"
    by (simp_all add: demo_order_def demo_driver_def)
  note rt = enqueue_claim_roundtrip [OF e _ st p]
  have r: "t' = [insert_row 1000 ''m1'' ''local'' ''orders'' ''x'' (marshal_headers [(''k'', ''v'')])
      (marshal_target (cm_target demo_order)) None]"
    using e by (auto simp: demo_order_def demo_driver_def elim!: client_Enqueue_nil)
  let ?r = "hd t'"
  have "scan_message ?r = Inr (as_written ''m1'' 1000 ''x'' demo_order)"
    using scan_written_row [OF st, of 1000 "''m1''" "''x''" None] r by (simp add: demo_order_def)
  moreover have "claim_due ''local'' 2000 [] ?r" by (simp add: r claim_due_def insert_row_def)
  moreover have "t' = [?r]" by (simp add: r)
  ultimately obtain t'' ms where c: "Claim NoFault 2000 2000 [] ''local'' 5 ?lease t' = (t'', Inr ms)" "length ms < 5"
    by (cases t') (simp_all add: Claim_def Let_def query_def claim_stmt_def returning_def due_ids_def id_in_def)
  have "table_ok t'" and "as_written ''m1'' 1000 ''x'' demo_order \<in> set ms"
    using rt c
    by (simp_all add: table_ok_def demo_order_def demo_driver_def)
      (auto dest!: spec [of _ NoFault] spec [of _ "2000 :: int"] spec [of _ "[] :: uuid list"])
  with e c show ?thesis by blast
qed

text \<open>
  C29.  The two clients agree.  They accept the same tables, and \<open>Enqueue\<close> is the same function in
  both packages.  \<open>EnqueueBatch\<close> either does the same to the transaction in both, or fails in both:
  preparing every message first, as the pgx client does, changes which rows a failed transaction holds,
  never which batches succeed.
\<close>

theorem clients_agree:
  "sql_New schema tab = client_New schema tab
   \<and> sql_Enqueue env f v7 now msg t = client_Enqueue env f v7 now msg t
   \<and> (sql_EnqueueBatch env fs v7s now msgs t = client_EnqueueBatch env fs v7s now msgs t
      \<or> (\<exists>e e'. snd (sql_EnqueueBatch env fs v7s now msgs t) = Some e
             \<and> snd (client_EnqueueBatch env fs v7s now msgs t) = Some e'))"
proof (cases "prepare_all v7s 0 msgs")
  case (Inl e)
  then have "msgs \<noteq> []" by auto
  with batch_loop_unprepared [OF Inl, of env fs now "length msgs" t] Inl show ?thesis
    by (simp add: sql_New_client sql_Enqueue_client sql_EnqueueBatch_def client_EnqueueBatch_def)
next
  case (Inr as)
  with batch_loop_prepared [OF Inr, of env fs now "length msgs" t] show ?thesis
    by (auto simp: sql_New_client sql_Enqueue_client sql_EnqueueBatch_def client_EnqueueBatch_def)
qed

end
