(* ===== verification/App_Api.thy ===== *)
theory App_Api
  imports Store_Facts Store_Ops Config_Safety
begin

text \<open>
  The operational HTTP endpoints: \<open>internal/app/api.go\<close>, \<open>internal/app/http.go\<close> and the summaries of
  \<open>internal/app/ready.go\<close>.

  A request is what the handlers read of it: method, path, query parameters, the \<open>Authorization\<close>
  header, and the two JSON documents as \<open>encoding/json\<close> decodes them (\<open>rq_after\<close>, absent when the
  parameter is empty, and \<open>rq_body\<close>).  A response is its status and what is encoded into its body.
  Paths are clean, so the redirects of \<open>ServeMux\<close> do not arise.
\<close>

subsection \<open>Requests and responses\<close>

record requeue_request =
  rr_ids :: "uuid list"
  rr_failed_before :: "timestamptz option"
  rr_limit :: int

record request =
  rq_method :: string
  rq_path :: string
  rq_query :: "(string \<times> string) list"
  rq_after :: "(err + cursor) option"
  rq_auth :: string
  rq_body :: "err + requeue_request"

record version_info =
  vi_version :: string
  vi_commit :: string
  vi_built :: string

record message_counts =
  mc_pending :: int
  mc_processing :: int
  mc_failed :: int
  mc_deferred :: int
  mc_oldest_pending_secs :: rat

record stream_info =
  si_name :: string
  si_driver :: string

record driver_info =
  di_name :: string
  di_type :: string
  di_endpoint :: string
  di_prefix :: string
  di_prefix_sep :: string
  di_version_sep :: string

record dispatch_settings =
  ds_batch_size :: int
  ds_workers :: int
  ds_poll_interval :: string
  ds_lease_ttl :: string
  ds_max_attempts :: int
  ds_max_defer :: string
  ds_notify_mode :: string

record stats_response =
  sr_version :: version_info
  sr_started_at :: go_time
  sr_uptime :: string
  sr_messages :: message_counts
  sr_streams :: "stream_info list"
  sr_drivers :: "driver_info list"
  sr_settings :: dispatch_settings

datatype body =
    ErrorBody string
  | StatusOk
  | StatusOkSince go_time
  | StatusUnavailable string
  | StatsBody stats_response
  | FailedBody "failed_message list" "cursor option"
  | RequeuedBody nat "uuid list"
  | Empty

record response =
  rs_status :: nat
  rs_body :: body

definition writeJSON :: "nat \<Rightarrow> body \<Rightarrow> response" where
  "writeJSON code b = \<lparr>rs_status = code, rs_body = b\<rparr>"

definition writeError :: "nat \<Rightarrow> string \<Rightarrow> response" where
  "writeError code text = writeJSON code (ErrorBody text)"

text \<open>
  The module: its configuration, whether the store is there, when it started, and the readiness probe
  (absent, or what it returns).  \<open>hm_redacted\<close> is what \<open>net/url\<close> makes of a DSN without its user info.
\<close>

record http_module =
  hm_cfg :: config
  hm_store :: bool
  hm_started :: go_time
  hm_version :: version_info
  hm_health :: "err option option"
  hm_redacted :: "string \<Rightarrow> string option"

record api_env =
  ev_fault :: fault
  ev_go_now :: go_time
  ev_now :: timestamptz

subsection \<open>Parameters and tokens\<close>

definition defaultPageSize :: int where
  "defaultPageSize = 50"

definition maxPageSize :: int where
  "maxPageSize = 500"

definition maxRequeueIDs :: int where
  "maxRequeueIDs = 10000"

definition query_get :: "request \<Rightarrow> string \<Rightarrow> string" where
  "query_get r name = (case map_of (rq_query r) name of None \<Rightarrow> [] | Some v \<Rightarrow> v)"

definition intParam :: "request \<Rightarrow> string \<Rightarrow> int \<Rightarrow> int \<Rightarrow> int" where
  "intParam r name dflt maximum =
     (let raw = query_get r name in
      if raw = [] then dflt
      else (case Atoi raw of Inl e \<Rightarrow> dflt | Inr v \<Rightarrow> if v < 1 then dflt else if v > maximum then maximum else v))"

definition cutBearer :: "string \<Rightarrow> string \<times> bool" where
  "cutBearer header =
     (let p = ''Bearer '' in
      if length header > length p \<and> take (length p) header = p then (drop (length p) header, True)
      else (header, False))"

definition requireToken ::
  "string \<Rightarrow> (request \<Rightarrow> table \<Rightarrow> table \<times> response) \<Rightarrow> request \<Rightarrow> table \<Rightarrow> table \<times> response" where
  "requireToken token next_handler r t =
     (if fst (cutBearer (rq_auth r)) \<noteq> token then (t, writeError 401 ''a valid admin token is required'')
      else next_handler r t)"

subsection \<open>Summaries of the configuration\<close>

definition redactDSN :: "(string \<Rightarrow> string option) \<Rightarrow> string \<Rightarrow> string" where
  "redactDSN redacted dsn = (case redacted dsn of None \<Rightarrow> ''unparseable'' | Some u \<Rightarrow> u)"

fun Endpoint :: "(string \<Rightarrow> string option) \<Rightarrow> driver_config \<Rightarrow> string" where
  "Endpoint redacted (RabbitMQDriver d) = redactDSN redacted (rd_dsn d)"
| "Endpoint redacted (KafkaDriver d) = join_with '','' (kd_brokers d)"
| "Endpoint redacted (PostgresDriver d) = redactDSN redacted (pd_dsn d) @ ''#'' @ pd_schema d @ ''.'' @ pd_table d"

definition stream_driver :: "broker_config \<Rightarrow> string \<Rightarrow> string" where
  "stream_driver cfg name = (case map_of (bc_streams cfg) name of None \<Rightarrow> [] | Some s \<Rightarrow> sc_driver s)"

definition streamsOf :: "broker_config \<Rightarrow> stream_info list" where
  "streamsOf cfg = map (\<lambda>name. \<lparr>si_name = name, si_driver = stream_driver cfg name\<rparr>) (StreamNames cfg)"

definition driver_info_of :: "(string \<Rightarrow> string option) \<Rightarrow> string \<times> driver_config \<Rightarrow> driver_info" where
  "driver_info_of redacted nd =
     (case nd of (name, d) \<Rightarrow>
        let naming = driver_naming d in
        \<lparr>di_name = name, di_type = driver_type_string (driver_type_of d), di_endpoint = Endpoint redacted d,
         di_prefix = n_prefix naming, di_prefix_sep = n_prefix_sep naming, di_version_sep = n_version_sep naming\<rparr>)"

text \<open>The names are the keys of a map, so sorting them sorts its entries.\<close>

definition driversOf :: "(string \<Rightarrow> string option) \<Rightarrow> broker_config \<Rightarrow> driver_info list" where
  "driversOf redacted cfg = map (driver_info_of redacted) (sort_key fst (bc_drivers cfg))"

definition settingsOf :: "config \<Rightarrow> dispatch_settings" where
  "settingsOf cfg =
     (let d = cfg_dispatch cfg in
      \<lparr>ds_batch_size = dc_batch_size d, ds_workers = dc_workers d,
       ds_poll_interval = duration_string (dc_poll_interval d), ds_lease_ttl = duration_string (dc_lease_ttl d),
       ds_max_attempts = dc_max_attempts d,
       ds_max_defer = (if dc_max_defer d > 0 then duration_string (dc_max_defer d) else ''unbounded''),
       ds_notify_mode = (if dc_notify_enabled d then ''listen/notify with polling as reconciliation''
          else ''polling only'')\<rparr>)"

definition deferWindow :: "duration \<Rightarrow> string" where
  "deferWindow d = (if d \<le> 0 then ''unbounded'' else duration_string d)"

definition streamSummary :: "broker_config \<Rightarrow> string" where
  "streamSummary cfg = join_with '','' (sort (map (\<lambda>name. name @ '':'' @ stream_driver cfg name) (StreamNames cfg)))"

subsection \<open>Handlers\<close>

definition not_available :: response where
  "not_available = writeError 503 ''the store is not available yet''"

definition handleHealth :: response where
  "handleHealth = writeJSON 200 StatusOk"

definition handleReady :: "http_module \<Rightarrow> response" where
  "handleReady m =
     (case hm_health m of
        None \<Rightarrow> writeJSON 200 StatusOk
      | Some (Some e) \<Rightarrow> writeJSON 503 (StatusUnavailable (err_text e))
      | Some None \<Rightarrow> writeJSON 200 (StatusOkSince (hm_started m)))"

text \<open>\<open>Truncate\<close> rounds towards zero.\<close>

definition truncate_seconds :: "duration \<Rightarrow> duration" where
  "truncate_seconds d = (if d < 0 then - (- d div second * second) else d div second * second)"

definition handleStats :: "http_module \<Rightarrow> api_env \<Rightarrow> table \<Rightarrow> response" where
  "handleStats m env t =
     (if \<not> hm_store m then not_available
      else
        (case Stats (ev_fault env) (ev_now env) t of
           Inl e \<Rightarrow> writeError 500 (''could not read message counts: '' @ err_text e)
         | Inr s \<Rightarrow>
            writeJSON 200 (StatsBody
              \<lparr>sr_version = hm_version m, sr_started_at = hm_started m,
               sr_uptime = duration_string (truncate_seconds (ev_go_now env - hm_started m)),
               sr_messages = \<lparr>mc_pending = st_pending s, mc_processing = st_processing s, mc_failed = st_failed s,
                 mc_deferred = st_deferred s, mc_oldest_pending_secs = of_int (st_oldest_pending s) / of_int second\<rparr>,
               sr_streams = streamsOf (cfg_brokers (hm_cfg m)),
               sr_drivers = driversOf (hm_redacted m) (cfg_brokers (hm_cfg m)),
               sr_settings = settingsOf (hm_cfg m)\<rparr>)))"

definition cursor_after :: "failed_message \<Rightarrow> cursor" where
  "cursor_after fm = \<lparr>c_created_at = fm_created_at fm, c_id = fm_id fm\<rparr>"

definition handleListFailed :: "http_module \<Rightarrow> api_env \<Rightarrow> request \<Rightarrow> table \<Rightarrow> response go" where
  "handleListFailed m env r t =
     (if \<not> hm_store m then Return not_available
      else
        (let limit = intParam r ''limit'' defaultPageSize maxPageSize in
         case (case rq_after r of None \<Rightarrow> Inr zero_cursor | Some decoded \<Rightarrow> decoded) of
           Inl e \<Rightarrow> Return (writeError 400 ''the after cursor is not valid JSON'')
         | Inr after \<Rightarrow>
            (case ListFailed (ev_fault env) after limit (query_get r ''stream'') t of
               Panic p \<Rightarrow> Panic p
             | Return (Inl e) \<Rightarrow> Return (writeError 500 (''could not list failed messages: '' @ err_text e))
             | Return (Inr messages) \<Rightarrow>
                 Return (writeJSON 200 (FailedBody messages
                   (if int (length messages) = limit then Some (cursor_after (last messages)) else None))))))"

definition handleRequeue :: "http_module \<Rightarrow> api_env \<Rightarrow> request \<Rightarrow> table \<Rightarrow> table \<times> response" where
  "handleRequeue m env r t =
     (if \<not> hm_store m then (t, not_available)
      else
        (case rq_body r of
           Inl e \<Rightarrow> (t, writeError 400 (''could not read the request body: '' @ err_text e))
         | Inr req \<Rightarrow>
            if rr_ids req \<noteq> [] \<and> rr_failed_before req \<noteq> None then
              (t, writeError 400 ''give either ids or failed_before, not both'')
            else if int (length (rr_ids req)) > maxRequeueIDs then
              (t, writeError 400 (''at most '' @ itoa maxRequeueIDs @ '' ids per request''))
            else
              (case (rr_ids req, rr_failed_before req) of
                 ([], None) \<Rightarrow> (t, writeError 400 ''give either ids or failed_before'')
               | (ids, before) \<Rightarrow>
                  (case (if ids \<noteq> [] then Requeue (ev_fault env) (ev_now env) ids t
                         else
                           (let limit = (if rr_limit req \<le> 0 \<or> rr_limit req > maxRequeueIDs then 1000 else rr_limit req) in
                            RequeueFailedBefore (ev_fault env) (ev_now env) (the before) limit t)) of
                     (t', Inl e) \<Rightarrow> (t', writeError 500 (''could not requeue: '' @ err_text e))
                   | (t', Inr requeued) \<Rightarrow> (t', writeJSON 200 (RequeuedBody (length requeued) requeued))))))"

subsection \<open>Routes\<close>

text \<open>
  \<open>ServeMux\<close>: a \<open>GET\<close> pattern also serves \<open>HEAD\<close>; a path known under another method gives 405, any
  other path 404.
\<close>

definition requeue_path :: string where
  "requeue_path = ''/api/v1/messages/requeue''"

definition serve_http :: "http_module \<Rightarrow> api_env \<Rightarrow> request \<Rightarrow> table \<Rightarrow> table \<times> response go" where
  "serve_http m env r t =
     (let get = rq_method r = ''GET'' \<or> rq_method r = ''HEAD'';
          not_allowed = (t, Return (writeJSON 405 Empty)) in
      if rq_path r = ''/health'' then (if get then (t, Return handleHealth) else not_allowed)
      else if rq_path r = ''/ready'' then (if get then (t, Return (handleReady m)) else not_allowed)
      else if rq_path r = ''/api/v1/stats'' then (if get then (t, Return (handleStats m env t)) else not_allowed)
      else if rq_path r = ''/api/v1/messages/failed'' then
        (if get then (t, handleListFailed m env r t) else not_allowed)
      else if rq_path r = requeue_path \<and> http_admin_token (cfg_http (hm_cfg m)) \<noteq> [] then
        (if rq_method r = ''POST'' then
           (case requireToken (http_admin_token (cfg_http (hm_cfg m))) (handleRequeue m env) r t of
              (t', rs) \<Rightarrow> (t', Return rs))
         else not_allowed)
      else (t, Return (writeJSON 404 Empty)))"

text \<open>A client that follows \<open>next\<close>: the messages of all pages, if every page arrives.\<close>

fun all_pages :: "nat \<Rightarrow> http_module \<Rightarrow> api_env \<Rightarrow> request \<Rightarrow> table \<Rightarrow> failed_message list option" where
  "all_pages 0 m env r t = None"
| "all_pages (Suc n) m env r t =
     (case handleListFailed m env r t of
        Return rs \<Rightarrow>
          (case rs_body rs of
             FailedBody ms None \<Rightarrow> Some ms
           | FailedBody ms (Some c) \<Rightarrow> map_option ((@) ms) (all_pages n m env (r\<lparr>rq_after := Some (Inr c)\<rparr>) t)
           | _ \<Rightarrow> None)
      | Panic p \<Rightarrow> None)"

subsection \<open>Lemmas\<close>

text \<open>A strictly sorted list, cut after an element by a filter on the key.\<close>

lemma filter_above_drop:
  fixes f :: "'a \<Rightarrow> 'b :: linorder"
  assumes "sorted_wrt (\<lambda>a b. f a < f b) xs" and "n < length xs"
  shows "filter (\<lambda>x. f (xs ! n) < f x) xs = drop (Suc n) xs"
  using assms
proof (induction xs arbitrary: n)
  case (Cons x xs)
  show ?case
  proof (cases n)
    case 0
    then show ?thesis using Cons.prems by (simp add: filter_id_conv)
  next
    case (Suc k)
    then have "k < length xs" using Cons.prems by simp
    then have "\<not> f (xs ! k) < f x" using Cons.prems by (auto dest: less_not_sym)
    with \<open>k < length xs\<close> show ?thesis using Suc Cons by simp
  qed
qed simp

lemma sorted_strict_key:
  fixes f :: "'a \<Rightarrow> 'b :: linorder"
  assumes "distinct (map f xs)"
  shows "sorted_wrt (\<lambda>a b. f a < f b) (sort_key f xs)"
proof -
  have "distinct (map f (sort_key f xs))" using assms by (simp add: distinct_map)
  moreover have "sorted (map f (sort_key f xs))" by simp
  ultimately have "sorted_wrt (<) (map f (sort_key f xs))" by (simp add: strict_sorted_iff)
  then show ?thesis by (simp add: sorted_wrt_map)
qed

text \<open>The rows a listing still has to show after a key.\<close>

definition remaining :: "timestamptz \<times> uuid \<Rightarrow> string \<Rightarrow> table \<Rightarrow> row list" where
  "remaining k stream t = sort_key creation_order (filter (list_failed_sel k stream) t)"

lemma remaining_next:
  assumes "table_ok t" and "n < length (remaining k stream t)"
  shows "remaining (creation_order (remaining k stream t ! n)) stream t = drop (Suc n) (remaining k stream t)"
proof -
  let ?R = "remaining k stream t" and ?sel = "list_failed_sel k stream"
  let ?k' = "creation_order (?R ! n)"
  have "?R ! n \<in> set ?R" using assms(2) by simp
  then have gt: "k < ?k'" by (simp add: remaining_def list_failed_sel_def)
  have d: "distinct (map creation_order (filter ?sel t))"
    using assms(1) by (auto simp: table_ok_def distinct_map inj_on_def creation_order_def)
  have "filter (list_failed_sel ?k' stream) t = filter (\<lambda>r. ?k' < creation_order r) (filter ?sel t)"
    using gt by (auto simp: list_failed_sel_def intro!: filter_cong dest: less_trans)
  then have "remaining ?k' stream t = filter (\<lambda>r. ?k' < creation_order r) ?R"
    by (simp add: remaining_def filter_sort)
  also have "\<dots> = drop (Suc n) ?R"
    using filter_above_drop [OF sorted_strict_key [OF d], of n] assms(2) by (simp add: remaining_def)
  finally show ?thesis .
qed

lemma intParam_bounds: "1 \<le> dflt \<Longrightarrow> dflt \<le> maximum \<Longrightarrow> 1 \<le> intParam r name dflt maximum \<and> intParam r name dflt maximum \<le> maximum"
  by (auto simp: intParam_def Let_def split: sum.split)

lemma page_size: "1 \<le> intParam r ''limit'' defaultPageSize maxPageSize"
  "intParam r ''limit'' defaultPageSize maxPageSize \<le> maxPageSize"
  using intParam_bounds [of defaultPageSize maxPageSize] by (auto simp: defaultPageSize_def maxPageSize_def)

lemma intParam_after [simp]: "intParam (r\<lparr>rq_after := a\<rparr>) name d mx = intParam r name d mx"
  by (simp add: intParam_def query_get_def)

lemma query_get_after [simp]: "query_get (r\<lparr>rq_after := a\<rparr>) name = query_get r name"
  by (simp add: query_get_def)

text \<open>One page, in terms of the rows still to show.\<close>

lemma handleListFailed_page:
  assumes "hm_store m" and "ev_fault env = NoFault"
    and "(case rq_after r of None \<Rightarrow> Inr zero_cursor | Some decoded \<Rightarrow> decoded) = Inr after"
    and "n = nat (intParam r ''limit'' defaultPageSize maxPageSize)"
    and "R = remaining (cursor_key after) (query_get r ''stream'') t"
  shows "handleListFailed m env r t = Return (writeJSON 200 (FailedBody (map failed_message_of (take n R))
     (if n \<le> length R then Some (cursor_after (failed_message_of (R ! (n - 1)))) else None)))"
proof -
  let ?l = "intParam r ''limit'' defaultPageSize maxPageSize"
  have l: "\<not> ?l < 0" "0 < n" "int n = ?l" using page_size [of r] assms(4) by auto
  have "last (map failed_message_of (take n R)) = failed_message_of (R ! (n - 1))" if "n \<le> length R"
    using that l(2) by (cases "R = []") (simp_all add: last_conv_nth min_def)
  then show ?thesis
    using assms l
    by (auto simp: handleListFailed_def Let_def ListFailed_def query_def list_failed_stmt_def remaining_def min_def)
qed

lemma cursor_key_after:
  "r_id r \<noteq> [] \<Longrightarrow> cursor_key (cursor_after (failed_message_of r)) = creation_order r"
  by (simp add: cursor_key_def cursor_after_def failed_message_of_def creation_order_def)

lemma all_pages_remaining:
  assumes "table_ok t" and "\<forall>r \<in> set t. r_id r \<noteq> []" and "hm_store m" and "ev_fault env = NoFault"
    and "(case rq_after r of None \<Rightarrow> Inr zero_cursor | Some decoded \<Rightarrow> decoded) = Inr after"
    and "length (remaining (cursor_key after) (query_get r ''stream'') t) < fuel"
  shows "all_pages fuel m env r t
    = Some (map failed_message_of (remaining (cursor_key after) (query_get r ''stream'') t))"
  using assms(5,6)
proof (induction fuel arbitrary: r after)
  case (Suc fuel)
  define n where "n = nat (intParam r ''limit'' defaultPageSize maxPageSize)"
  define R where "R = remaining (cursor_key after) (query_get r ''stream'') t"
  have n: "0 < n" using page_size [of r] by (simp add: n_def)
  note page = handleListFailed_page [OF assms(3,4) Suc.prems(1) n_def R_def]
  show ?case
  proof (cases "n \<le> length R")
    case False
    then show ?thesis using page by (simp add: writeJSON_def R_def [symmetric])
  next
    case True
    let ?c = "cursor_after (failed_message_of (R ! (n - 1)))" and ?r = "R ! (n - 1)"
    have i: "n - 1 < length R" using True n by simp
    then have "?r \<in> set R" by simp
    then have "r_id ?r \<noteq> []" using assms(2) by (auto simp: R_def remaining_def)
    then have rest: "remaining (cursor_key ?c) (query_get r ''stream'') t = drop n R"
      using remaining_next [OF assms(1), of "n - 1"] i n by (simp add: cursor_key_after R_def)
    have "all_pages fuel m env (r\<lparr>rq_after := Some (Inr ?c)\<rparr>) t = Some (map failed_message_of (drop n R))"
      using Suc.IH [of "r\<lparr>rq_after := Some (Inr ?c)\<rparr>" ?c] Suc.prems(2) rest n True
      by (simp add: R_def [symmetric])
    moreover have "map failed_message_of (take n R) @ map failed_message_of (drop n R) = map failed_message_of R"
      by (metis append_take_drop_id map_append)
    ultimately show ?thesis using page True by (simp add: writeJSON_def R_def [symmetric])
  qed
qed simp

text \<open>What the mutating endpoint does to the table.\<close>

definition requeue_effect :: "timestamptz \<Rightarrow> table \<Rightarrow> table \<Rightarrow> bool" where
  "requeue_effect now t t' \<longleftrightarrow>
     list_all2 (\<lambda>r r'. r' = r \<or> r_status r = StatusFailed \<and> r' = requeue_set now r) t t'"

lemma requeue_effect_refl [simp]: "requeue_effect now t t"
  by (simp add: requeue_effect_def list_all2_same)

lemma requeue_effect_update:
  assumes "\<And>r. r \<in> set t \<Longrightarrow> sel r \<Longrightarrow> r_status r = StatusFailed"
  shows "requeue_effect now t (update_where sel (requeue_set now) t)"
  using assms by (auto simp: requeue_effect_def update_where_def list_all2_map2 intro!: list_all2_refl list.rel_refl_strong)

lemma Requeue_effect: "requeue_effect now t (fst (Requeue f now ids t))"
  using requeue_effect_update [of t "requeue_sel ids" now]
  by (auto simp: Requeue_def collectIDs_def query_def requeue_stmt_def requeue_sel_def split: fault.split)

lemma RequeueFailedBefore_effect:
  assumes "table_ok t"
  shows "requeue_effect now t (fst (RequeueFailedBefore f now before limit t))"
proof -
  have "requeue_effect now t (update_where (id_in (failed_before_ids before n t)) (requeue_set now) t)" for n
    using failed_before_idsD [OF assms] by (intro requeue_effect_update) (auto simp: id_in_def failed_before_def)
  then show ?thesis
    by (auto simp: RequeueFailedBefore_def collectIDs_def query_def requeue_before_stmt_def requeue_before_write_def Let_def split: fault.split)
qed

lemma handleRequeue_effect:
  assumes "table_ok t" and "handleRequeue m env r t = (t', rs)"
  shows "requeue_effect (ev_now env) t t' \<and> (t' = t \<or> rs_status rs = 200 \<or> rs_status rs = 500)"
proof -
  have "requeue_effect (ev_now env) t t1" if "Requeue (ev_fault env) (ev_now env) ids t = (t1, x)" for ids t1 x
    using Requeue_effect [of "ev_now env" t "ev_fault env" ids] that by simp
  moreover have "requeue_effect (ev_now env) t t1"
    if "RequeueFailedBefore (ev_fault env) (ev_now env) before limit t = (t1, x)" for before limit t1 x
    using RequeueFailedBefore_effect [OF assms(1), of "ev_now env" "ev_fault env" before limit] that by simp
  ultimately show ?thesis
    using assms(2)
    by (simp add: handleRequeue_def Let_def writeError_def writeJSON_def not_available_def
        split: if_splits sum.splits list.splits option.splits prod.splits) auto
qed

lemma handleListFailed_returns: "\<exists>rs. handleListFailed m env r t = Return rs"
  using page_size [of r]
  by (auto simp: handleListFailed_def Let_def ListFailed_def query_def split: sum.splits option.splits fault.splits)

text \<open>A module that is up, with a token, and a table with two failures, for the witnesses.\<close>

definition failed_row :: "uuid \<Rightarrow> timestamptz \<Rightarrow> row" where
  "failed_row i created =
     (insert_row created i ''local'' ''orders'' ''x'' (JObj []) (JObj []) None)\<lparr>r_status := StatusFailed, r_attempts := 3\<rparr>"

definition demo_failures :: table where
  "demo_failures = [failed_row ''b'' 1000, failed_row ''a'' 1000]"

definition list_request :: request where
  "list_request = \<lparr>rq_method = ''GET'', rq_path = ''/api/v1/messages/failed'', rq_query = [(''limit'', ''1'')],
     rq_after = None, rq_auth = [], rq_body = Inl IoEOF\<rparr>"

definition requeue_one :: request where
  "requeue_one = \<lparr>rq_method = ''POST'', rq_path = requeue_path, rq_query = [], rq_after = None,
     rq_auth = ''Bearer secret'', rq_body = Inr \<lparr>rr_ids = [''a''], rr_failed_before = None, rr_limit = 0\<rparr>\<rparr>"

definition demo_module :: http_module where
  "demo_module = \<lparr>hm_cfg = demo_settings\<lparr>cfg_http := (cfg_http demo_settings)\<lparr>http_admin_token := ''secret''\<rparr>\<rparr>,
     hm_store = True, hm_started = 0, hm_version = \<lparr>vi_version = ''v1'', vi_commit = [], vi_built = []\<rparr>,
     hm_health = None, hm_redacted = (\<lambda>_. None)\<rparr>"

definition demo_call :: api_env where
  "demo_call = \<lparr>ev_fault = NoFault, ev_go_now = 0, ev_now = 5000\<rparr>"

lemma demo_failures_ok: "table_ok demo_failures"
  by (simp add: table_ok_def demo_failures_def failed_row_def insert_row_def inv_defs max_int32_def)

lemma serve_http_returns: "serve_http m env r t = (t', answer) \<Longrightarrow> \<exists>rs. answer = Return rs"
proof -
  assume "serve_http m env r t = (t', answer)"
  moreover obtain page where "handleListFailed m env r t = Return page" using handleListFailed_returns by blast
  ultimately show ?thesis unfolding serve_http_def Let_def by (simp split: if_splits prod.splits) (metis | blast)+
qed

lemma serve_http_changes:
  assumes "serve_http m env r t = (t', answer)" and "t' \<noteq> t"
  shows "\<exists>rs. answer = Return rs \<and> handleRequeue m env r t = (t', rs) \<and> rq_method r = ''POST'' \<and> rq_path r = requeue_path
    \<and> http_admin_token (cfg_http (hm_cfg m)) \<noteq> [] \<and> fst (cutBearer (rq_auth r)) = http_admin_token (cfg_http (hm_cfg m))"
proof -
  let ?token = "http_admin_token (cfg_http (hm_cfg m))"
  from assms obtain rs where rs: "answer = Return rs" "requireToken ?token (handleRequeue m env) r t = (t', rs)"
    and req: "rq_method r = ''POST''" "rq_path r = requeue_path" "?token \<noteq> []"
    by (auto simp: serve_http_def Let_def split: if_splits prod.splits)
  then have "fst (cutBearer (rq_auth r)) = ?token" "handleRequeue m env r t = (t', rs)"
    using assms(2) by (auto simp: requireToken_def split: if_splits)
  then show ?thesis using rs(1) req by blast
qed

lemma serve_http_effect:
  assumes "table_ok t" and "serve_http m env r t = (t', answer)"
  shows "requeue_effect (ev_now env) t t'"
proof (cases "t' = t")
  case False
  then show ?thesis using serve_http_changes [OF assms(2)] handleRequeue_effect [OF assms(1)] by blast
qed simp

text \<open>What an operator does to the table is a requeue by identifiers.\<close>

lemma requeue_effect_history:
  assumes "table_ok t" and "requeue_effect now t t'"
  shows "\<exists>ids. t' = exec (SRequeue ids now) t"
proof -
  let ?changed = "\<lambda>p. snd p \<noteq> fst p"
  let ?ids = "map (r_id \<circ> fst) (filter ?changed (zip t t'))"
  have len: "length t' = length t" using assms(2) by (auto simp: requeue_effect_def dest: list_all2_lengthD)
  have "t' ! i = (if requeue_sel ?ids (t ! i) then requeue_set now (t ! i) else t ! i)" if i: "i < length t" for i
  proof (cases "t' ! i = t ! i")
    case True
    have "r_id (t ! i) \<notin> set ?ids"
    proof
      assume "r_id (t ! i) \<in> set ?ids"
      then obtain k where k: "k < length t" "r_id (t ! k) = r_id (t ! i)" "t' ! k \<noteq> t ! k" using len by (auto simp: set_zip)
      then have "k = i" using assms(1) i by (auto simp: table_ok_def distinct_conv_nth)
      then show False using k(3) True by simp
    qed
    then show ?thesis using True by (simp add: requeue_sel_def)
  next
    case False
    then have "r_status (t ! i) = StatusFailed" "t' ! i = requeue_set now (t ! i)"
      using assms(2) i len by (auto simp: requeue_effect_def list_all2_conv_all_nth)
    moreover have "r_id (t ! i) \<in> set ?ids" using False i len by (force simp: set_zip)
    ultimately show ?thesis by (simp add: requeue_sel_def)
  qed
  then have "t' = exec (SRequeue ?ids now) t" using len by (auto simp: requeue_stmt_def update_where_def Let_def intro: nth_equalityI)
  then show ?thesis by blast
qed

subsection \<open>Properties\<close>

text \<open>
  C34.  Paging through the failed messages is complete.  A client that starts without a cursor and
  follows \<open>next\<close> with whatever page size needs at most one request more than there are rows, and has
  then seen every failed message of the stream (of all streams when none is named) exactly once, in
  \<open>(created_at, id)\<close> order.  Rows are assumed to be younger than the zero time.
\<close>

theorem failed_listing_is_complete:
  assumes "table_ok t" and "list_all (\<lambda>r. r_id r \<noteq> [] \<and> cursor_key zero_cursor < creation_order r) t"
    and "hm_store m" and "ev_fault env = NoFault" and "rq_after r = None"
  shows "all_pages (Suc (length t)) m env r t = Some (map failed_message_of (sort_key creation_order
    (filter (\<lambda>x. r_status x = StatusFailed \<and> (query_get r ''stream'' = [] \<or> r_stream x = query_get r ''stream'')) t)))"
proof -
  let ?stream = "query_get r ''stream''"
  have R: "remaining (cursor_key zero_cursor) ?stream t = sort_key creation_order
      (filter (\<lambda>x. r_status x = StatusFailed \<and> (?stream = [] \<or> r_stream x = ?stream)) t)"
    using assms(2) by (auto simp: remaining_def list_failed_sel_def list_all_iff intro!: arg_cong [where f = "sort_key creation_order"] filter_cong)
  have "length (remaining (cursor_key zero_cursor) ?stream t) < Suc (length t)"
    by (simp add: remaining_def less_Suc_eq_le)
  moreover have "\<forall>r \<in> set t. r_id r \<noteq> []" using assms(2) by (simp add: list_all_iff)
  moreover have "(case rq_after r of None \<Rightarrow> Inr zero_cursor | Some decoded \<Rightarrow> decoded) = Inr zero_cursor"
    using assms(5) by simp
  ultimately show ?thesis using all_pages_remaining [OF assms(1) _ assms(3,4), of r zero_cursor] unfolding R by blast
qed

text \<open>Two failures created in the same microsecond, read in pages of one.\<close>

theorem failed_listing_is_complete_witness:
  "all_pages 3 demo_module demo_call list_request demo_failures
     = Some (map failed_message_of [failed_row ''a'' 1000, failed_row ''b'' 1000])"
proof -
  have "list_all (\<lambda>r. r_id r \<noteq> [] \<and> cursor_key zero_cursor < creation_order r) demo_failures"
    by (simp add: demo_failures_def failed_row_def insert_row_def cursor_key_def zero_cursor_def creation_order_def)
  from failed_listing_is_complete [OF demo_failures_ok this, of demo_module demo_call list_request]
  show ?thesis
    by (simp add: demo_module_def demo_call_def list_request_def query_get_def demo_failures_def failed_row_def
        insert_row_def creation_order_def numeral_3_eq_3)
qed

text \<open>
  C35.  Only the holder of the admin token changes rows.  Whatever request arrives, no handler panics;
  if the table is different afterwards, the request was a \<open>POST\<close> to the requeue endpoint, a token is
  configured and the request carried it, and the change is that some failed rows are pending again with
  their attempts reset and due at once.  A request that is refused changes nothing.
\<close>

theorem only_token_holder_changes_rows:
  assumes "table_ok t" and "serve_http m env r t = (t', answer)"
  shows "(\<exists>rs. answer = Return rs \<and> (t' = t \<or> rs_status rs = 200 \<or> rs_status rs = 500))
    \<and> requeue_effect (ev_now env) t t'
    \<and> (t' \<noteq> t \<longrightarrow> rq_method r = ''POST'' \<and> rq_path r = requeue_path
         \<and> http_admin_token (cfg_http (hm_cfg m)) \<noteq> []
         \<and> fst (cutBearer (rq_auth r)) = http_admin_token (cfg_http (hm_cfg m)))"
proof (cases "t' = t")
  case True
  then show ?thesis using serve_http_returns [OF assms(2)] by auto
next
  case False
  then show ?thesis using serve_http_changes [OF assms(2)] handleRequeue_effect [OF assms(1)] by fastforce
qed

text \<open>A request with the token that requeues one of the two failures.\<close>

theorem only_token_holder_changes_rows_witness:
  "\<exists>t'. serve_http demo_module demo_call requeue_one demo_failures
      = (t', Return (writeJSON 200 (RequeuedBody 1 [''a'']))) \<and> t' \<noteq> demo_failures \<and> requeue_effect 5000 demo_failures t'"
proof -
  let ?t = "[failed_row ''b'' 1000, requeue_set 5000 (failed_row ''a'' 1000)]"
  have s: "serve_http demo_module demo_call requeue_one demo_failures
      = (?t, Return (writeJSON 200 (RequeuedBody 1 [''a''])))"
    by (simp add: serve_http_def Let_def requeue_one_def requeue_path_def demo_module_def demo_call_def requireToken_def
      cutBearer_def handleRequeue_def maxRequeueIDs_def Requeue_def collectIDs_def query_def requeue_stmt_def
      update_where_def requeue_sel_def demo_failures_def failed_row_def insert_row_def)
  have "?t \<noteq> demo_failures" by (simp add: demo_failures_def failed_row_def insert_row_def requeue_set_def)
  moreover have "requeue_effect 5000 demo_failures ?t"
    using only_token_holder_changes_rows [OF demo_failures_ok s] by (simp add: demo_call_def)
  ultimately show ?thesis using s by blast
qed

end
