(* ===== verification/Observability_Metrics.thy ===== *)
theory Observability_Metrics
  imports Dispatch_Run Dispatch_Janitor Dispatch_DeadLetter
begin

text \<open>
  \<open>internal/observability\<close>: the metric set (\<open>metrics.go\<close>) and what each event does to it (\<open>observer.go\<close>).

  A vector is a map from label values to a series, absent until \<open>WithLabelValues\<close> first names it; a
  counter or gauge has a number, a histogram the values observed.  Numbers are rationals, for
  \<open>float64\<close>; the help texts are left out.
  Subscriptions are synchronous, so events are handled one after the other.
\<close>

subsection \<open>Vectors\<close>

type_synonym labels = "string list"
type_synonym vec = "labels \<rightharpoonup> rat"
type_synonym histogram = "labels \<rightharpoonup> rat list"

definition with_labels :: "'a \<Rightarrow> labels \<Rightarrow> (labels \<rightharpoonup> 'a) \<Rightarrow> (labels \<rightharpoonup> 'a)" where
  "with_labels new l v = (case v l of None \<Rightarrow> v(l \<mapsto> new) | Some _ \<Rightarrow> v)"

definition vec_add :: "labels \<Rightarrow> rat \<Rightarrow> vec \<Rightarrow> vec" where
  "vec_add l x v = v(l \<mapsto> (case v l of None \<Rightarrow> x | Some y \<Rightarrow> y + x))"

definition vec_set :: "labels \<Rightarrow> rat \<Rightarrow> vec \<Rightarrow> vec" where
  "vec_set l x v = v(l \<mapsto> x)"

definition vec_observe :: "labels \<Rightarrow> rat \<Rightarrow> histogram \<Rightarrow> histogram" where
  "vec_observe l x v = v(l \<mapsto> (case v l of None \<Rightarrow> [x] | Some xs \<Rightarrow> xs @ [x]))"

definition Seconds :: "duration \<Rightarrow> rat" where
  "Seconds d = of_int d / of_int second"

subsection \<open>The metric set\<close>

definition UnknownLabel :: string where
  "UnknownLabel = ''__unknown__''"

abbreviation (input) AttemptInitial :: string where "AttemptInitial \<equiv> ''initial''"
abbreviation (input) AttemptRetry :: string where "AttemptRetry \<equiv> ''retry''"
abbreviation (input) ResultSuccess :: string where "ResultSuccess \<equiv> ''success''"
abbreviation (input) ResultError :: string where "ResultError \<equiv> ''error''"
abbreviation (input) ReasonPermanent :: string where "ReasonPermanent \<equiv> ''permanent''"
abbreviation (input) ReasonExhausted :: string where "ReasonExhausted \<equiv> ''attempts_exhausted''"
abbreviation (input) ReasonUnreachable :: string where "ReasonUnreachable \<equiv> ''unreachable''"
abbreviation (input) KindPermanent :: string where "KindPermanent \<equiv> ''permanent''"
abbreviation (input) KindRetryable :: string where "KindRetryable \<equiv> ''retryable''"
abbreviation (input) KindUnavailable :: string where "KindUnavailable \<equiv> ''unavailable''"

record metrics =
  knownStreams :: "string list"
  knownDrivers :: "string list"
  MessagesClaimed :: vec
  MessagesDispatched :: vec
  MessagesRetried :: vec
  MessagesFailed :: vec
  MessagesReclaimed :: vec
  MessagesDeferred :: vec
  LeaseConflicts :: vec
  DLQPublished :: vec
  PublishDuration :: histogram
  IterationDuration :: histogram
  BatchSize :: histogram
  DeliveryLag :: histogram
  ReclaimedAge :: histogram
  OldestPendingAge :: rat
  MessagesByStatus :: vec
  StreamPaused :: vec
  MessagesDeferredNow :: rat
  BrokerErrors :: vec
  DBErrors :: vec
  RetentionDeleted :: rat
  PartitionsDropped :: rat
  DefaultPartitionRows :: rat

text \<open>The gauge snapshot taken by the janitor.\<close>

record status_counts =
  sc_pending :: int
  sc_processing :: int
  sc_failed :: int
  sc_deferred :: int
  sc_oldest_pending :: duration

definition metrics_Stream :: "metrics \<Rightarrow> string \<Rightarrow> string" where
  "metrics_Stream m name = (if name \<in> set (knownStreams m) then name else UnknownLabel)"

definition metrics_Driver :: "metrics \<Rightarrow> string \<Rightarrow> string" where
  "metrics_Driver m name = (if name \<in> set (knownDrivers m) then name else UnknownLabel)"

definition ErrorKind :: "bool \<Rightarrow> bool \<Rightarrow> string" where
  "ErrorKind permanent deferred =
     (if permanent then KindPermanent else if deferred then KindUnavailable else KindRetryable)"

definition Attempt :: "int \<Rightarrow> string" where
  "Attempt attempts = (if attempts > 0 then AttemptRetry else AttemptInitial)"

definition driverNames :: "broker_config \<Rightarrow> string list" where
  "driverNames cfg = sort (map fst (bc_drivers cfg))"

definition create_all :: "labels list \<Rightarrow> vec \<Rightarrow> vec" where
  "create_all ls v = fold (with_labels 0) ls v"

definition preCreate :: "metrics \<Rightarrow> metrics" where
  "preCreate m =
     (let streams = map (\<lambda>s. [s]) (knownStreams m);
          pairs = concat (map (\<lambda>s. map (\<lambda>d. [s, d]) (knownDrivers m)) (knownStreams m));
          each = (\<lambda>values. concat (map (\<lambda>l. map (\<lambda>x. l @ [x]) values) pairs)) in
      m\<lparr>MessagesReclaimed := create_all streams (MessagesReclaimed m),
        LeaseConflicts := create_all streams (LeaseConflicts m),
        StreamPaused := create_all streams (StreamPaused m),
        MessagesDispatched := create_all pairs (MessagesDispatched m),
        MessagesRetried := create_all pairs (MessagesRetried m),
        MessagesDeferred := create_all pairs (MessagesDeferred m),
        MessagesClaimed := create_all (each [AttemptInitial, AttemptRetry]) (MessagesClaimed m),
        MessagesFailed := create_all (each [ReasonPermanent, ReasonExhausted, ReasonUnreachable]) (MessagesFailed m),
        MessagesByStatus := create_all [[''pending''], [''processing''], [''failed'']] (MessagesByStatus m)\<rparr>)"

definition empty_metrics :: "broker_config \<Rightarrow> metrics" where
  "empty_metrics cfg =
     \<lparr>knownStreams = StreamNames cfg, knownDrivers = driverNames cfg,
      MessagesClaimed = Map.empty, MessagesDispatched = Map.empty, MessagesRetried = Map.empty,
      MessagesFailed = Map.empty, MessagesReclaimed = Map.empty, MessagesDeferred = Map.empty,
      LeaseConflicts = Map.empty, DLQPublished = Map.empty, PublishDuration = Map.empty,
      IterationDuration = Map.empty, BatchSize = Map.empty, DeliveryLag = Map.empty, ReclaimedAge = Map.empty,
      OldestPendingAge = 0, MessagesByStatus = Map.empty, StreamPaused = Map.empty, MessagesDeferredNow = 0,
      BrokerErrors = Map.empty, DBErrors = Map.empty, RetentionDeleted = 0, PartitionsDropped = 0,
      DefaultPartitionRows = 0\<rparr>"

text \<open>
  What \<open>New\<close> declares of each instrument: its kind, its name within the namespace, its label names and the
  upper bounds of its buckets.  \<open>MustRegister\<close> panics when a name is already taken on the registry.
\<close>

datatype instrument_kind = Counter | Gauge | Histogram "rat list"

definition lagBuckets :: "rat list" where
  "lagBuckets = [1/10, 1/2, 1, 5, 15, 30, 60, 120, 300, 600, 1800, 3600, 7200, 14400]"

definition DefBuckets :: "rat list" where
  "DefBuckets = [5/1000, 1/100, 25/1000, 5/100, 1/10, 1/4, 1/2, 1, 5/2, 5, 10]"

definition instruments :: "(string \<times> instrument_kind \<times> string list) list" where
  "instruments =
     [(''messages_claimed_total'', Counter, [''stream'', ''driver'', ''attempt'']),
      (''messages_dispatched_total'', Counter, [''stream'', ''driver'']),
      (''messages_retried_total'', Counter, [''stream'', ''driver'']),
      (''messages_failed_total'', Counter, [''stream'', ''driver'', ''reason'']),
      (''messages_reclaimed_total'', Counter, [''stream'']),
      (''messages_deferred_total'', Counter, [''stream'', ''driver'']),
      (''lease_conflicts_total'', Counter, [''stream'']),
      (''dlq_published_total'', Counter, [''stream'', ''result'']),
      (''broker_errors_total'', Counter, [''stream'', ''driver'', ''stage'', ''kind'']),
      (''db_errors_total'', Counter, [''op'']),
      (''publish_duration_seconds'',
        Histogram [1/1000, 5/1000, 1/100, 25/1000, 5/100, 1/10, 1/4, 1/2, 1, 5/2, 5, 10, 30], [''stream'', ''driver'', ''result'']),
      (''iteration_duration_seconds'', Histogram DefBuckets, [''stream'']),
      (''batch_size'', Histogram [0, 1, 5, 10, 25, 50, 100, 200, 500, 1000], [''stream'']),
      (''delivery_lag_seconds'', Histogram lagBuckets, [''stream'', ''driver'']),
      (''reclaimed_processing_age_seconds'', Histogram lagBuckets, [''stream'']),
      (''oldest_pending_age_seconds'', Gauge, []),
      (''messages_by_status'', Gauge, [''status'']),
      (''messages_deferred'', Gauge, []),
      (''stream_paused'', Gauge, [''stream'']),
      (''retention_deleted_total'', Counter, []),
      (''partitions_dropped_total'', Counter, []),
      (''default_partition_rows'', Gauge, [])]"

definition MustRegister :: "string list \<Rightarrow> string list go" where
  "MustRegister reg =
     (let names = map (\<lambda>(n, _, _). ''outbox_'' @ n) instruments in
      if distinct names \<and> list_all (\<lambda>n. n \<notin> set reg) names then Return (reg @ names)
      else Panic ''duplicate metrics collector registration attempted'')"

lemma instrument_names_distinct: "distinct (map fst instruments)"
  by (simp add: instruments_def)

lemma MustRegister_fresh: "\<exists>reg. MustRegister [] = Return reg \<and> length reg = 22"
  by (simp add: MustRegister_def instruments_def)

lemma MustRegister_twice:
  assumes "MustRegister reg = Return reg'"
  shows "\<exists>s. MustRegister reg' = Panic s"
proof -
  have "''outbox_batch_size'' \<in> set reg'"
    using assms by (auto simp: MustRegister_def Let_def instruments_def split: if_splits)
  then have "\<not> list_all (\<lambda>n. n \<notin> set reg') (map (\<lambda>(n, _, _). ''outbox_'' @ n) instruments)"
    by (simp add: instruments_def)
  then show ?thesis by (simp add: MustRegister_def Let_def)
qed

definition metrics_New :: "broker_config \<Rightarrow> metrics" where
  "metrics_New cfg = preCreate (empty_metrics cfg)"

definition observability_New :: "string list \<Rightarrow> broker_config \<Rightarrow> (string list \<times> metrics) go" where
  "observability_New reg cfg =
     (case MustRegister reg of Return reg' \<Rightarrow> Return (reg', metrics_New cfg) | Panic s \<Rightarrow> Panic s)"

subsection \<open>The observers\<close>

definition publish_result_label :: "publish_event \<Rightarrow> string" where
  "publish_result_label pub = (if ev_err pub = None then ResultSuccess else ResultError)"

definition failure_reason :: "terminal \<Rightarrow> string" where
  "failure_reason f =
     (if tm_permanent f then ReasonPermanent else if tm_deferred f then ReasonUnreachable else ReasonExhausted)"

definition onIteration :: "iteration \<Rightarrow> metrics \<Rightarrow> metrics" where
  "onIteration ev m =
     (let stream = metrics_Stream m (it_stream ev); driver = metrics_Driver m (it_driver ev);
          initial = it_claimed ev - it_retries ev in
      m\<lparr>BatchSize := vec_observe [stream] (of_int (it_claimed ev)) (BatchSize m),
        IterationDuration := vec_observe [stream] (Seconds (it_duration ev)) (IterationDuration m),
        MessagesClaimed :=
          (if it_retries ev > 0 then vec_add [stream, driver, AttemptRetry] (of_int (it_retries ev)) else id)
            ((if initial > 0 then vec_add [stream, driver, AttemptInitial] (of_int initial) else id) (MessagesClaimed m)),
        BrokerErrors :=
          fold (\<lambda>pub. if ev_err pub = None then id
                  else vec_add [stream, driver, ''publish'', ErrorKind (ev_permanent pub) (ev_deferred pub)] 1)
            (it_publishes ev) (BrokerErrors m),
        PublishDuration :=
          fold (\<lambda>pub. vec_observe [stream, driver, publish_result_label pub] (Seconds (ev_duration pub)))
            (it_publishes ev) (PublishDuration m),
        MessagesDispatched := fold (\<lambda>d. vec_add [stream, driver] 1) (it_delivered ev) (MessagesDispatched m),
        DeliveryLag := fold (\<lambda>d. vec_observe [stream, driver] (Seconds (dl_lag d))) (it_delivered ev) (DeliveryLag m),
        MessagesRetried :=
          (if it_requeued ev = [] then id else vec_add [stream, driver] (of_nat (length (it_requeued ev)))) (MessagesRetried m),
        MessagesDeferred :=
          (if it_deferred ev = [] then id else vec_add [stream, driver] (of_nat (length (it_deferred ev)))) (MessagesDeferred m),
        MessagesFailed := fold (\<lambda>f. vec_add [stream, driver, failure_reason f] 1) (it_failed ev) (MessagesFailed m),
        LeaseConflicts :=
          (if it_conflicts ev > 0 then vec_add [stream] (of_int (it_conflicts ev)) else id) (LeaseConflicts m)\<rparr>)"

definition onReclaimed :: "reclaimed_event \<Rightarrow> metrics \<Rightarrow> metrics" where
  "onReclaimed ev m =
     (let stream = metrics_Stream m (re_stream ev) in
      m\<lparr>MessagesReclaimed := vec_add [stream] 1 (MessagesReclaimed m),
        ReclaimedAge := vec_observe [stream] (Seconds (re_overdue ev)) (ReclaimedAge m)\<rparr>)"

definition ObserveStatusCounts :: "status_counts \<Rightarrow> metrics \<Rightarrow> metrics" where
  "ObserveStatusCounts c m =
     m\<lparr>MessagesByStatus := vec_set [''failed''] (of_int (sc_failed c))
         (vec_set [''processing''] (of_int (sc_processing c))
           (vec_set [''pending''] (of_int (sc_pending c)) (MessagesByStatus m))),
       MessagesDeferredNow := of_int (sc_deferred c), OldestPendingAge := Seconds (sc_oldest_pending c)\<rparr>"

definition onStats :: "stats_event \<Rightarrow> metrics \<Rightarrow> metrics" where
  "onStats ev m = ObserveStatusCounts \<lparr>sc_pending = se_pending ev, sc_processing = se_processing ev,
     sc_failed = se_failed ev, sc_deferred = se_deferred ev, sc_oldest_pending = se_oldest_pending ev\<rparr> m"

definition onPartitions :: "partitions_event \<Rightarrow> metrics \<Rightarrow> metrics" where
  "onPartitions ev m =
     m\<lparr>PartitionsDropped := PartitionsDropped m + of_nat (pe_dropped ev),
       DefaultPartitionRows := of_int (pe_default_rows ev)\<rparr>"

definition onRetention :: "retention_event \<Rightarrow> metrics \<Rightarrow> metrics" where
  "onRetention ev m = m\<lparr>RetentionDeleted := RetentionDeleted m + of_int (rt_deleted ev)\<rparr>"

definition onBreaker :: "breaker_event \<Rightarrow> metrics \<Rightarrow> metrics" where
  "onBreaker ev m =
     m\<lparr>StreamPaused := vec_set [metrics_Stream m (be_stream ev)] (if be_paused ev then 1 else 0) (StreamPaused m)\<rparr>"

definition onDeadLetter :: "dead_letter_event \<Rightarrow> metrics \<Rightarrow> metrics" where
  "onDeadLetter ev m =
     m\<lparr>DLQPublished := vec_add [metrics_Stream m (dle_stream ev),
         if dle_err ev = None then ResultSuccess else ResultError] 1 (DLQPublished m)\<rparr>"

datatype domain_event =
    Iterated iteration
  | Housekept janitor_event
  | Paused breaker_event
  | DeadLettered dead_letter_event

text \<open>\<open>Subscribe\<close> ties one handler to each topic.\<close>

fun on_event :: "domain_event \<Rightarrow> metrics \<Rightarrow> metrics" where
  "on_event (Iterated ev) m = onIteration ev m"
| "on_event (Housekept (EReclaimed ev)) m = onReclaimed ev m"
| "on_event (Housekept (EStats ev)) m = onStats ev m"
| "on_event (Housekept (ERetention ev)) m = onRetention ev m"
| "on_event (Housekept (EPartitions ev)) m = onPartitions ev m"
| "on_event (Paused ev) m = onBreaker ev m"
| "on_event (DeadLettered ev) m = onDeadLetter ev m"

subsection \<open>Labels\<close>

text \<open>The series of a vector have one value per label name, each satisfying that name's predicate.\<close>

definition vec_labels :: "(string \<Rightarrow> bool) list \<Rightarrow> (labels \<rightharpoonup> 'a) \<Rightarrow> bool" where
  "vec_labels Ps v \<longleftrightarrow> (\<forall>l \<in> dom v. list_all2 (\<lambda>P x. P x) Ps l)"

definition one_of :: "string list \<Rightarrow> string \<Rightarrow> bool" where
  "one_of xs x \<longleftrightarrow> x \<in> set xs"

definition labels_bounded :: "broker_config \<Rightarrow> metrics \<Rightarrow> bool" where
  "labels_bounded cfg m \<longleftrightarrow>
     (let S = one_of (UnknownLabel # StreamNames cfg); D = one_of (UnknownLabel # driverNames cfg);
          R = one_of [ResultSuccess, ResultError] in
      knownStreams m = StreamNames cfg \<and> knownDrivers m = driverNames cfg
      \<and> vec_labels [S, D, one_of [AttemptInitial, AttemptRetry]] (MessagesClaimed m)
      \<and> vec_labels [S, D] (MessagesDispatched m) \<and> vec_labels [S, D] (MessagesRetried m)
      \<and> vec_labels [S, D, one_of [ReasonPermanent, ReasonExhausted, ReasonUnreachable]] (MessagesFailed m)
      \<and> vec_labels [S] (MessagesReclaimed m) \<and> vec_labels [S, D] (MessagesDeferred m)
      \<and> vec_labels [S] (LeaseConflicts m) \<and> vec_labels [S, R] (DLQPublished m)
      \<and> vec_labels [S, D, R] (PublishDuration m) \<and> vec_labels [S] (IterationDuration m)
      \<and> vec_labels [S] (BatchSize m) \<and> vec_labels [S, D] (DeliveryLag m) \<and> vec_labels [S] (ReclaimedAge m)
      \<and> vec_labels [one_of [''pending'', ''processing'', ''failed'']] (MessagesByStatus m)
      \<and> vec_labels [S] (StreamPaused m)
      \<and> vec_labels [S, D, one_of [''publish''], one_of [KindPermanent, KindRetryable, KindUnavailable]] (BrokerErrors m)
      \<and> DBErrors m = Map.empty)"

lemma vec_labels_empty [simp]: "vec_labels Ps Map.empty"
  by (simp add: vec_labels_def)

lemma vec_labels_upd:
  "list_all2 (\<lambda>P x. P x) Ps l \<Longrightarrow> vec_labels Ps v \<Longrightarrow> vec_labels Ps (v(l \<mapsto> x))"
  by (auto simp: vec_labels_def)

lemma vec_labels_ops [intro]:
  assumes "list_all2 (\<lambda>P x. P x) Ps l"
  shows "vec_labels Ps v \<Longrightarrow> vec_labels Ps (vec_add l x v)" "vec_labels Ps v \<Longrightarrow> vec_labels Ps (vec_set l x v)"
    "vec_labels Ps h \<Longrightarrow> vec_labels Ps (vec_observe l x h)" "vec_labels Ps g \<Longrightarrow> vec_labels Ps (with_labels new l g)"
  using assms by (auto simp: vec_add_def vec_set_def vec_observe_def with_labels_def vec_labels_upd split: option.split)

lemma vec_labels_fold:
  assumes "vec_labels Ps v" and "\<And>x v. x \<in> set xs \<Longrightarrow> vec_labels Ps v \<Longrightarrow> vec_labels Ps (f x v)"
  shows "vec_labels Ps (fold f xs v)"
  using assms by (induction xs arbitrary: v) auto

lemma vec_labels_create:
  "vec_labels Ps v \<Longrightarrow> (\<And>l. l \<in> set ls \<Longrightarrow> list_all2 (\<lambda>P x. P x) Ps l) \<Longrightarrow> vec_labels Ps (create_all ls v)"
  unfolding create_all_def by (rule vec_labels_fold) auto

lemma bounded_new: "labels_bounded cfg (metrics_New cfg)"
  unfolding labels_bounded_def metrics_New_def preCreate_def Let_def
  by (simp add: empty_metrics_def) (auto intro!: vec_labels_create simp: one_of_def)

lemma bounded_names:
  assumes "labels_bounded cfg m"
  shows "one_of (UnknownLabel # StreamNames cfg) (metrics_Stream m name)"
    and "one_of (UnknownLabel # driverNames cfg) (metrics_Driver m name)"
  using assms by (auto simp: labels_bounded_def metrics_Stream_def metrics_Driver_def one_of_def Let_def)

lemma label_values [simp]:
  "one_of [ResultSuccess, ResultError] (publish_result_label pub)"
  "one_of [ReasonPermanent, ReasonExhausted, ReasonUnreachable] (failure_reason f)"
  "one_of [KindPermanent, KindRetryable, KindUnavailable] (ErrorKind perm def)"
  "one_of [AttemptInitial, AttemptRetry] AttemptInitial" "one_of [AttemptInitial, AttemptRetry] AttemptRetry"
  "one_of [''publish''] ''publish''"
  by (simp_all add: one_of_def publish_result_label_def failure_reason_def ErrorKind_def)

lemma bounded_iteration:
  assumes "labels_bounded cfg m"
  shows "labels_bounded cfg (onIteration ev m)"
proof -
  note b = assms [unfolded labels_bounded_def Let_def]
  show ?thesis
    unfolding labels_bounded_def onIteration_def Let_def
    by (intro conjI) (simp_all add: b vec_labels_ops vec_labels_fold bounded_names [OF assms])
qed

lemma bounded_event: "labels_bounded cfg m \<Longrightarrow> labels_bounded cfg (on_event e m)"
proof (induction e m rule: on_event.induct)
  case (2 ev m)
  then show ?case using bounded_names(1) [OF 2]
    by (auto simp: labels_bounded_def onReclaimed_def Let_def intro!: vec_labels_ops)
next
  case (3 ev m)
  then show ?case by (auto simp: labels_bounded_def onStats_def ObserveStatusCounts_def Let_def one_of_def intro!: vec_labels_ops)
next
  case (6 ev m)
  then show ?case using bounded_names(1) [OF 6]
    by (auto simp: labels_bounded_def onBreaker_def Let_def intro!: vec_labels_ops)
next
  case (7 ev m)
  then show ?case using bounded_names(1) [OF 7]
    by (auto simp: labels_bounded_def onDeadLetter_def Let_def one_of_def intro!: vec_labels_ops)
qed (simp_all add: bounded_iteration, auto simp: labels_bounded_def onRetention_def onPartitions_def Let_def)

subsection \<open>Totals\<close>

text \<open>The sum of a counter over all its series.\<close>

definition total_of :: "vec \<Rightarrow> rat" where
  "total_of v = (\<Sum>l \<in> dom v. the (v l))"

lemma total_of_empty [simp]: "total_of Map.empty = 0"
  by (simp add: total_of_def)

lemma total_of_upd: "finite (dom v) \<Longrightarrow> total_of (v(l \<mapsto> x)) = total_of v - (case v l of None \<Rightarrow> 0 | Some y \<Rightarrow> y) + x"
proof -
  assume fin: "finite (dom v)"
  have "(\<Sum>k \<in> dom v - {l}. the ((v(l \<mapsto> x)) k)) = (\<Sum>k \<in> dom v - {l}. the (v k))"
    by (rule sum.cong) auto
  then have "total_of (v(l \<mapsto> x)) = x + (\<Sum>k \<in> dom v - {l}. the (v k))"
    using fin by (simp add: total_of_def sum.insert_remove)
  moreover have "total_of v = (case v l of None \<Rightarrow> 0 | Some y \<Rightarrow> y) + (\<Sum>k \<in> dom v - {l}. the (v k))"
  proof (cases "v l")
    case None
    then have "dom v - {l} = dom v" by auto
    with None show ?thesis by (simp add: total_of_def)
  next
    case (Some y)
    then have "l \<in> dom v" by auto
    with Some show ?thesis using fin by (simp add: total_of_def sum.remove [of "dom v" l])
  qed
  ultimately show ?thesis by simp
qed

text \<open>A vector with finitely many series whose total is \<open>x\<close>.\<close>

definition totals :: "vec \<Rightarrow> rat \<Rightarrow> bool" where
  "totals v x \<longleftrightarrow> finite (dom v) \<and> total_of v = x"

lemma totals_add: "totals v x \<Longrightarrow> totals (vec_add l y v) (x + y)"
  by (auto simp: totals_def vec_add_def total_of_upd split: option.split)

lemma totals_create: "totals v x \<Longrightarrow> totals (create_all ls v) x"
  unfolding create_all_def
  by (induction ls arbitrary: v) (auto simp: totals_def with_labels_def total_of_upd split: option.splits)

lemma totals_fold: "totals v x \<Longrightarrow> totals (fold (\<lambda>a. vec_add (l a) 1) as v) (x + of_nat (length as))"
proof (induction as arbitrary: v x)
  case (Cons a as)
  from Cons.IH [OF totals_add [OF Cons.prems, of "l a" 1]] show ?case by (simp add: add.assoc)
qed simp

text \<open>The counters of the pipeline: everything recorded as settled was recorded as claimed.\<close>

definition balanced :: "metrics \<Rightarrow> bool" where
  "balanced m \<longleftrightarrow> (\<exists>c d r e f x.
     totals (MessagesClaimed m) c \<and> totals (MessagesDispatched m) d \<and> totals (MessagesRetried m) r
     \<and> totals (MessagesDeferred m) e \<and> totals (MessagesFailed m) f \<and> totals (LeaseConflicts m) x
     \<and> d + r + e + f + x \<le> c)"

text \<open>An event whose lists fit into its batch.\<close>

definition accounted :: "iteration \<Rightarrow> bool" where
  "accounted ev \<longleftrightarrow> 0 \<le> it_retries ev \<and> it_retries ev \<le> it_claimed ev \<and> 0 \<le> it_conflicts ev
     \<and> int (length (it_delivered ev)) + int (length (it_requeued ev)) + int (length (it_failed ev))
        + int (length (it_deferred ev)) + it_conflicts ev \<le> it_claimed ev"

lemma totals_if: "totals v x \<Longrightarrow> (\<not> P \<Longrightarrow> y = 0) \<Longrightarrow> totals ((if P then vec_add l y else id) v) (x + y)"
  by (auto dest: totals_add)

lemma balanced_new: "balanced (metrics_New cfg)"
proof -
  have "totals Map.empty 0" by (simp add: totals_def)
  then show ?thesis
    unfolding balanced_def metrics_New_def preCreate_def Let_def
    by (intro exI [of _ 0]) (simp add: empty_metrics_def totals_create)
qed

lemma onIteration_guarded:
  "MessagesClaimed (onIteration ev m) =
     (if it_retries ev > 0 then vec_add [metrics_Stream m (it_stream ev), metrics_Driver m (it_driver ev), AttemptRetry]
        (of_int (it_retries ev)) else id)
     ((if it_claimed ev - it_retries ev > 0
       then vec_add [metrics_Stream m (it_stream ev), metrics_Driver m (it_driver ev), AttemptInitial]
         (of_int (it_claimed ev - it_retries ev)) else id) (MessagesClaimed m))"
  "LeaseConflicts (onIteration ev m) =
     (if it_conflicts ev > 0 then vec_add [metrics_Stream m (it_stream ev)] (of_int (it_conflicts ev)) else id)
       (LeaseConflicts m)"
  by (simp_all add: onIteration_def Let_def)

lemma balanced_iteration:
  assumes "balanced m" and "accounted ev"
  shows "balanced (onIteration ev m)"
proof -
  from assms(1) obtain c d r e f x where t:
    "totals (MessagesClaimed m) c" "totals (MessagesDispatched m) d" "totals (MessagesRetried m) r"
    "totals (MessagesDeferred m) e" "totals (MessagesFailed m) f" "totals (LeaseConflicts m) x"
    and le: "d + r + e + f + x \<le> c"
    unfolding balanced_def by blast
  let ?m = "onIteration ev m"
  have claimed: "totals (MessagesClaimed ?m) (c + of_int (it_claimed ev - it_retries ev) + of_int (it_retries ev))"
    unfolding onIteration_guarded
    by (intro totals_if t) (use assms(2) in \<open>auto simp: accounted_def\<close>)
  have settled: "totals (MessagesDispatched ?m) (d + of_nat (length (it_delivered ev)))"
    "totals (MessagesFailed ?m) (f + of_nat (length (it_failed ev)))"
    unfolding onIteration_def Let_def using t by (simp_all add: totals_fold)
  have handed: "totals (MessagesRetried ?m) (r + of_nat (length (it_requeued ev)))"
    "totals (MessagesDeferred ?m) (e + of_nat (length (it_deferred ev)))"
    unfolding onIteration_def Let_def using t by (auto intro: totals_add)
  have conflicts: "totals (LeaseConflicts ?m) (x + of_int (it_conflicts ev))"
    unfolding onIteration_guarded
    by (intro totals_if t) (use assms(2) in \<open>auto simp: accounted_def\<close>)
  have "int (length (it_delivered ev)) + int (length (it_requeued ev)) + int (length (it_deferred ev))
      + int (length (it_failed ev)) + it_conflicts ev \<le> it_claimed ev" using assms(2) by (simp add: accounted_def)
  then have "rat_of_int (int (length (it_delivered ev)) + int (length (it_requeued ev)) + int (length (it_deferred ev))
      + int (length (it_failed ev)) + it_conflicts ev) \<le> rat_of_int (it_claimed ev)"
    by (simp only: of_int_le_iff)
  with le have "(d + of_nat (length (it_delivered ev))) + (r + of_nat (length (it_requeued ev)))
      + (e + of_nat (length (it_deferred ev))) + (f + of_nat (length (it_failed ev))) + (x + of_int (it_conflicts ev))
      \<le> c + of_int (it_claimed ev - it_retries ev) + of_int (it_retries ev)"
    by simp
  with claimed settled handed conflicts show ?thesis unfolding balanced_def by blast
qed

lemma balanced_event:
  assumes "balanced m" and "\<And>ev. e = Iterated ev \<Longrightarrow> accounted ev"
  shows "balanced (on_event e m)"
proof (cases e)
  case (Iterated ev)
  then show ?thesis using assms by (simp add: balanced_iteration)
next
  case (Housekept je)
  then show ?thesis
    using assms(1) by (cases je) (simp_all add: balanced_def onReclaimed_def onStats_def ObserveStatusCounts_def onRetention_def onPartitions_def Let_def)
qed (use assms(1) in \<open>simp_all add: balanced_def onBreaker_def onDeadLetter_def\<close>)

text \<open>The event of every cycle is accounted for.\<close>

lemma cycle_event_accounted:
  assumes "table_ok t" and "RunOnce ce p t = Return (t', res, None, Some ev)" and "cycle_ok ce p t"
  shows "accounted ev"
proof -
  from event_accounts_for_batch [OF assms] obtain msgs where
    "it_claimed ev = int (length msgs)" "it_retries ev = countRetries msgs" "0 \<le> it_conflicts ev"
    "int (length (it_delivered ev)) + int (length (it_requeued ev)) + int (length (it_failed ev))
        + int (length (it_deferred ev)) + it_conflicts ev \<le> int (length msgs)"
    by auto
  then show ?thesis by (simp add: accounted_def countRetries_def)
qed

text \<open>A value is among the observations of a series.\<close>

definition observed :: "rat \<Rightarrow> labels \<Rightarrow> histogram \<Rightarrow> bool" where
  "observed y k h \<longleftrightarrow> (case h k of None \<Rightarrow> False | Some xs \<Rightarrow> y \<in> set xs)"

lemma observed_observe: "observed y k (vec_observe l x h) \<longleftrightarrow> (k = l \<and> y = x) \<or> observed y k h"
  by (auto simp: observed_def vec_observe_def split: option.splits)

lemma observed_fold:
  "observed y k (fold (\<lambda>a. vec_observe (l a) (x a)) as h) \<longleftrightarrow> (\<exists>a \<in> set as. k = l a \<and> y = x a) \<or> observed y k h"
  by (induction as arbitrary: h) (auto simp: observed_observe)

lemma untried_publishes_are_zero:
  assumes "RunOnce ce p t = Return (t', res, None, Some ev)" and "cycle_ok ce p t"
    and "snd (cycle_claim ce p t) = Inr msgs" and "snd (publish (ce_publish ce) (dc_workers (p_cfg p)) msgs) \<le> j" and "j < length msgs"
  shows "zero_publish \<in> set (it_publishes ev)"
  using assms(1,2)
proof (cases rule: RunOnce_parts)
  case (Batch t1 ms publishes attempted)
  have ms: "ms = msgs" using Batch(1) assms(3) by simp
  obtain acked nacked where sp: "split (ce_wild ce) (ce_draw ce) (p_backoff p) 0 (take attempted ms) publishes = (acked, nacked)"
    by (metis surj_pair)
  from finish_cycle_parts [OF Batch(6) sp] obtain t2 ev0 ev3 where
    ev0: "it_publishes ev0 = publishes"
    and w: "writeBack ce (p_cfg p) acked nacked (ce_token ce) ev0 (run_stmts (ce_before_ack ce) t2) = (t', ev3, None)"
    and ev: "Some ev = Some (ev3\<lparr>it_duration := ce_elapsed ce\<rparr>)"
    by metis
  from writeBack_parts [OF w] obtain t3 ev1 where
    a: "write_ack ce acked (ce_token ce) ev0 (run_stmts (ce_before_ack ce) t2) = (t3, ev1, None)"
    and n: "write_nack ce (p_cfg p) nacked (ce_token ce) ev1 (run_stmts (ce_before_nack ce) t3) = (t', ev3, None)"
    by metis
  have pubs: "it_publishes ev = publishes" using write_ack_counts [OF a] write_nack_counts [OF n] ev0 ev by simp
  have "publish_ok (ce_publish ce) (dc_workers (p_cfg p)) ms" using assms(2) Batch(1,2) by (simp add: cycle_ok_def)
  then have "publishes ! j = zero_publish"
    using publish_result [of "ce_publish ce" "dc_workers (p_cfg p)" ms] Batch(3) assms(4,5) ms
    by (auto simp: publish_ok_def)
  then show ?thesis using Batch(4) assms(5) ms pubs by (metis nth_mem)
qed simp

text \<open>An event some cycle emitted, or an event of another kind.\<close>

definition from_cycle :: "domain_event \<Rightarrow> bool" where
  "from_cycle e \<longleftrightarrow>
     (case e of
        Iterated ev \<Rightarrow> \<exists>ce p t t' res. table_ok t \<and> cycle_ok ce p t \<and> RunOnce ce p t = Return (t', res, None, Some ev)
      | _ \<Rightarrow> True)"

lemma from_cycle_accounted: "from_cycle (Iterated ev) \<Longrightarrow> accounted ev"
  by (auto simp: from_cycle_def intro: cycle_event_accounted)

lemma events_keep:
  "list_all from_cycle es \<Longrightarrow> labels_bounded cfg m \<Longrightarrow> balanced m
   \<Longrightarrow> labels_bounded cfg (fold on_event es m) \<and> balanced (fold on_event es m)"
proof (induction es arbitrary: m)
  case (Cons e es)
  have "balanced (on_event e m)" using Cons.prems from_cycle_accounted by (intro balanced_event) auto
  with Cons bounded_event show ?case by simp
qed simp

definition demo_brokers :: broker_config where
  "demo_brokers = \<lparr>bc_streams = [(''local'', \<lparr>sc_name = ''local'', sc_driver = ''rmq''\<rparr>)], bc_drivers = []\<rparr>"

text \<open>A cycle whose context ends between the claim and the publish.\<close>

definition demo_cut :: cycle_env where
  "demo_cut = (demo_cycle None NoFault)\<lparr>ce_publish := (ce_publish (demo_cycle None NoFault))
     \<lparr>pe_ctx_done := (\<lambda>_. True), pe_order := []\<rparr>\<rparr>"

lemma demo_cut_claim: "cycle_claim demo_cut demo_pipeline [demo_row]
     = ([claim_set 2000 ''tok1'' (120 * second) ''pod-a'' demo_row], Inr [demo_message])"
  using demo_cycle_claim [of None NoFault] by (simp add: cycle_claim_def demo_cut_def cycle_lease_def)

lemma demo_cut_publish: "publish (ce_publish demo_cut) (dc_workers (p_cfg demo_pipeline)) [demo_message] = (Return [zero_publish], 0)"
proof -
  have none: "started_spans (\<lambda>_. True) k cs = []" for k cs by (cases cs) simp_all
  show ?thesis by (simp add: publish_def Let_def demo_cut_def none)
qed

lemma demo_cut_ok: "cycle_ok demo_cut demo_pipeline [demo_row]"
proof -
  have none: "started_spans (\<lambda>_. True) k cs = []" for k cs by (cases cs) simp_all
  show ?thesis unfolding cycle_ok_def demo_cut_claim publish_ok_def completes_def
    by (simp add: demo_cut_def none) (simp add: demo_cycle_def)
qed

lemma demo_cut_run: "\<exists>t' res ev. RunOnce demo_cut demo_pipeline [demo_row] = Return (t', res, None, Some ev)"
  using demo_cut_claim demo_cut_publish
  by (simp add: RunOnce_def cycle_claim_def)
    (simp add: finish_cycle_def Let_def demo_cut_def demo_cycle_def writeBack_def write_ack_def write_nack_def
      errors_join_def List.map_filter_def split: prod.split)

subsection \<open>Properties\<close>

text \<open>
  C36.  The metrics stay bounded and add up.  Whatever events arrive in whatever order, every series
  carries only label values that the configuration or the code fixes (a stream or driver nobody
  configured is counted under one label), so a producer cannot mint series; and as long as the
  iteration events come from cycles of a pipeline, the messages counted as dispatched, retried,
  deferred and failed and the conflicts never exceed the messages counted as claimed.
\<close>

theorem metrics_are_bounded_and_balanced:
  assumes "list_all from_cycle es" and "m = fold on_event es (metrics_New cfg)"
  shows "labels_bounded cfg m
    \<and> total_of (MessagesDispatched m) + total_of (MessagesRetried m) + total_of (MessagesDeferred m)
        + total_of (MessagesFailed m) + total_of (LeaseConflicts m) \<le> total_of (MessagesClaimed m)"
  using events_keep [OF assms(1) bounded_new balanced_new, of cfg] unfolding assms(2)
  by (auto simp: balanced_def totals_def)

text \<open>A delivery, followed by a pause of a stream that is not configured.\<close>

theorem metrics_are_bounded_and_balanced_witness:
  "\<exists>ev m. from_cycle (Iterated ev)
    \<and> m = fold on_event [Iterated ev, Paused \<lparr>be_stream = ''ghost'', be_driver = ''rmq'', be_paused = True\<rparr>] (metrics_New demo_brokers)
    \<and> labels_bounded demo_brokers m \<and> total_of (MessagesDispatched m) \<le> total_of (MessagesClaimed m)
        - total_of (MessagesRetried m) - total_of (MessagesDeferred m) - total_of (MessagesFailed m) - total_of (LeaseConflicts m)"
proof -
  obtain res ev where r: "RunOnce (demo_cycle None NoFault) demo_pipeline [demo_row]
     = Return ([ack_set 3000 (claim_set 2000 ''tok1'' (120 * second) ''pod-a'' demo_row)], res, None, Some ev)"
    using demo_cycle_sent by blast
  then have c: "from_cycle (Iterated ev)"
    unfolding from_cycle_def domain_event.case using demo_simps(1) demo_cycle_ok by blast
  then have "list_all from_cycle [Iterated ev, Paused \<lparr>be_stream = ''ghost'', be_driver = ''rmq'', be_paused = True\<rparr>]"
    by (simp add: from_cycle_def)
  from metrics_are_bounded_and_balanced [OF this refl, of demo_brokers] c show ?thesis
    by (intro exI conjI) (auto simp: algebra_simps)
qed

text \<open>
  A message that was never published is counted as a successful publish.  When a shutdown cuts a
  batch short, the results of the messages that were handed back are still the zero values the slice was
  made with; they travel in the event, and the observer records each as a publish that succeeded in no
  time.
\<close>

lemma untried_message_counts_as_success:
  assumes "RunOnce ce p t = Return (t', res, None, Some ev)" and "cycle_ok ce p t"
    and "snd (cycle_claim ce p t) = Inr msgs" and "snd (publish (ce_publish ce) (dc_workers (p_cfg p)) msgs) \<le> j"
    and "j < length msgs"
  shows "observed 0 [metrics_Stream m (it_stream ev), metrics_Driver m (it_driver ev), ResultSuccess]
    (PublishDuration (onIteration ev m))"
proof -
  have "PublishDuration (onIteration ev m) = fold (\<lambda>pub. vec_observe [metrics_Stream m (it_stream ev),
      metrics_Driver m (it_driver ev), publish_result_label pub] (Seconds (ev_duration pub))) (it_publishes ev) (PublishDuration m)"
    by (simp add: onIteration_def Let_def)
  moreover have "publish_result_label zero_publish = ResultSuccess" "Seconds (ev_duration zero_publish) = 0"
    by (simp_all add: publish_result_label_def zero_publish_def Seconds_def)
  ultimately show ?thesis using untried_publishes_are_zero [OF assms] by (auto simp: observed_fold intro!: bexI [of _ zero_publish])
qed

lemma untried_message_counts_as_success_witness:
  "\<exists>t' res ev. RunOnce demo_cut demo_pipeline [demo_row] = Return (t', res, None, Some ev)
    \<and> observed 0 [metrics_Stream (metrics_New demo_brokers) (it_stream ev), metrics_Driver (metrics_New demo_brokers) (it_driver ev),
         ResultSuccess] (PublishDuration (onIteration ev (metrics_New demo_brokers)))"
proof -
  obtain t' res ev where r: "RunOnce demo_cut demo_pipeline [demo_row] = Return (t', res, None, Some ev)"
    using demo_cut_run by blast
  have "snd (cycle_claim demo_cut demo_pipeline [demo_row]) = Inr [demo_message]" by (simp add: demo_cut_claim)
  from untried_message_counts_as_success [OF r demo_cut_ok this, of 0] r show ?thesis
    by (auto simp: demo_cut_publish)
qed

end
