(* ===== verification/Store_Migrate.thy ===== *)
theory Store_Migrate
  imports Config_Parse Config_Types Dispatch_Janitor
begin

text \<open>
  \<open>internal/store/migrate\<close> (\<open>migrate.go\<close>, \<open>sql.go\<close>) and \<open>internal/store/migrate.go\<close>: loading the embedded files,
  the advisory lock, the bookkeeping table, applying one migration in a transaction, and the run.

  The state is what the bookkeeping table records and the scripts whose transactions committed, in order.
  What a script does inside the database is the server's; whether it runs is an argument, as are the
  directory listing, SHA-256, and every failure of the connection.  A commit can be lost before or after
  it took effect.
\<close>

subsection \<open>Data\<close>

record mig_options =
  mo_schema :: string
  mo_table :: string
  mo_channel :: string
  mo_lock_key :: int
  mo_lock_timeout :: duration

record mig_record =
  mr_version :: int
  mr_name :: string
  mr_checksum :: string
  mr_applied_at :: timestamptz

record migration =
  mg_version :: int
  mg_name :: string
  mg_template :: string
  mg_checksum :: string

record dir_entry =
  de_name :: string
  de_is_dir :: bool
  de_body :: "err + string"

text \<open>The schema, the table \<open>schema_migrations\<close> in insertion order, and the committed scripts.\<close>

record mig_db =
  md_schema :: bool
  md_records :: "mig_record list option"
  md_scripts :: "(migration \<times> string) list"

subsection \<open>Loading\<close>

text \<open>The pattern \<open>^(\d+)_([a-z0-9_]+)\.sql$\<close>: its two groups.\<close>

definition has_suffix :: "string \<Rightarrow> string \<Rightarrow> bool" where
  "has_suffix s x \<longleftrightarrow> length x \<le> length s \<and> drop (length s - length x) s = x"

definition name_char :: "char \<Rightarrow> bool" where
  "name_char c \<longleftrightarrow> is_lower c \<or> is_digit c \<or> c = CHR ''_''"

definition fileName :: "string \<Rightarrow> (string \<times> string) option" where
  "fileName s =
     (let v = takeWhile is_digit s; rest = dropWhile is_digit s; n = take (length rest - 5) (tl rest) in
      if v \<noteq> [] \<and> rest \<noteq> [] \<and> hd rest = CHR ''_'' \<and> has_suffix (tl rest) ''.sql'' \<and> n \<noteq> [] \<and> list_all name_char n
      then Some (v, n) else None)"

fun load_entries :: "(string \<Rightarrow> string) \<Rightarrow> (int \<times> string) list \<Rightarrow> dir_entry list \<Rightarrow> err + migration list" where
  "load_entries sha seen [] = Inr []"
| "load_entries sha seen (e # es) =
     (if de_is_dir e \<or> \<not> has_suffix (de_name e) ''.sql'' then load_entries sha seen es
      else case fileName (de_name e) of
        None \<Rightarrow> Inl (ErrorString (''migration '' @ go_quote (de_name e) @ '' does not match <version>_<name>.sql''))
      | Some (v, n) \<Rightarrow>
          (case Atoi v of
             Inl er \<Rightarrow> Inl (Errorf (''migration '' @ go_quote (de_name e) @ '' has an unreadable version: '') er [])
           | Inr version \<Rightarrow>
               (case map_of seen version of
                  Some prev \<Rightarrow> Inl (ErrorString (''migrations '' @ go_quote prev @ '' and '' @ go_quote (de_name e)
                    @ '' share version '' @ itoa version))
                | None \<Rightarrow>
                    (case de_body e of
                       Inl er \<Rightarrow> Inl (Errorf (''read migration '' @ go_quote (de_name e) @ '': '') er [])
                     | Inr body \<Rightarrow>
                         (case load_entries sha ((version, de_name e) # seen) es of
                            Inl er \<Rightarrow> Inl er
                          | Inr ms \<Rightarrow> Inr (\<lparr>mg_version = version, mg_name = n, mg_template = body,
                              mg_checksum = sha body\<rparr> # ms))))))"

definition load :: "(string \<Rightarrow> string) \<Rightarrow> err + dir_entry list \<Rightarrow> err + migration list" where
  "load sha dir =
     (case dir of
        Inl e \<Rightarrow> Inl (Errorf ''read embedded migrations: '' e [])
      | Inr es \<Rightarrow> (case load_entries sha [] es of Inl e \<Rightarrow> Inl e | Inr ms \<Rightarrow> Inr (sort_key mg_version ms)))"

definition record_of :: "migration \<Rightarrow> mig_record" where
  "record_of m = \<lparr>mr_version = mg_version m, mr_name = mg_name m, mr_checksum = mg_checksum m,
     mr_applied_at = zero_time\<rparr>"

definition Pending :: "(string \<Rightarrow> string) \<Rightarrow> err + dir_entry list \<Rightarrow> err + mig_record list" where
  "Pending sha dir = (case load sha dir of Inl e \<Rightarrow> Inl e | Inr ms \<Rightarrow> Inr (map record_of ms))"

subsection \<open>The lock\<close>

text \<open>
  One round of the loop: the server's answer, whether the deadline has passed by then, and the error of
  the context if it ends before the next round.  \<open>None\<close> is a loop still waiting when the rounds given run out.
\<close>

record lock_round =
  lr_answer :: "err + bool"
  lr_late :: bool
  lr_ctx :: "err option"

definition defaultLockTimeout :: duration where
  "defaultLockTimeout = 30 * second"

fun mig_lock :: "mig_options \<Rightarrow> lock_round list \<Rightarrow> err option option" where
  "mig_lock opts [] = None"
| "mig_lock opts (r # rs) =
     (case lr_answer r of
        Inl e \<Rightarrow> Some (Some (Errorf ''acquire migration lock: '' e []))
      | Inr True \<Rightarrow> Some None
      | Inr False \<Rightarrow>
          (if lr_late r then
             Some (Some (ErrorString (''migration lock held by another instance for longer than ''
               @ duration_string (if mo_lock_timeout opts \<le> 0 then defaultLockTimeout else mo_lock_timeout opts))))
           else case lr_ctx r of Some e \<Rightarrow> Some (Some e) | None \<Rightarrow> mig_lock opts rs))"

subsection \<open>The bookkeeping table\<close>

definition mig_quote :: "string \<Rightarrow> string" where
  "mig_quote ident = [CHR 0x22] @ ident @ [CHR 0x22]"

definition create_schema :: "mig_db \<Rightarrow> mig_db" where
  "create_schema db = db\<lparr>md_schema := True\<rparr>"

definition create_bookkeeping :: "mig_db \<Rightarrow> mig_db" where
  "create_bookkeeping db = (case md_records db of None \<Rightarrow> db\<lparr>md_records := Some []\<rparr> | Some _ \<Rightarrow> db)"

definition exec_ddl :: "fault \<Rightarrow> (mig_db \<Rightarrow> mig_db) \<Rightarrow> mig_db \<Rightarrow> mig_db \<times> err option" where
  "exec_ddl f stmt db =
     (case f of
        NoFault \<Rightarrow> (stmt db, None)
      | FailBefore e \<Rightarrow> (db, Some e)
      | FailRows e \<Rightarrow> (db, Some e)
      | FailAfter e \<Rightarrow> (stmt db, Some e))"

definition bootstrap :: "fault \<Rightarrow> fault \<Rightarrow> mig_db \<Rightarrow> mig_db \<times> err option" where
  "bootstrap f1 f2 db =
     (case exec_ddl f1 create_schema db of
        (db1, Some e) \<Rightarrow> (db1, Some (Errorf ''bootstrap migration bookkeeping: '' e []))
      | (db1, None) \<Rightarrow>
          (case exec_ddl f2 create_bookkeeping db1 of
             (db2, Some e) \<Rightarrow> (db2, Some (Errorf ''bootstrap migration bookkeeping: '' e []))
           | (db2, None) \<Rightarrow> (db2, None)))"

datatype read_fault = ReadOk | QueryFails err | ScanFails err | RowsFail err

text \<open>The map from version to record, which the loop over the rows fills.\<close>

definition recorded :: "read_fault \<Rightarrow> mig_db \<Rightarrow> err + (int \<rightharpoonup> mig_record)" where
  "recorded f db =
     (case (f, md_records db) of
        (QueryFails e, _) \<Rightarrow> Inl (Errorf ''read applied migrations: '' e [])
      | (_, None) \<Rightarrow> Inl (Errorf ''read applied migrations: '' (PgError ''42P01'' ''relation does not exist'') [])
      | (ScanFails e, _) \<Rightarrow> Inl (Errorf ''scan applied migration: '' e [])
      | (RowsFail e, _) \<Rightarrow> Inl e
      | (ReadOk, Some rs) \<Rightarrow> Inr (fold (\<lambda>r m. m(mr_version r \<mapsto> r)) rs Map.empty))"

subsection \<open>Applying one migration\<close>

text \<open>\<open>strings.NewReplacer\<close>: at each position the first pattern that matches is replaced, and the scan goes on after it.\<close>

function replace_all :: "(string \<times> string) list \<Rightarrow> string \<Rightarrow> string" where
  "replace_all ps [] = []"
| "replace_all ps (c # cs) =
     (case find (\<lambda>(k, _). has_prefix (c # cs) k) ps of
        Some (k, v) \<Rightarrow> v @ replace_all ps (drop (length k - 1) cs)
      | None \<Rightarrow> c # replace_all ps cs)"
  by pat_completeness auto
termination by (relation "measure (length \<circ> snd)") auto

definition substitute :: "string \<Rightarrow> mig_options \<Rightarrow> string" where
  "substitute template opts = replace_all
     [(''@schema@'', mo_schema opts), (''@table@'', mo_table opts), (''@channel@'', mo_channel opts)] template"

text \<open>The failures of one transaction, and the clock of its row.\<close>

record apply_env =
  ae_begin :: "err option"
  ae_exec :: "err option"
  ae_insert :: "err option"
  ae_commit :: fault
  ae_now :: timestamptz

text \<open>The row the transaction inserts: \<open>version\<close> is an INTEGER and the primary key.\<close>

definition insert_record :: "timestamptz \<Rightarrow> migration \<Rightarrow> mig_db \<Rightarrow> err + mig_record" where
  "insert_record now m db =
     (case md_records db of
        None \<Rightarrow> Inl (PgError ''42P01'' ''relation does not exist'')
      | Some rs \<Rightarrow>
          if \<not> in_int4 (mg_version m) then Inl (int4_error (mg_version m))
          else if mg_version m \<in> mr_version ` set rs
          then Inl (PgError ''23505'' ''duplicate key value violates unique constraint'')
          else Inr ((record_of m)\<lparr>mr_applied_at := now\<rparr>))"

definition commit_migration :: "mig_options \<Rightarrow> migration \<Rightarrow> mig_record \<Rightarrow> mig_db \<Rightarrow> mig_db" where
  "commit_migration opts m rec db =
     db\<lparr>md_records := map_option (\<lambda>rs. rs @ [rec]) (md_records db),
        md_scripts := md_scripts db @ [(m, substitute (mg_template m) opts)]\<rparr>"

definition mig_apply :: "apply_env \<Rightarrow> mig_options \<Rightarrow> migration \<Rightarrow> mig_db \<Rightarrow> mig_db \<times> (err + mig_record)" where
  "mig_apply ae opts m db =
     (case ae_begin ae of
        Some e \<Rightarrow> (db, Inl (Errorf ''begin: '' e []))
      | None \<Rightarrow>
          (case ae_exec ae of
             Some e \<Rightarrow> (db, Inl e)
           | None \<Rightarrow>
               (case (case ae_insert ae of Some e \<Rightarrow> Inl e | None \<Rightarrow> insert_record (ae_now ae) m db) of
                  Inl e \<Rightarrow> (db, Inl (Errorf ''record migration: '' e []))
                | Inr rec \<Rightarrow>
                    (case ae_commit ae of
                       NoFault \<Rightarrow> (commit_migration opts m rec db, Inr rec)
                     | FailBefore e \<Rightarrow> (db, Inl (Errorf ''commit: '' e []))
                     | FailRows e \<Rightarrow> (db, Inl (Errorf ''commit: '' e []))
                     | FailAfter e \<Rightarrow> (commit_migration opts m rec db, Inl (Errorf ''commit: '' e []))))))"

subsection \<open>The run\<close>

definition short :: "string \<Rightarrow> string" where
  "short s = (if length s \<le> 12 then s else take 12 s)"

definition pad4 :: "int \<Rightarrow> string" where
  "pad4 v = (if v < 0 then CHR ''-'' # zero_pad 3 (nat_digits (nat (- v))) else zero_pad 4 (nat_digits (nat v)))"

definition mismatch_error :: "migration \<Rightarrow> mig_record \<Rightarrow> err" where
  "mismatch_error m prev = Errorf [] ErrChecksumMismatch ('': '' @ pad4 (mg_version m) @ ''_'' @ mg_name m
     @ ''.sql (recorded '' @ short (mr_checksum prev) @ '', now '' @ short (mg_checksum m) @ '')'')"

text \<open>One pass of the loop: the error that ends it, or the record of the migration if one was applied.\<close>

definition migrate_one ::
    "apply_env \<Rightarrow> mig_options \<Rightarrow> (int \<rightharpoonup> mig_record) \<Rightarrow> migration \<Rightarrow> mig_db \<Rightarrow> mig_db \<times> (err + mig_record option)" where
  "migrate_one ae opts applied m db =
     (case applied (mg_version m) of
        Some prev \<Rightarrow> (db, if mr_checksum prev \<noteq> mg_checksum m then Inl (mismatch_error m prev) else Inr None)
      | None \<Rightarrow>
          (case mig_apply ae opts m db of
             (db', Inl e) \<Rightarrow> (db', Inl (Errorf (''apply migration '' @ pad4 (mg_version m) @ ''_'' @ mg_name m @ '': '') e []))
           | (db', Inr rec) \<Rightarrow> (db', Inr (Some rec))))"

fun run_loop :: "(int \<Rightarrow> apply_env) \<Rightarrow> mig_options \<Rightarrow> (int \<rightharpoonup> mig_record) \<Rightarrow> mig_record list \<Rightarrow> migration list
    \<Rightarrow> mig_db \<Rightarrow> mig_db \<times> mig_record list \<times> err option" where
  "run_loop ae opts applied done [] db = (db, done, None)"
| "run_loop ae opts applied done (m # ms) db =
     (case migrate_one (ae (mg_version m)) opts applied m db of
        (db', Inl e) \<Rightarrow> (db', done, Some e)
      | (db', Inr None) \<Rightarrow> run_loop ae opts applied done ms db'
      | (db', Inr (Some rec)) \<Rightarrow> run_loop ae opts applied (done @ [rec]) ms db')"

record mig_env =
  me_dir :: "err + dir_entry list"
  me_sha256 :: "string \<Rightarrow> string"
  me_rounds :: "lock_round list"
  me_schema_fault :: fault
  me_table_fault :: fault
  me_read_fault :: read_fault
  me_apply :: "int \<Rightarrow> apply_env"

definition migrate_Run :: "mig_env \<Rightarrow> mig_options \<Rightarrow> mig_db \<Rightarrow> (mig_db \<times> mig_record list \<times> err option) option" where
  "migrate_Run env opts db =
     (case load (me_sha256 env) (me_dir env) of
        Inl e \<Rightarrow> Some (db, [], Some e)
      | Inr pending \<Rightarrow>
          (case mig_lock opts (me_rounds env) of
             None \<Rightarrow> None
           | Some (Some e) \<Rightarrow> Some (db, [], Some e)
           | Some None \<Rightarrow>
               Some (case bootstrap (me_schema_fault env) (me_table_fault env) db of
                       (db1, Some e) \<Rightarrow> (db1, [], Some e)
                     | (db1, None) \<Rightarrow>
                         (case recorded (me_read_fault env) db1 of
                            Inl e \<Rightarrow> (db1, [], Some e)
                          | Inr applied \<Rightarrow> run_loop (me_apply env) opts applied [] pending db1))))"

text \<open>\<open>Status\<close> lists the records by version; the order in which the map yields them is lost in the sort.\<close>

definition migrate_Status :: "mig_env \<Rightarrow> mig_db \<Rightarrow> mig_db \<times> (err + mig_record list)" where
  "migrate_Status env db =
     (case bootstrap (me_schema_fault env) (me_table_fault env) db of
        (db1, Some e) \<Rightarrow> (db1, Inl e)
      | (db1, None) \<Rightarrow>
          (case recorded (me_read_fault env) db1 of
             Inl e \<Rightarrow> (db1, Inl e)
           | Inr applied \<Rightarrow> (db1, Inr (map (\<lambda>v. the (applied v))
               (sorted_list_of_set (set (map mr_version (the (md_records db1)))))))))"

definition migrationLockTimeout :: duration where
  "migrationLockTimeout = 120 * second"

definition migrationOptions :: "config \<Rightarrow> mig_options" where
  "migrationOptions cfg = \<lparr>mo_schema = db_schema (cfg_db cfg), mo_table = db_table (cfg_db cfg),
     mo_channel = dc_notify_channel (cfg_dispatch cfg), mo_lock_key = db_migration_lock_key (cfg_db cfg),
     mo_lock_timeout = migrationLockTimeout\<rparr>"

definition Migrate :: "err option \<Rightarrow> mig_env \<Rightarrow> config \<Rightarrow> mig_db \<Rightarrow> (mig_db \<times> mig_record list \<times> err option) option" where
  "Migrate connect env cfg db =
     (case connect of
        Some e \<Rightarrow> Some (db, [], Some (Errorf ''connect for migrations: '' e []))
      | None \<Rightarrow> migrate_Run env (migrationOptions cfg) db)"

definition MigrationStatus ::
    "err option \<Rightarrow> mig_env \<Rightarrow> mig_db \<Rightarrow> mig_db \<times> (err + mig_record list \<times> mig_record list)" where
  "MigrationStatus connect env db =
     (case connect of
        Some e \<Rightarrow> (db, Inl (Errorf ''connect for migrations: '' e []))
      | None \<Rightarrow>
          (case migrate_Status env db of
             (db1, Inl e) \<Rightarrow> (db1, Inl e)
           | (db1, Inr applied) \<Rightarrow>
               (case Pending (me_sha256 env) (me_dir env) of
                  Inl e \<Rightarrow> (db1, Inl e)
                | Inr shipped \<Rightarrow> (db1, Inr (applied, shipped)))))"

end
