(* ===== verification/Migrate_Safety.thy ===== *)
theory Migrate_Safety
  imports Store_Migrate "HOL-Library.Sublist"
begin

text \<open>
  What the migrations keep: the files a build loads, one run under any failure, and several replicas
  starting together.
\<close>

subsection \<open>File names\<close>

lemma has_suffix_iff: "has_suffix s x \<longleftrightarrow> (\<exists>y. s = y @ x)"
proof
  show "has_suffix s x \<Longrightarrow> \<exists>y. s = y @ x" unfolding has_suffix_def by (metis append_take_drop_id)
qed (auto simp: has_suffix_def)

text \<open>The regular expression, declaratively.\<close>

lemma fileName_iff:
  "fileName s = Some (v, n) \<longleftrightarrow>
     s = v @ ''_'' @ n @ ''.sql'' \<and> v \<noteq> [] \<and> list_all is_digit v \<and> n \<noteq> [] \<and> list_all name_char n" (is "_ \<longleftrightarrow> ?R")
proof
  assume *: "fileName s = Some (v, n)"
  let ?rest = "dropWhile is_digit s"
  have v: "v = takeWhile is_digit s" "v \<noteq> []" and n: "n = take (length ?rest - 5) (tl ?rest)" "n \<noteq> []" "list_all name_char n"
    and r: "?rest \<noteq> []" "hd ?rest = CHR ''_''" "has_suffix (tl ?rest) ''.sql''"
    using * by (auto simp: fileName_def Let_def split: if_splits)
  obtain y where y: "tl ?rest = y @ ''.sql''" using r(3) by (auto simp: has_suffix_iff)
  have "?rest = CHR ''_'' # y @ ''.sql''" using r(1,2) y by (metis list.collapse)
  moreover from this n(1) have "n = y" by simp
  moreover have "s = v @ ?rest" "list_all is_digit v"
    using takeWhile_dropWhile_id [of is_digit s] by (auto simp: v(1) list_all_iff dest: set_takeWhileD)
  ultimately show ?R using v(2) n(2,3) by auto
next
  assume R: ?R
  have u: "\<not> is_digit (CHR ''_'')" by (simp add: is_digit_def less_eq_char_def)
  have tw: "takeWhile is_digit s = v" "dropWhile is_digit s = ''_'' @ n @ ''.sql''"
    using R u by (auto simp: list_all_iff takeWhile_append dropWhile_append)
  show "fileName s = Some (v, n)" unfolding fileName_def Let_def tw using R by (simp add: has_suffix_iff)
qed

subsection \<open>Loading\<close>

text \<open>The migration an entry of the directory stands for.\<close>

definition shipped_as :: "(string \<Rightarrow> string) \<Rightarrow> dir_entry \<Rightarrow> migration \<Rightarrow> bool" where
  "shipped_as sha e m \<longleftrightarrow> (\<exists>v. \<not> de_is_dir e \<and> fileName (de_name e) = Some (v, mg_name m) \<and> Atoi v = Inr (mg_version m)
     \<and> de_body e = Inr (mg_template m) \<and> mg_checksum m = sha (mg_template m))"

lemma load_entries_result:
  "load_entries sha seen es = Inr ms \<Longrightarrow>
     distinct (map mg_version ms) \<and> (\<forall>m \<in> set ms. mg_version m \<notin> fst ` set seen)
     \<and> list_all2 (shipped_as sha) (filter (\<lambda>e. \<not> de_is_dir e \<and> has_suffix (de_name e) ''.sql'') es) ms"
proof (induction sha seen es arbitrary: ms rule: load_entries.induct)
  case (2 sha seen e es)
  show ?case
  proof (cases "de_is_dir e \<or> \<not> has_suffix (de_name e) ''.sql''")
    case False
    with 2(3) obtain v n version body ms' where f: "fileName (de_name e) = Some (v, n)" "Atoi v = Inr version"
      "map_of seen version = None" "de_body e = Inr body" "load_entries sha ((version, de_name e) # seen) es = Inr ms'"
      and ms: "ms = \<lparr>mg_version = version, mg_name = n, mg_template = body, mg_checksum = sha body\<rparr> # ms'"
      by (auto split: option.splits sum.splits)
    from 2(2) [OF False f(1) refl f(2,3,4,5)] f ms False show ?thesis
      by (auto simp: shipped_as_def map_of_eq_None_iff)
  qed (use 2 in auto)
qed simp

lemma list_all2_members:
  assumes "list_all2 P xs ys"
  shows "\<forall>x \<in> set xs. \<exists>y \<in> set ys. P x y" and "\<forall>y \<in> set ys. \<exists>x \<in> set xs. P x y"
  using assms by (induction rule: list_all2_induct) auto

lemma load_result:
  assumes "load sha dir = Inr ms"
  shows "sorted_wrt (<) (map mg_version ms)" and "distinct (map mg_version ms)"
    and "\<exists>es. dir = Inr es \<and> (\<forall>m \<in> set ms. \<exists>e \<in> set es. shipped_as sha e m)
      \<and> (\<forall>e \<in> set es. \<not> de_is_dir e \<longrightarrow> has_suffix (de_name e) ''.sql'' \<longrightarrow> (\<exists>m \<in> set ms. shipped_as sha e m))"
proof -
  obtain es ls where l: "dir = Inr es" "load_entries sha [] es = Inr ls" "ms = sort_key mg_version ls"
    using assms by (auto simp: load_def split: sum.splits)
  note r = load_entries_result [OF l(2)]
  have "distinct (map mg_version ls)" using r by blast
  then show d: "distinct (map mg_version ms)" by (simp add: l(3) distinct_map)
  have "sorted (map mg_version ms)" by (simp add: l(3))
  with d show "sorted_wrt (<) (map mg_version ms)" by (simp add: strict_sorted_iff)
  have all2: "list_all2 (shipped_as sha) (filter (\<lambda>e. \<not> de_is_dir e \<and> has_suffix (de_name e) ''.sql'') es) ls"
    using r by blast
  have "\<exists>e \<in> set es. shipped_as sha e m" if "m \<in> set ms" for m
    using list_all2_members(2) [OF all2] that by (fastforce simp: l(3))
  moreover have "\<exists>m \<in> set ms. shipped_as sha e m"
    if "e \<in> set es" "\<not> de_is_dir e" "has_suffix (de_name e) ''.sql''" for e
    using list_all2_members(1) [OF all2] that by (simp add: l(3))
  ultimately show "\<exists>es. dir = Inr es \<and> (\<forall>m \<in> set ms. \<exists>e \<in> set es. shipped_as sha e m)
      \<and> (\<forall>e \<in> set es. \<not> de_is_dir e \<longrightarrow> has_suffix (de_name e) ''.sql'' \<longrightarrow> (\<exists>m \<in> set ms. shipped_as sha e m))"
    using l(1) by blast
qed

subsection \<open>The lock\<close>

lemma mig_lock_returns: "\<exists>r \<in> set rs. lr_late r \<Longrightarrow> \<exists>res. mig_lock opts rs = Some res"
  by (induction rs) (auto split: sum.split bool.split option.split)

lemma mig_lock_granted: "mig_lock opts rs = Some None \<Longrightarrow> \<exists>r \<in> set rs. lr_answer r = Inr True"
  by (induction rs) (auto split: sum.splits bool.splits option.splits if_splits)


subsection \<open>The database\<close>

definition rec_key :: "mig_record \<Rightarrow> int \<times> string \<times> string" where
  "rec_key r = (mr_version r, mr_name r, mr_checksum r)"

definition mig_key :: "migration \<Rightarrow> int \<times> string \<times> string" where
  "mig_key m = (mg_version m, mg_name m, mg_checksum m)"

definition records :: "mig_db \<Rightarrow> mig_record list" where
  "records db = (case md_records db of None \<Rightarrow> [] | Some rs \<Rightarrow> rs)"

text \<open>A script was committed exactly when it is recorded, and no version twice.\<close>

definition mig_ok :: "mig_db \<Rightarrow> bool" where
  "mig_ok db \<longleftrightarrow> map rec_key (records db) = map (mig_key \<circ> fst) (md_scripts db) \<and> distinct (map mr_version (records db))"

lemma mig_ok_scripts_distinct: "mig_ok db \<Longrightarrow> distinct (map (mg_version \<circ> fst) (md_scripts db))"
proof -
  assume "mig_ok db"
  then have "map (fst \<circ> rec_key) (records db) = map (fst \<circ> mig_key \<circ> fst) (md_scripts db)"
    and "distinct (map mr_version (records db))"
    by (auto simp: mig_ok_def simp flip: map_map comp_assoc)
  then show ?thesis by (simp add: rec_key_def mig_key_def comp_def)
qed

lemma bootstrap_keeps:
  assumes "bootstrap f1 f2 db = (db', res)"
  shows "records db' = records db" and "md_scripts db' = md_scripts db" and "res = None \<Longrightarrow> md_records db' \<noteq> None"
  using assms
  by (auto simp: bootstrap_def exec_ddl_def create_schema_def create_bookkeeping_def records_def
      split: fault.splits option.splits prod.splits)

lemma fold_record_map:
  "distinct (map mr_version rs) \<Longrightarrow>
   fold (\<lambda>r m. m(mr_version r \<mapsto> r)) rs M v = (case find (\<lambda>r. mr_version r = v) rs of None \<Rightarrow> M v | Some r \<Rightarrow> Some r)"
proof (induction rs arbitrary: M)
  case (Cons r rs)
  have "find (\<lambda>x. mr_version x = mr_version r) rs = None" using Cons.prems by (auto simp: find_None_iff) (metis imageI)
  with Cons show ?case by (auto split: option.split)
qed simp

lemma recorded_result:
  assumes "recorded f db = Inr applied" and "mig_ok db"
  shows "md_records db = Some (records db)" and "applied v = find (\<lambda>r. mr_version r = v) (records db)"
  using assms fold_record_map [of "records db" Map.empty v]
  by (auto simp: recorded_def records_def mig_ok_def split: read_fault.splits option.splits)

subsection \<open>One migration\<close>

text \<open>A transaction leaves no trace, or its script and its record together.\<close>

definition migrated :: "mig_options \<Rightarrow> migration \<Rightarrow> mig_record \<Rightarrow> mig_db \<Rightarrow> mig_db \<Rightarrow> bool" where
  "migrated opts m rec db db' \<longleftrightarrow>
     db' = commit_migration opts m rec db \<and> rec_key rec = mig_key m
     \<and> md_records db \<noteq> None \<and> mg_version m \<notin> mr_version ` set (records db)"

lemma apply_atomic:
  assumes "mig_apply ae opts m db = (db', res)"
  shows "(db' = db \<and> (\<exists>e. res = Inl e)) \<or> (\<exists>rec. migrated opts m rec db db' \<and> (res = Inr rec \<or> (\<exists>e. res = Inl e)))"
  using assms
  by (auto simp: mig_apply_def insert_record_def migrated_def records_def rec_key_def mig_key_def record_of_def
      split: option.splits sum.splits fault.splits if_splits)

lemma apply_succeeds:
  assumes "ae_begin ae = None" "ae_exec ae = None" "ae_insert ae = None" "ae_commit ae = NoFault"
    and "md_records db \<noteq> None" "mg_version m \<notin> mr_version ` set (records db)"
    and "in_int4 (mg_version m)"
  shows "\<exists>rec. mig_apply ae opts m db = (commit_migration opts m rec db, Inr rec)"
  using assms by (auto simp: mig_apply_def insert_record_def records_def)

lemma migrated_effect:
  assumes "migrated opts m rec db db'"
  shows "records db' = records db @ [rec]" and "md_records db' \<noteq> None"
    and "md_scripts db' = md_scripts db @ [(m, substitute (mg_template m) opts)]"
  using assms by (auto simp: migrated_def commit_migration_def records_def)

lemma migrated_ok:
  assumes "migrated opts m rec db db'" and "mig_ok db"
  shows "mig_ok db'"
proof -
  have "mr_version rec = mg_version m" using assms(1) by (simp add: migrated_def rec_key_def mig_key_def)
  with assms show ?thesis by (auto simp: mig_ok_def migrated_effect [OF assms(1)]) (auto simp: migrated_def)
qed

lemma migrate_one_cases:
  assumes "migrate_one ae opts applied m db = (db', res)"
  obtains (Skip) prev where "applied (mg_version m) = Some prev" "mr_checksum prev = mg_checksum m" "db' = db" "res = Inr None"
  | (Mismatch) prev where "applied (mg_version m) = Some prev" "mr_checksum prev \<noteq> mg_checksum m" "db' = db"
      "res = Inl (mismatch_error m prev)"
  | (Fails) e where "applied (mg_version m) = None" "db' = db" "res = Inl e"
  | (Applied) rec where "applied (mg_version m) = None" "migrated opts m rec db db'" "res = Inr (Some rec)"
  | (Lost) rec e where "applied (mg_version m) = None" "migrated opts m rec db db'" "res = Inl e"
proof (cases "applied (mg_version m)")
  case None
  obtain d r where a: "mig_apply ae opts m db = (d, r)" by (metis surj_pair)
  with None assms apply_atomic [OF a] show ?thesis
    by (auto simp: migrate_one_def split: sum.splits intro: Fails Applied Lost)
next
  case (Some prev)
  with assms show ?thesis by (auto simp: migrate_one_def split: if_splits intro: Skip Mismatch)
qed

subsection \<open>The loop\<close>

definition unrecorded :: "(int \<rightharpoonup> mig_record) \<Rightarrow> migration list \<Rightarrow> migration list" where
  "unrecorded applied ms = filter (\<lambda>m. applied (mg_version m) = None) ms"

text \<open>
  What a run leaves: a prefix of the unrecorded migrations has been committed, in order, each with its
  record, and what the run reports is a prefix of those records.
\<close>

definition progress :: "mig_options \<Rightarrow> migration list \<Rightarrow> mig_db \<Rightarrow> mig_db \<Rightarrow> mig_record list \<Rightarrow> bool" where
  "progress opts todo db db' reported \<longleftrightarrow> (\<exists>ran news. prefix ran todo
     \<and> md_scripts db' = md_scripts db @ map (\<lambda>m. (m, substitute (mg_template m) opts)) ran
     \<and> records db' = records db @ news \<and> map rec_key news = map mig_key ran \<and> prefix reported news)"

lemma progress_none: "progress opts todo db db []"
  by (auto simp: progress_def)

lemma progress_step:
  assumes "migrated opts m rec db db1" and "progress opts todo db1 db' reported"
  shows "progress opts (m # todo) db db' (rec # reported)"
proof -
  obtain ran news where "prefix ran todo" "md_scripts db' = md_scripts db1 @ map (\<lambda>m. (m, substitute (mg_template m) opts)) ran"
     "records db' = records db1 @ news" "map rec_key news = map mig_key ran" "prefix reported news"
    using assms(2) by (auto simp: progress_def)
  then show ?thesis
    using migrated_effect [OF assms(1)] assms(1) unfolding progress_def migrated_def
    by (intro exI [of _ "m # ran"] exI [of _ "rec # news"]) auto
qed

lemma progress_lost: "migrated opts m rec db db' \<Longrightarrow> progress opts (m # todo) db db' []"
  using progress_step [OF _ progress_none] by (fastforce simp: progress_def)

lemma run_loop_progress:
  assumes "run_loop ae opts applied acc ms db = (db', acc', e)" and "mig_ok db"
  shows "mig_ok db' \<and> (\<exists>reported. acc' = acc @ reported \<and> progress opts (unrecorded applied ms) db db' reported)"
  using assms
proof (induction ms arbitrary: acc db)
  case Nil
  then show ?case using progress_none by auto
next
  case (Cons m ms)
  obtain db1 res where one: "migrate_one (ae (mg_version m)) opts applied m db = (db1, res)" by (metis surj_pair)
  from one show ?case
  proof (cases rule: migrate_one_cases)
    case (Applied rec)
    have "run_loop ae opts applied (acc @ [rec]) ms db1 = (db', acc', e)" using Cons.prems(1) one Applied(3) by simp
    from Cons.IH [OF this migrated_ok [OF Applied(2) Cons.prems(2)]] Applied show ?thesis
      by (fastforce simp: unrecorded_def dest: progress_step)
  qed (use Cons one in \<open>auto simp: unrecorded_def progress_none intro: migrated_ok progress_lost\<close>)
qed

text \<open>A run without an error has committed all of them.\<close>

lemma run_loop_complete:
  assumes "run_loop ae opts applied acc ms db = (db', acc', None)"
  shows "\<exists>news. acc' = acc @ news \<and> records db' = records db @ news
      \<and> map rec_key news = map mig_key (unrecorded applied ms)
      \<and> (\<forall>m \<in> set ms. \<forall>prev. applied (mg_version m) = Some prev \<longrightarrow> mr_checksum prev = mg_checksum m)"
  using assms
proof (induction ms arbitrary: acc db)
  case (Cons m ms)
  obtain db1 res where one: "migrate_one (ae (mg_version m)) opts applied m db = (db1, res)" by (metis surj_pair)
  from one show ?case
  proof (cases rule: migrate_one_cases)
    case (Applied rec)
    have "run_loop ae opts applied (acc @ [rec]) ms db1 = (db', acc', None)" using Cons.prems one Applied(3) by simp
    from Cons.IH [OF this] Applied migrated_effect(1) [OF Applied(2)] show ?thesis
      by (auto simp: unrecorded_def migrated_def)
  qed (use Cons one in \<open>auto simp: unrecorded_def\<close>)
qed (simp add: unrecorded_def)

lemma run_loop_append:
  "run_loop ae opts applied acc (xs @ ys) db =
     (case run_loop ae opts applied acc xs db of
        (db', acc', None) \<Rightarrow> run_loop ae opts applied acc' ys db'
      | (db', acc', Some e) \<Rightarrow> (db', acc', Some e))"
  by (induction xs arbitrary: acc db) (auto split: prod.split sum.split option.split)


subsection \<open>The run\<close>

lemma Run_cases:
  assumes "migrate_Run env opts db = Some (db', reported, res)" and "load (me_sha256 env) (me_dir env) = Inr ms" and "mig_ok db"
  obtains (Early) e where "records db' = records db" "md_scripts db' = md_scripts db" "reported = []" "res = Some e"
  | (Looped) db1 applied where "records db1 = records db" "md_scripts db1 = md_scripts db" "mig_ok db1"
      "md_records db1 = Some (records db1)" "\<And>v. applied v = find (\<lambda>r. mr_version r = v) (records db)"
      "run_loop (me_apply env) opts applied [] ms db1 = (db', reported, res)"
proof (cases "mig_lock opts (me_rounds env) = Some None")
  case True
  obtain db1 r where b: "bootstrap (me_schema_fault env) (me_table_fault env) db = (db1, r)" by (metis surj_pair)
  note k = bootstrap_keeps [OF b]
  have ok: "mig_ok db1" using assms(3) k by (simp add: mig_ok_def)
  show ?thesis
  proof (cases "\<exists>applied. r = None \<and> recorded (me_read_fault env) db1 = Inr applied")
    case True
    then obtain applied where a: "r = None" "recorded (me_read_fault env) db1 = Inr applied" by blast
    have "run_loop (me_apply env) opts applied [] ms db1 = (db', reported, res)"
      using assms(1,2) b a \<open>mig_lock opts (me_rounds env) = Some None\<close> by (simp add: migrate_Run_def)
    then show ?thesis using k(1) recorded_result(2) [OF a(2) ok]
      by (intro Looped [OF k(1,2) ok recorded_result(1) [OF a(2) ok]]) simp_all
  next
    case False
    then show ?thesis using assms(1,2) b k \<open>mig_lock opts (me_rounds env) = Some None\<close>
      by (auto simp: migrate_Run_def split: option.splits sum.splits intro: Early)
  qed
next
  case False
  then show ?thesis using assms(1,2) by (auto simp: migrate_Run_def split: option.splits intro: Early)
qed

abbreviation (input) recorded_in :: "mig_db \<Rightarrow> int \<rightharpoonup> mig_record" where
  "recorded_in db \<equiv> \<lambda>v. find (\<lambda>r. mr_version r = v) (records db)"

lemma Run_progress:
  assumes "migrate_Run env opts db = Some (db', reported, res)" and "load (me_sha256 env) (me_dir env) = Inr ms" and "mig_ok db"
  shows "mig_ok db' \<and> progress opts (unrecorded (recorded_in db) ms) db db' reported"
  using assms
proof (cases rule: Run_cases)
  case (Early e)
  then show ?thesis using assms(3) by (auto simp: mig_ok_def progress_def)
next
  case (Looped db1 applied)
  have "applied = recorded_in db" using Looped(5) by blast
  with run_loop_progress [OF Looped(6,3)] show ?thesis using Looped(1,2) by (auto simp: progress_def)
qed

lemma Run_complete:
  assumes "migrate_Run env opts db = Some (db', reported, None)" and "load (me_sha256 env) (me_dir env) = Inr ms" and "mig_ok db"
  shows "records db' = records db @ reported \<and> map rec_key reported = map mig_key (unrecorded (recorded_in db) ms)"
    and "m \<in> set ms \<Longrightarrow> \<exists>r \<in> set (records db'). mr_version r = mg_version m \<and> mr_checksum r = mg_checksum m"
proof -
  from assms have *: "records db' = records db @ reported \<and> map rec_key reported = map mig_key (unrecorded (recorded_in db) ms)
      \<and> (\<forall>m \<in> set ms. \<forall>prev. recorded_in db (mg_version m) = Some prev \<longrightarrow> mr_checksum prev = mg_checksum m)"
  proof (cases rule: Run_cases)
    case (Looped db1 applied)
    have "applied = recorded_in db" using Looped(5) by blast
    with run_loop_complete [OF Looped(6)] show ?thesis using Looped(1) by auto
  qed simp
  then show "records db' = records db @ reported \<and> map rec_key reported = map mig_key (unrecorded (recorded_in db) ms)" by blast
  assume m: "m \<in> set ms"
  show "\<exists>r \<in> set (records db'). mr_version r = mg_version m \<and> mr_checksum r = mg_checksum m"
  proof (cases "recorded_in db (mg_version m)")
    case None
    with m have "mig_key m \<in> set (map mig_key (unrecorded (recorded_in db) ms))" by (simp add: unrecorded_def)
    then have "mig_key m \<in> rec_key ` set reported" using * by (metis list.set_map)
    then show ?thesis using * by (auto simp: rec_key_def mig_key_def)
  next
    case (Some prev)
    with * m find_Some_mem [OF Some] show ?thesis by auto
  qed
qed

text \<open>An edited file stops the run before any later migration.\<close>

lemma Run_mismatch:
  assumes "migrate_Run env opts db = Some (db', reported, res)" and "load (me_sha256 env) (me_dir env) = Inr ms" and "mig_ok db"
    and "m \<in> set ms" and "recorded_in db (mg_version m) = Some prev" and "mr_checksum prev \<noteq> mg_checksum m"
  shows "res \<noteq> None \<and> progress opts (filter (\<lambda>x. mg_version x < mg_version m) (unrecorded (recorded_in db) ms)) db db' reported"
  using assms(1-3)
proof (cases rule: Run_cases)
  case (Early e)
  then show ?thesis by (auto simp: progress_def)
next
  case (Looped db1 applied)
  have a: "applied = recorded_in db" using Looped(5) by blast
  obtain xs ys where ms: "ms = xs @ m # ys" using assms(4) by (metis split_list)
  have lt: "x \<in> set xs \<Longrightarrow> mg_version x < mg_version m" "x \<in> set ys \<Longrightarrow> mg_version m < mg_version x" for x
    using load_result(1) [OF assms(2)] by (auto simp: ms sorted_wrt_append)
  have "filter (\<lambda>x. mg_version x < mg_version m) (filter P xs) = filter P xs"
    "filter (\<lambda>x. mg_version x < mg_version m) (filter P ys) = []" for P
    using lt by (fastforce simp: filter_empty_conv intro: filter_True)+
  then have below: "filter (\<lambda>x. mg_version x < mg_version m) (unrecorded (recorded_in db) ms) = unrecorded (recorded_in db) xs"
    using assms(5) by (simp add: ms unrecorded_def del: filter_filter)
  obtain db2 acc2 e2 where xs: "run_loop (me_apply env) opts applied [] xs db1 = (db2, acc2, e2)" by (metis prod_cases3)
  have m: "migrate_one (me_apply env (mg_version m)) opts applied m db2 = (db2, Inl (mismatch_error m prev))"
    using assms(5,6) a by (simp add: migrate_one_def)
  have "db' = db2 \<and> reported = acc2 \<and> res \<noteq> None"
    using Looped(6) xs m by (auto simp: ms run_loop_append split: option.splits)
  with run_loop_progress [OF xs Looped(3)] show ?thesis using Looped(1,2) below a by (auto simp: progress_def)
qed


text \<open>A later run that meets no failure finds nothing to do, whatever its options.\<close>

definition no_trouble :: "mig_env \<Rightarrow> bool" where
  "no_trouble env \<longleftrightarrow> (\<exists>r rs. me_rounds env = r # rs \<and> lr_answer r = Inr True) \<and> me_schema_fault env = NoFault
     \<and> me_table_fault env = NoFault \<and> me_read_fault env = ReadOk"

lemma run_loop_idle:
  "(\<And>m. m \<in> set ms \<Longrightarrow> \<exists>r. applied (mg_version m) = Some r \<and> mr_checksum r = mg_checksum m)
   \<Longrightarrow> run_loop ae opts applied acc ms db = (db, acc, None)"
proof (induction ms arbitrary: acc)
  case (Cons m ms)
  then obtain r where "applied (mg_version m) = Some r" "mr_checksum r = mg_checksum m" by fastforce
  with Cons show ?case by (simp add: migrate_one_def)
qed simp

lemma Run_again:
  assumes "no_trouble env" and "load (me_sha256 env) (me_dir env) = Inr ms" and "mig_ok db" and "md_schema db" and "md_records db \<noteq> None"
    and "\<And>m. m \<in> set ms \<Longrightarrow> \<exists>r \<in> set (records db). mr_version r = mg_version m \<and> mr_checksum r = mg_checksum m"
  shows "migrate_Run env opts db = Some (db, [], None)"
proof -
  have b: "bootstrap (me_schema_fault env) (me_table_fault env) db = (db, None)"
    using assms(1,4,5) by (auto simp: no_trouble_def bootstrap_def exec_ddl_def create_schema_def create_bookkeeping_def)
  obtain applied where a: "recorded (me_read_fault env) db = Inr applied"
    using assms(1,5) by (auto simp: no_trouble_def recorded_def)
  have "\<exists>r. applied (mg_version m) = Some r \<and> mr_checksum r = mg_checksum m" if m: "m \<in> set ms" for m
  proof -
    obtain r where r: "r \<in> set (records db)" "mr_version r = mg_version m" "mr_checksum r = mg_checksum m" using assms(6) [OF m] by blast
    obtain q where q: "find (\<lambda>r. mr_version r = mg_version m) (records db) = Some q"
      using r by (metis (mono_tags, lifting) find_None_iff not_Some_eq)
    have "inj_on mr_version (set (records db))" using assms(3) by (simp add: mig_ok_def distinct_map)
    then have "q = r" using find_Some_mem [OF q] r by (metis inj_onD)
    then show ?thesis using recorded_result(2) [OF a assms(3)] q r by simp
  qed
  then have "run_loop (me_apply env) opts applied [] ms db = (db, [], None)" by (rule run_loop_idle)
  moreover have "mig_lock opts (me_rounds env) = Some None" using assms(1) by (auto simp: no_trouble_def)
  ultimately show ?thesis using b a assms(2) by (simp add: migrate_Run_def)
qed

lemma run_loop_schema: "run_loop ae opts applied acc ms db = (db', acc', e) \<Longrightarrow> md_schema db' = md_schema db"
proof (induction ms arbitrary: acc db)
  case (Cons m ms)
  obtain db1 res where one: "migrate_one (ae (mg_version m)) opts applied m db = (db1, res)" by (metis surj_pair)
  from one have "md_schema db1 = md_schema db"
    by (cases rule: migrate_one_cases) (auto simp: migrated_def commit_migration_def)
  with one Cons show ?case by (cases res) (auto split: option.splits)
qed simp

subsection \<open>Several replicas\<close>

text \<open>
  Every replica opens a connection of its own, so the session of replica \<open>i\<close> is \<open>i\<close>, and may be of another
  build, shipping other files.  A crash is the loss of its connection at any moment.
\<close>

datatype mig_phase = Waiting | Locked | Running "int \<rightharpoonup> mig_record" "migration list" | Leaving | Gone

record mig_cluster =
  mc_locks :: "(int \<times> nat) list"
  mc_db :: mig_db
  mc_phase :: "nat \<Rightarrow> mig_phase"

inductive mig_step :: "mig_options \<Rightarrow> (nat \<Rightarrow> migration list) \<Rightarrow> mig_cluster \<Rightarrow> mig_cluster \<Rightarrow> bool"
  for opts :: mig_options and build :: "nat \<Rightarrow> migration list" where
  Acquire: "mc_phase s i = Waiting \<Longrightarrow> pg_try_advisory_lock (mo_lock_key opts) i (mc_locks s) = (ls, True) \<Longrightarrow>
    mig_step opts build s (s\<lparr>mc_locks := ls, mc_phase := (mc_phase s)(i := Locked)\<rparr>)"
| Prepare: "mc_phase s i = Locked \<Longrightarrow> bootstrap f1 f2 (mc_db s) = (db, None) \<Longrightarrow> recorded rf db = Inr applied \<Longrightarrow>
    mig_step opts build s (s\<lparr>mc_db := db, mc_phase := (mc_phase s)(i := Running applied (build i))\<rparr>)"
| Unprepared: "mc_phase s i = Locked \<Longrightarrow> bootstrap f1 f2 (mc_db s) = (db, res) \<Longrightarrow>
    mig_step opts build s (s\<lparr>mc_db := db, mc_phase := (mc_phase s)(i := Leaving)\<rparr>)"
| Advance: "mc_phase s i = Running applied (m # ms) \<Longrightarrow> migrate_one ae opts applied m (mc_db s) = (db, Inr rec) \<Longrightarrow>
    mig_step opts build s (s\<lparr>mc_db := db, mc_phase := (mc_phase s)(i := Running applied ms)\<rparr>)"
| Stop: "mc_phase s i = Running applied (m # ms) \<Longrightarrow> migrate_one ae opts applied m (mc_db s) = (db, Inl e) \<Longrightarrow>
    mig_step opts build s (s\<lparr>mc_db := db, mc_phase := (mc_phase s)(i := Leaving)\<rparr>)"
| Leave: "mc_phase s i = Leaving \<or> (\<exists>applied. mc_phase s i = Running applied []) \<Longrightarrow>
    mig_step opts build s (s\<lparr>mc_locks := remove1 (mo_lock_key opts, i) (mc_locks s), mc_phase := (mc_phase s)(i := Gone)\<rparr>)"
| Crash: "mig_step opts build s (s\<lparr>mc_locks := filter (\<lambda>h. snd h \<noteq> i) (mc_locks s), mc_phase := (mc_phase s)(i := Gone)\<rparr>)"

inductive mig_reach :: "mig_options \<Rightarrow> (nat \<Rightarrow> migration list) \<Rightarrow> mig_db \<Rightarrow> mig_cluster \<Rightarrow> bool"
  for opts :: mig_options and build :: "nat \<Rightarrow> migration list" and db0 :: mig_db where
  Boot: "mig_reach opts build db0 \<lparr>mc_locks = [], mc_db = db0, mc_phase = (\<lambda>_. Waiting)\<rparr>"
| Next: "mig_reach opts build db0 s \<Longrightarrow> mig_step opts build s s' \<Longrightarrow> mig_reach opts build db0 s'"

fun inside :: "mig_phase \<Rightarrow> bool" where
  "inside Waiting = False"
| "inside Gone = False"
| "inside _ = True"

text \<open>A replica inside holds the lock alone, and the records of the migrations still ahead of it are those it read.\<close>

definition mig_inv :: "int \<Rightarrow> mig_db \<Rightarrow> mig_cluster \<Rightarrow> bool" where
  "mig_inv key db0 s \<longleftrightarrow>
     mig_ok (mc_db s) \<and> prefix (records db0) (records (mc_db s)) \<and> prefix (md_scripts db0) (md_scripts (mc_db s))
     \<and> (\<forall>i. inside (mc_phase s i) \<longrightarrow> (key, i) \<in> set (mc_locks s))
     \<and> (\<forall>i j. (key, i) \<in> set (mc_locks s) \<longrightarrow> (key, j) \<in> set (mc_locks s) \<longrightarrow> i = j)
     \<and> (\<forall>i applied ms. mc_phase s i = Running applied ms \<longrightarrow>
          md_records (mc_db s) \<noteq> None \<and> distinct (map mg_version ms)
          \<and> (\<forall>m \<in> set ms. applied (mg_version m) = recorded_in (mc_db s) (mg_version m)))"


lemma inside_Running: "inside p \<longleftrightarrow> p = Locked \<or> p = Leaving \<or> (\<exists>applied ms. p = Running applied ms)"
  by (cases p) auto

lemma mig_inv_alone: "mig_inv key db0 s \<Longrightarrow> inside (mc_phase s i) \<Longrightarrow> inside (mc_phase s j) \<Longrightarrow> i = j"
  unfolding mig_inv_def by blast

lemma mig_inv_Running:
  assumes "mig_inv key db0 s" and "mc_phase s i = Running applied ms"
  shows "md_records (mc_db s) \<noteq> None" and "distinct (map mg_version ms)"
    and "m \<in> set ms \<Longrightarrow> applied (mg_version m) = recorded_in (mc_db s) (mg_version m)"
  using assms unfolding mig_inv_def by blast+

text \<open>A step of a replica that is inside: the database may grow, the locks stay.\<close>

lemma mig_inv_work:
  assumes "mig_inv key db0 s" and "inside (mc_phase s i)" and "inside p"
    and "mig_ok db" and "prefix (records (mc_db s)) (records db)" and "prefix (md_scripts (mc_db s)) (md_scripts db)"
    and "\<And>applied ms. p = Running applied ms \<Longrightarrow> md_records db \<noteq> None \<and> distinct (map mg_version ms)
          \<and> (\<forall>m \<in> set ms. applied (mg_version m) = recorded_in db (mg_version m))"
  shows "mig_inv key db0 (s\<lparr>mc_db := db, mc_phase := (mc_phase s)(i := p)\<rparr>)"
proof -
  have "j = i" if "mc_phase s j = Running applied ms" for j applied ms
    using mig_inv_alone [OF assms(1) assms(2), of j] that by simp
  with assms show ?thesis unfolding mig_inv_def
    by (auto intro: prefix_order.trans simp del: inside.simps split: if_splits)
qed

text \<open>A step that frees a replica's lock.\<close>

lemma mig_inv_free:
  assumes "mig_inv key db0 s" and "set ls \<subseteq> set (mc_locks s)" and "\<And>j. j \<noteq> i \<Longrightarrow> (key, j) \<in> set (mc_locks s) \<Longrightarrow> (key, j) \<in> set ls"
  shows "mig_inv key db0 (s\<lparr>mc_locks := ls, mc_phase := (mc_phase s)(i := Gone)\<rparr>)"
proof -
  have "a = b" if "(key, a) \<in> set ls" "(key, b) \<in> set ls" for a b using assms(1,2) that unfolding mig_inv_def by blast
  moreover have "(key, j) \<in> set ls" if "j \<noteq> i" "inside (mc_phase s j)" for j using assms that unfolding mig_inv_def by blast
  ultimately show ?thesis using assms(1) unfolding mig_inv_def by (auto split: if_splits)
qed

lemma recorded_in_snoc: "records db' = records db @ [rec] \<Longrightarrow> mr_version rec \<noteq> v \<Longrightarrow> recorded_in db' v = recorded_in db v"
proof -
  have "find P (xs @ [x]) = find P xs" if "\<not> P x" for P and xs :: "mig_record list" and x using that by (induction xs) auto
  then show "records db' = records db @ [rec] \<Longrightarrow> mr_version rec \<noteq> v \<Longrightarrow> recorded_in db' v = recorded_in db v" by simp
qed

text \<open>A step over one script leaves the rest of the run as it was planned.\<close>

lemma advance_recorded:
  assumes "mig_inv key db0 s" and "mc_phase s i = Running applied (m # ms)"
    and "migrate_one ae opts applied m (mc_db s) = (db, Inr rec)"
  shows "md_records db \<noteq> None \<and> distinct (map mg_version ms)
    \<and> (\<forall>x \<in> set ms. applied (mg_version x) = recorded_in db (mg_version x))"
proof -
  note run = mig_inv_Running [OF assms(1,2)]
  from assms(3) show ?thesis
  proof (cases rule: migrate_one_cases)
    case (Applied r)
    have v: "mr_version r = mg_version m" using Applied(2) by (simp add: migrated_def rec_key_def mig_key_def)
    have "recorded_in db (mg_version x) = recorded_in (mc_db s) (mg_version x)" if "x \<in> set ms" for x
      using run(2) that v by (intro recorded_in_snoc [OF migrated_effect(1) [OF Applied(2)]]) auto
    then show ?thesis using run migrated_effect(2) [OF Applied(2)] by simp
  qed (use run in auto)
qed

lemma mig_inv_step:
  assumes "mig_step opts build s s'" and "mig_inv (mo_lock_key opts) db0 s" and "\<And>i. distinct (map mg_version (build i))"
  shows "mig_inv (mo_lock_key opts) db0 s'"
  using assms(1,2)
proof (induction rule: mig_step.induct)
  case (Acquire s i ls)
  then have "ls = (mo_lock_key opts, i) # mc_locks s" "\<And>j. (mo_lock_key opts, j) \<in> set (mc_locks s) \<Longrightarrow> j = i"
    by (auto simp: pg_try_advisory_lock_def split: if_splits)
  with Acquire(3) show ?case unfolding mig_inv_def by (auto split: if_splits)
next
  case (Prepare s i f1 f2 db rf applied)
  have ok: "mig_ok db" using Prepare(4) bootstrap_keeps [OF Prepare(2)] by (simp add: mig_inv_def mig_ok_def)
  show ?case
    by (rule mig_inv_work [OF Prepare(4)])
      (use Prepare(1) ok bootstrap_keeps [OF Prepare(2)] recorded_result [OF Prepare(3) ok] assms(3) in auto)
next
  case (Unprepared s i f1 f2 db res)
  have ok: "mig_ok db" using Unprepared(3) bootstrap_keeps [OF Unprepared(2)] by (simp add: mig_inv_def mig_ok_def)
  show ?case
    by (rule mig_inv_work [OF Unprepared(3)]) (use Unprepared(1) ok bootstrap_keeps [OF Unprepared(2)] in auto)
next
  case (Advance s i applied m ms ae db rec)
  have ok: "mig_ok (mc_db s)" using Advance(3) by (simp add: mig_inv_def)
  show ?case
    by (rule mig_inv_work [OF Advance(3)])
      (use Advance(1,2) ok advance_recorded [OF Advance(3,1,2)] in
        \<open>auto elim!: migrate_one_cases simp: migrated_effect intro: migrated_ok\<close>)
next
  case (Stop s i applied m ms ae db e)
  have ok: "mig_ok (mc_db s)" using Stop(3) by (simp add: mig_inv_def)
  show ?case
    by (rule mig_inv_work [OF Stop(3)]) (use Stop(1,2) ok in \<open>auto elim!: migrate_one_cases simp: migrated_effect intro: migrated_ok\<close>)
next
  case (Leave s i)
  show ?case
    by (rule mig_inv_free [OF Leave(2)]) (auto dest: in_set_remove1 [THEN iffD2, rotated] set_remove1_subset [THEN subsetD])
next
  case (Crash s i)
  show ?case by (rule mig_inv_free [OF Crash]) auto
qed

lemma mig_reach_inv:
  assumes "mig_reach opts build db0 s" and "mig_ok db0" and "\<And>i. distinct (map mg_version (build i))"
  shows "mig_inv (mo_lock_key opts) db0 s"
  using assms(1)
proof (induction rule: mig_reach.induct)
  case Boot
  then show ?case using assms(2) by (simp add: mig_inv_def)
next
  case (Next s s')
  then show ?case using mig_inv_step assms(3) by blast
qed


lemma Run_schema: "migrate_Run env opts db = Some (db', reported, None) \<Longrightarrow> md_schema db'"
  by (auto simp: migrate_Run_def bootstrap_def exec_ddl_def create_schema_def create_bookkeeping_def
      dest!: run_loop_schema split: sum.splits option.splits prod.splits fault.splits)

lemma progress_below:
  assumes "progress opts (filter P todo) db db' reported"
  shows "list_all (\<lambda>(m, _). P m) (drop (length (md_scripts db)) (md_scripts db'))"
proof -
  obtain ran where "prefix ran (filter P todo)"
    and s: "md_scripts db' = md_scripts db @ map (\<lambda>m. (m, substitute (mg_template m) opts)) ran"
    using assms by (auto simp: progress_def)
  then have "set ran \<subseteq> {m. P m}" using set_mono_prefix [of ran "filter P todo"] by auto
  then show ?thesis by (auto simp: s list_all_iff)
qed

lemma Run_then_idle:
  assumes "migrate_Run env opts db = Some (db', reported, None)" and "load (me_sha256 env) (me_dir env) = Inr ms" and "mig_ok db"
    and "no_trouble env'" and "load (me_sha256 env') (me_dir env') = Inr ms" and "md_records db' \<noteq> None"
  shows "migrate_Run env' opts' db' = Some (db', [], None)"
proof -
  have "mig_ok db'" using Run_progress [OF assms(1-3)] by simp
  then show ?thesis using Run_complete(2) [OF assms(1-3)] Run_schema [OF assms(1)] assms(4-6) by (intro Run_again) auto
qed

lemma Run_records: 
  assumes "migrate_Run env opts db = Some (db', reported, None)" and "load (me_sha256 env) (me_dir env) = Inr ms" and "mig_ok db"
  shows "md_records db' \<noteq> None"
  using assms
proof (cases rule: Run_cases)
  case (Looped db1 applied)
  have "md_records d \<noteq> None \<Longrightarrow> run_loop (me_apply env) opts applied acc xs d = (d', acc', e') \<Longrightarrow> md_records d' \<noteq> None"
    for acc xs d d' acc' e'
  proof (induction xs arbitrary: acc d)
    case (Cons m xs)
    obtain d1 res where one: "migrate_one (me_apply env (mg_version m)) opts applied m d = (d1, res)" by (metis surj_pair)
    from one Cons.prems(1) have "md_records d1 \<noteq> None"
      by (cases rule: migrate_one_cases) (auto dest: migrated_effect(2))
    with one Cons show ?case by (cases res) (auto split: option.splits)
  qed simp
  from this [OF _ Looped(6)] Looped(4) show ?thesis by simp
qed simp

subsection \<open>Properties\<close>

text \<open>
  C37.  A run of the migrations, whatever fails.  The migrations that the run committed are the first few of
  those that were not recorded, in ascending order of version; each was recorded in the transaction of its
  script, so a script has run exactly when it is recorded and no version has run twice; earlier records
  stand.  Of these the run reports the ones it saw commit.  When it returns nil, every shipped migration
  is recorded with its checksum, the run reports exactly what it applied, and a later run of the same build that meets no
  failure applies nothing.  When a shipped file differs from what was recorded for its version, the run fails
  and commits nothing from that version on.
\<close>

theorem migrations_run_once:
  assumes "migrate_Run env opts db = Some (db', reported, res)" and "load (me_sha256 env) (me_dir env) = Inr ms" and "mig_ok db"
  shows "mig_ok db' \<and> progress opts (unrecorded (recorded_in db) ms) db db' reported
    \<and> (res = None \<longrightarrow> records db' = records db @ reported
        \<and> map rec_key reported = map mig_key (unrecorded (recorded_in db) ms)
        \<and> (\<forall>m \<in> set ms. \<exists>r \<in> set (records db'). mr_version r = mg_version m \<and> mr_checksum r = mg_checksum m)
        \<and> (\<forall>env' opts'. no_trouble env' \<and> load (me_sha256 env') (me_dir env') = Inr ms
             \<longrightarrow> migrate_Run env' opts' db' = Some (db', [], None)))
    \<and> (\<forall>m prev. m \<in> set ms \<and> recorded_in db (mg_version m) = Some prev \<and> mr_checksum prev \<noteq> mg_checksum m
        \<longrightarrow> res \<noteq> None \<and> list_all (\<lambda>(x, _). mg_version x < mg_version m) (drop (length (md_scripts db)) (md_scripts db')))"
proof (intro conjI impI allI ballI)
  show "mig_ok db'" "progress opts (unrecorded (recorded_in db) ms) db db' reported" using Run_progress [OF assms] by simp_all
next
  assume "res = None"
  note run = assms(1) [unfolded this] assms(2,3)
  show "records db' = records db @ reported" "map rec_key reported = map mig_key (unrecorded (recorded_in db) ms)"
    using Run_complete(1) [OF run] by simp_all
  show "\<exists>r \<in> set (records db'). mr_version r = mg_version m \<and> mr_checksum r = mg_checksum m" if "m \<in> set ms" for m
    using Run_complete(2) [OF run that] .
  show "migrate_Run env' opts' db' = Some (db', [], None)"
    if "no_trouble env' \<and> load (me_sha256 env') (me_dir env') = Inr ms" for env' opts'
    using Run_then_idle [OF run _ _ Run_records [OF run]] that by simp
next
  fix m prev assume "m \<in> set ms \<and> recorded_in db (mg_version m) = Some prev \<and> mr_checksum prev \<noteq> mg_checksum m"
  with Run_mismatch [OF assms, of m prev] progress_below [of opts "\<lambda>x. mg_version x < mg_version m"]
  show "res \<noteq> None" "list_all (\<lambda>(x, _). mg_version x < mg_version m) (drop (length (md_scripts db)) (md_scripts db'))"
    by blast+
qed

text \<open>Two files against an empty database; the commit of the second is lost after it took effect.\<close>

definition demo_files :: "dir_entry list" where
  "demo_files =
     [\<lparr>de_name = ''embed.go'', de_is_dir = False, de_body = Inr []\<rparr>,
      \<lparr>de_name = ''2_b.sql'', de_is_dir = False, de_body = Inr ''b''\<rparr>,
      \<lparr>de_name = ''1_a.sql'', de_is_dir = False, de_body = Inr ''@table@''\<rparr>]"

definition demo_options :: mig_options where
  "demo_options = \<lparr>mo_schema = ''s'', mo_table = ''t'', mo_channel = ''c'', mo_lock_key = 7, mo_lock_timeout = 0\<rparr>"

definition demo_mig_env :: mig_env where
  "demo_mig_env = \<lparr>me_dir = Inr demo_files, me_sha256 = (\<lambda>s. s), me_rounds = [\<lparr>lr_answer = Inr True, lr_late = False, lr_ctx = None\<rparr>],
     me_schema_fault = NoFault, me_table_fault = NoFault, me_read_fault = ReadOk,
     me_apply = (\<lambda>v. \<lparr>ae_begin = None, ae_exec = None, ae_insert = None,
        ae_commit = (if v = 2 then FailAfter IoEOF else NoFault), ae_now = v\<rparr>)\<rparr>"

definition demo_migrations :: "migration list" where
  "demo_migrations = [\<lparr>mg_version = 1, mg_name = ''a'', mg_template = ''@table@'', mg_checksum = ''@table@''\<rparr>,
     \<lparr>mg_version = 2, mg_name = ''b'', mg_template = ''b'', mg_checksum = ''b''\<rparr>]"

definition empty_mig_db :: mig_db where
  "empty_mig_db = \<lparr>md_schema = False, md_records = None, md_scripts = []\<rparr>"

lemma demo_load: "load (me_sha256 demo_mig_env) (me_dir demo_mig_env) = Inr demo_migrations"
  by code_simp

lemma demo_empty_ok: "mig_ok empty_mig_db" by code_simp

lemma demo_migrate: "\<exists>db' e. migrate_Run demo_mig_env demo_options empty_mig_db
    = Some (db', [\<lparr>mr_version = 1, mr_name = ''a'', mr_checksum = ''@table@'', mr_applied_at = 1\<rparr>], Some e)
    \<and> map snd (md_scripts db') = [''t'', ''b'']"
  unfolding migrate_Run_def demo_load
  by (simp add: demo_mig_env_def demo_options_def empty_mig_db_def bootstrap_def exec_ddl_def create_schema_def
      create_bookkeeping_def recorded_def demo_migrations_def migrate_one_def mig_apply_def insert_record_def commit_migration_def
      record_of_def in_int4_def max_int32_def substitute_def has_prefix_def)

theorem migrations_run_once_witness:
  "\<exists>db' reported e. migrate_Run demo_mig_env demo_options empty_mig_db = Some (db', reported, Some e)
    \<and> mig_ok db' \<and> length reported = 1 \<and> map snd (md_scripts db') = [''t'', ''b'']"
  using migrations_run_once [OF _ demo_load demo_empty_ok, of demo_options] demo_migrate by fastforce

text \<open>
  C38.  Replicas that start together.  Over every interleaving of any number of replicas, of the same build or
  of different ones, with failures and lost connections at any moment: at most one replica is between
  taking the lock and giving it back; every committed script is recorded and no version was run twice; what was
  there before stands; and a replica that reaches a migration it has not found recorded can apply it, since no other replica
  has done so in the meantime.
\<close>

theorem replicas_migrate_once:
  assumes "mig_reach opts build db0 s" and "mig_ok db0" and "\<And>i. distinct (map mg_version (build i))"
  shows "(\<forall>i j. inside (mc_phase s i) \<and> inside (mc_phase s j) \<longrightarrow> i = j)
    \<and> mig_ok (mc_db s) \<and> distinct (map (mg_version \<circ> fst) (md_scripts (mc_db s)))
    \<and> prefix (records db0) (records (mc_db s)) \<and> prefix (md_scripts db0) (md_scripts (mc_db s))
    \<and> (\<forall>i applied m ms ae. mc_phase s i = Running applied (m # ms) \<and> applied (mg_version m) = None
         \<and> ae_begin ae = None \<and> ae_exec ae = None \<and> ae_insert ae = None \<and> ae_commit ae = NoFault
         \<and> in_int4 (mg_version m)
         \<longrightarrow> (\<exists>rec db'. migrate_one ae opts applied m (mc_db s) = (db', Inr (Some rec)) \<and> migrated opts m rec (mc_db s) db'))"
proof -
  have inv: "mig_inv (mo_lock_key opts) db0 s" using assms by (rule mig_reach_inv)
  have "\<exists>rec db'. migrate_one ae opts applied m (mc_db s) = (db', Inr (Some rec)) \<and> migrated opts m rec (mc_db s) db'"
    if h: "mc_phase s i = Running applied (m # ms)" "applied (mg_version m) = None" "ae_begin ae = None" "ae_exec ae = None"
      "ae_insert ae = None" "ae_commit ae = NoFault" "in_int4 (mg_version m)"
    for i applied m ms ae
  proof -
    note run = mig_inv_Running [OF inv h(1)]
    have "recorded_in (mc_db s) (mg_version m) = None" using run(3) [of m] h(2) by simp
    then have "mg_version m \<notin> mr_version ` set (records (mc_db s))" by (auto simp: find_None_iff)
    from apply_succeeds [OF h(3-6) run(1) this h(7)] obtain rec
      where "mig_apply ae opts m (mc_db s) = (commit_migration opts m rec (mc_db s), Inr rec)" by blast
    with apply_atomic [OF this] h(2) show ?thesis by (auto simp: migrate_one_def)
  qed
  then show ?thesis using inv mig_inv_alone [OF inv] mig_ok_scripts_distinct by (auto simp: mig_inv_def)
qed


text \<open>One of two replicas has the lock and has read the records of an empty database.\<close>

lemma demo_mig_reach: "mig_reach demo_options (\<lambda>_. demo_migrations) empty_mig_db
   \<lparr>mc_locks = [(7, 1)], mc_db = \<lparr>md_schema = True, md_records = Some [], md_scripts = []\<rparr>,
    mc_phase = (\<lambda>_. Waiting)(1 := Running Map.empty demo_migrations)\<rparr>"
proof -
  let ?s0 = "\<lparr>mc_locks = [], mc_db = empty_mig_db, mc_phase = (\<lambda>_. Waiting)\<rparr>"
  let ?s1 = "\<lparr>mc_locks = [(7, 1)], mc_db = empty_mig_db, mc_phase = (\<lambda>_. Waiting)(1 := Locked)\<rparr>"
  have "mig_step demo_options (\<lambda>_. demo_migrations) ?s0 ?s1"
    using mig_step.Acquire [of ?s0 1 demo_options "[(7, 1)]"] by (simp add: pg_try_advisory_lock_def demo_options_def)
  with mig_reach.Boot have "mig_reach demo_options (\<lambda>_. demo_migrations) empty_mig_db ?s1" by (rule mig_reach.Next)
  moreover have "mig_step demo_options (\<lambda>_. demo_migrations) ?s1 (?s1\<lparr>mc_db := \<lparr>md_schema = True, md_records = Some [], md_scripts = []\<rparr>,
      mc_phase := (mc_phase ?s1)(1 := Running Map.empty demo_migrations)\<rparr>)"
    by (rule mig_step.Prepare [of _ _ NoFault NoFault _ ReadOk])
      (simp_all add: bootstrap_def exec_ddl_def create_schema_def create_bookkeeping_def empty_mig_db_def recorded_def)
  ultimately have "mig_reach demo_options (\<lambda>_. demo_migrations) empty_mig_db (?s1\<lparr>mc_db := \<lparr>md_schema = True, md_records = Some [], md_scripts = []\<rparr>,
      mc_phase := (mc_phase ?s1)(1 := Running Map.empty demo_migrations)\<rparr>)" by (rule mig_reach.Next)
  then show ?thesis by simp
qed

theorem replicas_migrate_once_witness:
  "\<exists>(s :: mig_cluster) rec db'. mig_reach demo_options (\<lambda>_. demo_migrations) empty_mig_db s \<and> inside (mc_phase s 1) \<and> mig_ok (mc_db s)
    \<and> migrate_one \<lparr>ae_begin = None, ae_exec = None, ae_insert = None, ae_commit = NoFault, ae_now = 5\<rparr> demo_options Map.empty
        (hd demo_migrations) (mc_db s) = (db', Inr (Some rec)) \<and> migrated demo_options (hd demo_migrations) rec (mc_db s) db'"
proof -
  let ?s = "\<lparr>mc_locks = [(7, 1)], mc_db = \<lparr>md_schema = True, md_records = Some [], md_scripts = []\<rparr>,
    mc_phase = (\<lambda>_. Waiting)(1 := Running Map.empty demo_migrations)\<rparr>"
  have "distinct (map mg_version demo_migrations)" by (simp add: demo_migrations_def)
  note r = replicas_migrate_once [OF demo_mig_reach demo_empty_ok this]
  have "mc_phase ?s 1 = Running Map.empty (hd demo_migrations # tl demo_migrations)" by (simp add: demo_migrations_def)
  moreover have "in_int4 (mg_version (hd demo_migrations))" by (simp add: demo_migrations_def in_int4_def max_int32_def)
  ultimately obtain rec db' where "migrate_one \<lparr>ae_begin = None, ae_exec = None, ae_insert = None, ae_commit = NoFault, ae_now = 5\<rparr>
      demo_options Map.empty (hd demo_migrations) (mc_db ?s) = (db', Inr (Some rec)) \<and> migrated demo_options (hd demo_migrations) rec (mc_db ?s) db'"
    using r [THEN conjunct2, THEN conjunct2, THEN conjunct2, THEN conjunct2, THEN conjunct2, THEN spec [of _ 1], THEN spec [of _ Map.empty],
        THEN spec [of _ "hd demo_migrations"], THEN spec [of _ "tl demo_migrations"],
        THEN spec [of _ "\<lparr>ae_begin = None, ae_exec = None, ae_insert = None, ae_commit = NoFault, ae_now = 5\<rparr>"]] by auto
  with r demo_mig_reach show ?thesis by (intro exI [of _ ?s] exI [of _ rec] exI [of _ db']) simp
qed

text \<open>
  The records are kept per schema, not per table: once a build has migrated a schema, a run for another
  table of that schema reports success and creates nothing.
\<close>

lemma other_table_is_never_created:
  assumes "migrate_Run env opts db = Some (db', reported, None)" and "load (me_sha256 env) (me_dir env) = Inr ms" and "mig_ok db"
    and "no_trouble env"
  shows "migrate_Run env (opts\<lparr>mo_table := other\<rparr>) db' = Some (db', [], None)"
  using Run_then_idle [OF assms(1-4,2) Run_records [OF assms(1-3)]] .

end
