(* ===== verification/Go_Format.thy ===== *)
theory Go_Format
  imports Config_Parse Store_Partition
begin

text \<open>
  The parts of Go's standard library that the command line uses: \<open>strconv.ParseInt\<close> with a base prefix, the
  \<open>flag\<close> package, widths of \<open>fmt\<close> verbs counted in runes, \<open>strings.Fields\<close>, and RFC 3339 times.
\<close>

subsection \<open>Integers with a base prefix\<close>

definition base_prefix :: "string \<Rightarrow> nat \<times> string" where
  "base_prefix s =
     (if s \<noteq> [] \<and> hd s = CHR ''0'' then
        (if 3 \<le> length s \<and> lower_char (s ! 1) = CHR ''b'' then (2, drop 2 s)
         else if 3 \<le> length s \<and> lower_char (s ! 1) = CHR ''o'' then (8, drop 2 s)
         else if 3 \<le> length s \<and> lower_char (s ! 1) = CHR ''x'' then (16, drop 2 s)
         else (8, tl s))
      else (10, s))"

definition any_digit :: "char \<Rightarrow> nat option" where
  "any_digit c =
     (if is_digit c then Some (of_char c - 48)
      else if is_lower (lower_char c) then Some (of_char (lower_char c) - 97 + 10)
      else None)"

fun base_digits :: "nat \<Rightarrow> int \<Rightarrow> string \<Rightarrow> int option" where
  "base_digits b n [] = Some n"
| "base_digits b n (c # cs) =
     (if c = CHR ''_'' then base_digits b n cs
      else case any_digit c of
        None \<Rightarrow> None
      | Some d \<Rightarrow> if d \<ge> b then None else base_digits b (n * int b + int d) cs)"

text \<open>Underscores only between digits, where a base prefix counts as one.\<close>

datatype seen = SeenStart | SeenDigit | SeenUnderscore | SeenOther

fun underscores_between :: "bool \<Rightarrow> seen \<Rightarrow> string \<Rightarrow> bool" where
  "underscores_between hex i [] = (i \<noteq> SeenUnderscore)"
| "underscores_between hex i (c # cs) =
     (if is_digit c \<or> hex \<and> CHR ''a'' \<le> lower_char c \<and> lower_char c \<le> CHR ''f'' then underscores_between hex SeenDigit cs
      else if c = CHR ''_'' then i = SeenDigit \<and> underscores_between hex SeenUnderscore cs
      else i \<noteq> SeenUnderscore \<and> underscores_between hex SeenOther cs)"

definition underscoreOK :: "string \<Rightarrow> bool" where
  "underscoreOK s =
     (if 2 \<le> length s \<and> hd s = CHR ''0'' \<and> lower_char (s ! 1) \<in> {CHR ''b'', CHR ''o'', CHR ''x''}
      then underscores_between (lower_char (s ! 1) = CHR ''x'') SeenDigit (drop 2 s)
      else underscores_between False SeenStart s)"

datatype num_failure = ErrSyntax | ErrRange

definition ParseInt0 :: "string \<Rightarrow> num_failure + int" where
  "ParseInt0 s =
     (let neg = (s \<noteq> [] \<and> hd s = CHR ''-'');
          u = (if s \<noteq> [] \<and> (hd s = CHR ''-'' \<or> hd s = CHR ''+'') then tl s else s);
          (b, ds) = base_prefix u in
      if u = [] then Inl ErrSyntax
      else case base_digits b 0 ds of
        None \<Rightarrow> Inl ErrSyntax
      | Some n \<Rightarrow>
          if CHR ''_'' \<in> set u \<and> \<not> underscoreOK u then Inl ErrSyntax
          else if (if neg then 2 ^ 63 < n else 2 ^ 63 \<le> n) then Inl ErrRange
          else Inr (if neg then - n else n))"

subsection \<open>Flags\<close>

datatype flag_value = IntFlag int | StringFlag string | BoolFlag bool

type_synonym flags = "(string \<times> flag_value) list"

datatype flag_error = ErrHelp | FlagError string

text \<open>\<open>Set\<close> of each kind of value.\<close>

fun flag_set :: "flag_value \<Rightarrow> string \<Rightarrow> string + flag_value" where
  "flag_set (IntFlag n) v =
     (case ParseInt0 v of Inr n \<Rightarrow> Inr (IntFlag n) | Inl ErrSyntax \<Rightarrow> Inl ''parse error'' | Inl ErrRange \<Rightarrow> Inl ''value out of range'')"
| "flag_set (StringFlag s) v = Inr (StringFlag v)"
| "flag_set (BoolFlag b) v = (case ParseBool v of Inr b \<Rightarrow> Inr (BoolFlag b) | Inl _ \<Rightarrow> Inl ''parse error'')"

definition flag_store :: "flags \<Rightarrow> string \<Rightarrow> flag_value \<Rightarrow> flags" where
  "flag_store fs name v = map (\<lambda>(n, w). (n, if n = name then v else w)) fs"

text \<open>The name after the dashes, and the value after the first equals sign behind the first character.\<close>

definition flag_split :: "string \<Rightarrow> string \<times> string option" where
  "flag_split s =
     (let n = hd s # takeWhile (\<lambda>c. c \<noteq> CHR ''='') (tl s); rest = dropWhile (\<lambda>c. c \<noteq> CHR ''='') (tl s) in
      (n, if rest = [] then None else Some (tl rest)))"

definition is_flag_arg :: "string \<Rightarrow> bool" where
  "is_flag_arg s \<longleftrightarrow> 2 \<le> length s \<and> hd s = CHR ''-''"

definition flag_value_error :: "string \<Rightarrow> string \<Rightarrow> string \<Rightarrow> flag_error" where
  "flag_value_error v name e = FlagError (''invalid value '' @ go_quote v @ '' for flag -'' @ name @ '': '' @ e)"

fun flag_parse :: "flags \<Rightarrow> string list \<Rightarrow> flag_error + flags \<times> string list" where
  "flag_parse fs [] = Inr (fs, [])"
| "flag_parse fs (s # args) =
     (if \<not> is_flag_arg s then Inr (fs, s # args)
      else if s = ''--'' then Inr (fs, args)
      else
        (let name0 = (if s ! 1 = CHR ''-'' then drop 2 s else tl s) in
         if name0 = [] \<or> hd name0 = CHR ''-'' \<or> hd name0 = CHR ''='' then Inl (FlagError (''bad flag syntax: '' @ s))
         else
           (case flag_split name0 of
              (name, value) \<Rightarrow>
                (case map_of fs name of
                   None \<Rightarrow>
                     Inl (if name = ''help'' \<or> name = ''h'' then ErrHelp
                          else FlagError (''flag provided but not defined: -'' @ name))
                 | Some (BoolFlag b) \<Rightarrow>
                     (case value of
                        None \<Rightarrow> flag_parse (flag_store fs name (BoolFlag True)) args
                      | Some v \<Rightarrow>
                          (case flag_set (BoolFlag b) v of
                             Inl e \<Rightarrow> Inl (FlagError (''invalid boolean value '' @ go_quote v @ '' for -'' @ name @ '': '' @ e))
                           | Inr w \<Rightarrow> flag_parse (flag_store fs name w) args))
                 | Some w0 \<Rightarrow>
                     (case value of
                        Some v \<Rightarrow>
                          (case flag_set w0 v of
                             Inl e \<Rightarrow> Inl (flag_value_error v name e)
                           | Inr w \<Rightarrow> flag_parse (flag_store fs name w) args)
                      | None \<Rightarrow>
                          (case args of
                             [] \<Rightarrow> Inl (FlagError (''flag needs an argument: -'' @ name))
                           | v # args' \<Rightarrow>
                               (case flag_set w0 v of
                                  Inl e \<Rightarrow> Inl (flag_value_error v name e)
                                | Inr w \<Rightarrow> flag_parse (flag_store fs name w) args')))))))"

definition int_flag :: "flags \<Rightarrow> string \<Rightarrow> int" where
  "int_flag fs name = (case map_of fs name of Some (IntFlag n) \<Rightarrow> n | _ \<Rightarrow> 0)"

definition string_flag :: "flags \<Rightarrow> string \<Rightarrow> string" where
  "string_flag fs name = (case map_of fs name of Some (StringFlag s) \<Rightarrow> s | _ \<Rightarrow> [])"

definition bool_flag :: "flags \<Rightarrow> string \<Rightarrow> bool" where
  "bool_flag fs name = (case map_of fs name of Some (BoolFlag b) \<Rightarrow> b | _ \<Rightarrow> False)"

subsection \<open>Runes and widths\<close>

text \<open>The bytes of the first rune of a string; a byte that starts none is a rune of its own.\<close>

definition byte_in :: "nat \<Rightarrow> nat \<Rightarrow> string \<Rightarrow> nat \<Rightarrow> bool" where
  "byte_in lo hi s i \<longleftrightarrow> i < length s \<and> lo \<le> of_char (s ! i) \<and> of_char (s ! i) \<le> hi"

definition rune_len :: "string \<Rightarrow> nat" where
  "rune_len s =
     (let c1 = byte_in 0x80 0xBF s; first = (\<lambda>lo hi. byte_in lo hi s 0) in
      if first 0xC2 0xDF \<and> c1 1 then 2
      else if first 0xE0 0xE0 \<and> byte_in 0xA0 0xBF s 1 \<and> c1 2 then 3
      else if (first 0xE1 0xEC \<or> first 0xEE 0xEF) \<and> c1 1 \<and> c1 2 then 3
      else if first 0xED 0xED \<and> byte_in 0x80 0x9F s 1 \<and> c1 2 then 3
      else if first 0xF0 0xF0 \<and> byte_in 0x90 0xBF s 1 \<and> c1 2 \<and> c1 3 then 4
      else if first 0xF1 0xF3 \<and> c1 1 \<and> c1 2 \<and> c1 3 then 4
      else if first 0xF4 0xF4 \<and> byte_in 0x80 0x8F s 1 \<and> c1 2 \<and> c1 3 then 4
      else 1)"

function rune_count :: "string \<Rightarrow> nat" where
  "rune_count [] = 0"
| "rune_count (c # cs) = Suc (rune_count (drop (rune_len (c # cs) - 1) cs))"
  by pat_completeness auto
termination by (relation "measure length") auto

text \<open>The verbs \<open>%-ns\<close> and \<open>%nd\<close>.\<close>

definition pad_right :: "nat \<Rightarrow> string \<Rightarrow> string" where
  "pad_right n s = s @ replicate (n - rune_count s) (CHR '' '')"

definition pad_left :: "nat \<Rightarrow> string \<Rightarrow> string" where
  "pad_left n s = replicate (n - rune_count s) (CHR '' '') @ s"

text \<open>\<open>strings.Fields\<close> on ASCII white space.\<close>

function string_fields :: "string \<Rightarrow> string list" where
  "string_fields s =
     (let r = dropWhile is_space s in
      if r = [] then [] else takeWhile (\<lambda>c. \<not> is_space c) r # string_fields (dropWhile (\<lambda>c. \<not> is_space c) r))"
  by pat_completeness auto
termination
proof (relation "measure length")
  fix s r assume r: "r = dropWhile is_space s" "r \<noteq> []"
  then have "\<not> is_space (hd r)" using hd_dropWhile by blast
  then have "length (dropWhile (\<lambda>c. \<not> is_space c) r) < length r"
    using r(2) by (cases r) (auto simp: length_dropWhile_le le_imp_less_Suc)
  also have "length r \<le> length s" by (simp add: r(1) length_dropWhile_le)
  finally show "(dropWhile (\<lambda>c. \<not> is_space c) r, s) \<in> measure length" by simp
qed simp

declare string_fields.simps [simp del]

subsection \<open>Times\<close>

definition rfc3339 :: "timestamptz \<Rightarrow> string" where
  "rfc3339 ts =
     (let (y, m, d) = civil_of_day (day_of ts); s = ts mod 86400000000 div 1000000; two = (\<lambda>n. zero_pad 2 (itoa n)) in
      zero_pad 4 (itoa y) @ ''-'' @ two m @ ''-'' @ two d @ ''T'' @ two (s div 3600) @ '':'' @ two (s div 60 mod 60) @ '':''
        @ two (s mod 60) @ ''Z'')"

definition is_leap :: "int \<Rightarrow> bool" where
  "is_leap y \<longleftrightarrow> y mod 4 = 0 \<and> (y mod 100 \<noteq> 0 \<or> y mod 400 = 0)"

definition daysIn :: "int \<Rightarrow> int \<Rightarrow> int" where
  "daysIn m y = (if m = 2 then if is_leap y then 29 else 28 else if m \<in> {4, 6, 9, 11} then 30 else 31)"

definition day_of_civil :: "int \<times> int \<times> int \<Rightarrow> int" where
  "day_of_civil = (\<lambda>(y, m, d).
     let y' = (if m \<le> 2 then y - 1 else y); era = y' div 400; yoe = y' mod 400;
         mp = (if m > 2 then m - 3 else m + 9); doy = (153 * mp + 2) div 5 + d - 1;
         doe = yoe * 365 + yoe div 4 - yoe div 100 + doy in
     era * 146097 + doe - 306)"

definition digits_int :: "string \<Rightarrow> int" where
  "digits_int s = foldl (\<lambda>n c. 10 * n + int (digit_value c)) 0 s"

text \<open>Reading pieces of a time: a fixed number of digits, one or two digits, and a literal.\<close>

definition take_digits :: "nat \<Rightarrow> string \<Rightarrow> (int \<times> string) option" where
  "take_digits n s = (if length s < n \<or> \<not> list_all is_digit (take n s) then None else Some (digits_int (take n s), drop n s))"

definition take_hour :: "string \<Rightarrow> (int \<times> string) option" where
  "take_hour s = (case take_digits 2 s of Some x \<Rightarrow> Some x | None \<Rightarrow> take_digits 1 s)"

definition take_char :: "char \<Rightarrow> string \<Rightarrow> string option" where
  "take_char c s = (if s \<noteq> [] \<and> hd s = c then Some (tl s) else None)"

text \<open>Nanoseconds of a fraction, if one is there: after a dot or a comma, digits past the ninth ignored.\<close>

definition take_fraction :: "string \<Rightarrow> int \<times> string" where
  "take_fraction s =
     (if 2 \<le> length s \<and> hd s \<in> {CHR ''.'', CHR '',''} \<and> is_digit (s ! 1) then
        (let ds = takeWhile is_digit (tl s); nine = take 9 (ds @ replicate 9 (CHR ''0'')) in
         (digits_int nine, drop (length ds) (tl s)))
      else (0, s))"

text \<open>The offset in seconds; nothing may follow it.\<close>

definition take_zone :: "string \<Rightarrow> int option" where
  "take_zone s =
     (if s = ''Z'' then Some 0
      else if length s = 6 \<and> s ! 3 = CHR '':'' then
        (case (take_digits 2 (take 2 (tl s)), take_digits 2 (drop 4 s)) of
           (Some (h, _), Some (m, _)) \<Rightarrow>
             if h \<le> 24 \<and> m \<le> 60 then
               (if hd s = CHR ''+'' then Some (h * 3600 + m * 60)
                else if hd s = CHR ''-'' then Some (- (h * 3600 + m * 60)) else None)
             else None
         | _ \<Rightarrow> None)
      else None)"

text \<open>\<open>time.Parse(time.RFC3339, s)\<close>, in microseconds.\<close>

definition parse_rfc3339 :: "string \<Rightarrow> timestamptz option" where
  "parse_rfc3339 s0 =
     Option.bind (take_digits 4 s0) (\<lambda>(y, s1).
     Option.bind (take_char (CHR ''-'') s1) (\<lambda>s2.
     Option.bind (take_digits 2 s2) (\<lambda>(mo, s3).
     Option.bind (take_char (CHR ''-'') s3) (\<lambda>s4.
     Option.bind (take_digits 2 s4) (\<lambda>(d, s5).
     Option.bind (take_char (CHR ''T'') s5) (\<lambda>s6.
     Option.bind (take_hour s6) (\<lambda>(h, s7).
     Option.bind (take_char (CHR '':'') s7) (\<lambda>s8.
     Option.bind (take_digits 2 s8) (\<lambda>(mi, s9).
     Option.bind (take_char (CHR '':'') s9) (\<lambda>s10.
     Option.bind (take_digits 2 s10) (\<lambda>(se, s11).
     let (ns, s12) = take_fraction s11 in
     Option.bind (take_zone s12) (\<lambda>off.
     if 1 \<le> mo \<and> mo \<le> 12 \<and> h < 24 \<and> mi < 60 \<and> se < 60 \<and> 1 \<le> d \<and> d \<le> daysIn mo y
     then Some ((day_of_civil (y, mo, d) * 86400 + h * 3600 + mi * 60 + se - off) * 1000000 + ns div 1000)
     else None))))))))))))"

end
