(* ===== verification/Time_Facts.thy ===== *)
theory Time_Facts
  imports Go_Format
begin

text \<open>
  The calendar behind the names of partitions and the times on the command line: the date of a day number
  determines it, every date is valid, and a time printed in RFC 3339 reads back.
\<close>

subsection \<open>Years of an era\<close>

text \<open>The first day of a year that begins in March, within an era of 400 years.\<close>

definition year_start :: "int \<Rightarrow> int" where
  "year_start y = 365 * y + y div 4 - y div 100 + (if y = 400 then 1 else 0)"

definition year_estimate :: "int \<Rightarrow> int" where
  "year_estimate doe = doe - doe div 1460 + doe div 36524 - doe div 146096"

lemma div_grows_slowly:
  fixes a b n :: int
  assumes "a \<le> b" "1 \<le> n"
  shows "a - a div n \<le> b - b div n"
proof -
  have "b \<le> a + n * (b - a)" using assms mult_right_mono [of 1 n "b - a"] by simp
  then have "b div n \<le> (a + n * (b - a)) div n" using assms(2) by (intro zdiv_mono1) simp_all
  also have "\<dots> = a div n + (b - a)" using assms(2) by simp
  finally show ?thesis by simp
qed

lemma year_estimate_mono:
  assumes "0 \<le> a" "a \<le> b" "b < 146097"
  shows "year_estimate a \<le> year_estimate b"
proof (cases "b = 146096")
  case True
  then have b: "year_estimate b = 145999" by (simp add: year_estimate_def)
  have "a div 36524 \<le> 3 \<or> a = 146096" using assms True zdiv_mono1 [of a 146095 36524] by auto
  moreover have "a - a div 1460 \<le> 145996" using div_grows_slowly [of a 146096 1460] assms True by simp
  moreover have "0 \<le> a div 146096" using assms by simp
  ultimately show ?thesis unfolding b by (auto simp: year_estimate_def)
next
  case False
  then have "a div 146096 = 0" "b div 146096 = 0" using assms by simp_all
  moreover have "a div 36524 \<le> b div 36524" using assms by (simp add: zdiv_mono1)
  moreover have "a - a div 1460 \<le> b - b div 1460" using assms by (simp add: div_grows_slowly)
  ultimately show ?thesis unfolding year_estimate_def by linarith
qed

lemma year_table:
  "list_all (\<lambda>y. 365 * y \<le> year_estimate (year_start y) \<and> year_estimate (year_start (y + 1) - 1) \<le> 365 * y + 364
     \<and> 0 \<le> year_start y \<and> year_start (y + 1) \<le> 146097 \<and> year_start (y + 1) - year_start y \<le> 366
     \<and> (year_start (y + 1) - year_start y = 366 \<longrightarrow> is_leap (y + 1))) [0..399]"
  by code_simp

lemma year_of_day:
  assumes "0 \<le> doe" "doe < 146097"
  shows "\<exists>y. 0 \<le> y \<and> y < 400 \<and> year_start y \<le> doe \<and> doe < year_start (y + 1)"
proof -
  have "doe < year_start (int n) \<Longrightarrow> \<exists>y. 0 \<le> y \<and> y < int n \<and> year_start y \<le> doe \<and> doe < year_start (y + 1)" for n
  proof (induction n)
    case 0
    then show ?case using assms(1) by (simp add: year_start_def)
  next
    case (Suc n)
    show ?case
    proof (cases "doe < year_start (int n)")
      case True
      with Suc.IH show ?thesis by auto
    next
      case False
      with Suc.prems show ?thesis by (intro exI [of _ "int n"]) (simp add: add.commute)
    qed
  qed
  from this [of 400] show ?thesis using assms(2) by (simp add: year_start_def)
qed

text \<open>The year of the era and the day of the year, as \<open>civil_of_day\<close> computes them.\<close>

lemma era_position:
  assumes "0 \<le> doe" "doe < 146097" and "yoe = year_estimate doe div 365" and "doy = doe - (365 * yoe + yoe div 4 - yoe div 100)"
  shows "0 \<le> yoe \<and> yoe < 400 \<and> 0 \<le> doy \<and> doy \<le> 365 \<and> (doy = 365 \<longrightarrow> is_leap (yoe + 1))"
proof -
  obtain y where y: "0 \<le> y" "y < 400" "year_start y \<le> doe" "doe < year_start (y + 1)" using year_of_day [OF assms(1,2)] by blast
  then have t: "365 * y \<le> year_estimate (year_start y)" "year_estimate (year_start (y + 1) - 1) \<le> 365 * y + 364"
    "0 \<le> year_start y" "year_start (y + 1) \<le> 146097" "year_start (y + 1) - year_start y \<le> 366"
    "year_start (y + 1) - year_start y = 366 \<longrightarrow> is_leap (y + 1)"
    using year_table by (auto simp: list_all_iff)
  have "year_estimate (year_start y) \<le> year_estimate doe" using y t by (intro year_estimate_mono) auto
  moreover have "year_estimate doe \<le> year_estimate (year_start (y + 1) - 1)" using y t by (intro year_estimate_mono) auto
  ultimately have yoe: "yoe = y" using t(1,2) assms(3) by linarith
  then have "doy = doe - year_start y" using assms(4) y(2) by (simp add: year_start_def)
  with yoe y t show ?thesis by auto
qed

subsection \<open>Months\<close>

lemma month_table:
  "list_all (\<lambda>doy. let mp = (5 * doy + 2) div 153; d = doy - (153 * mp + 2) div 5 + 1; m = (if mp < 10 then mp + 3 else mp - 9) in
     0 \<le> mp \<and> mp \<le> 11 \<and> 1 \<le> d \<and> (if doy = 365 then m = 2 \<and> d = 29 else d \<le> daysIn m 1)) [0..365]"
  by code_simp

lemma is_leap_era: "is_leap (y + 400 * era) \<longleftrightarrow> is_leap y"
proof -
  have "(y + 400 * era) mod 4 = y mod 4" "(y + 400 * era) mod 100 = y mod 100" "(y + 400 * era) mod 400 = y mod 400"
    using mod_mult_self2 [of y 4 "100 * era"] mod_mult_self2 [of y 100 "4 * era"] mod_mult_self2 [of y 400 era] by simp_all
  then show ?thesis by (simp add: is_leap_def)
qed

lemma daysIn_least: "daysIn m 1 \<le> daysIn m y"
  by (simp add: daysIn_def is_leap_def)

lemma month_position:
  assumes "0 \<le> doy" "doy \<le> 365" and "mp = (5 * doy + 2) div 153" and "d = doy - (153 * mp + 2) div 5 + 1"
    and "m = (if mp < 10 then mp + 3 else mp - 9)" and "doy = 365 \<longrightarrow> is_leap y"
  shows "0 \<le> mp \<and> mp \<le> 11 \<and> 1 \<le> d \<and> d \<le> daysIn m y"
proof -
  have "doy \<in> set [0..365]" using assms(1,2) by simp
  then have "0 \<le> mp \<and> mp \<le> 11 \<and> 1 \<le> d \<and> (if doy = 365 then m = 2 \<and> d = 29 else d \<le> daysIn m 1)"
    using month_table [unfolded list_all_iff Let_def, THEN bspec] unfolding assms(3-5) by blast
  then show ?thesis using daysIn_least [of m y] assms(6) by (cases "doy = 365") (simp_all add: daysIn_def)
qed

subsection \<open>Dates\<close>

lemma civil_of_day_parts:
  assumes "civil_of_day day = (y, m, d)"
  obtains era yoe doy mp where
    "day + 306 = era * 146097 + (365 * yoe + yoe div 4 - yoe div 100 + doy)" "0 \<le> yoe" "yoe < 400"
    "0 \<le> mp" "mp \<le> 11" "m = (if mp < 10 then mp + 3 else mp - 9)" "doy = (153 * mp + 2) div 5 + d - 1"
    "y = yoe + era * 400 + (if m \<le> 2 then 1 else 0)" "1 \<le> d" "d \<le> daysIn m y"
    "0 \<le> 365 * yoe + yoe div 4 - yoe div 100 + doy" "365 * yoe + yoe div 4 - yoe div 100 + doy < 146097"
proof -
  define era where "era = (day + 306) div 146097"
  define doe where "doe = (day + 306) mod 146097"
  define yoe where "yoe = year_estimate doe div 365"
  define doy where "doy = doe - (365 * yoe + yoe div 4 - yoe div 100)"
  define mp where "mp = (5 * doy + 2) div 153"
  note defs = era_def doe_def yoe_def doy_def mp_def
  have "civil_of_day day = (let d = doy - (153 * mp + 2) div 5 + 1; m = (if mp < 10 then mp + 3 else mp - 9) in
      (yoe + era * 400 + (if m \<le> 2 then 1 else 0), m, d))"
    unfolding civil_of_day_def Let_def defs year_estimate_def by (rule refl)
  then have c: "m = (if mp < 10 then mp + 3 else mp - 9)" "d = doy - (153 * mp + 2) div 5 + 1"
    "y = yoe + era * 400 + (if m \<le> 2 then 1 else 0)"
    using assms unfolding Let_def by simp_all
  have pos: "0 \<le> yoe" "yoe < 400" "0 \<le> doy" "doy \<le> 365" "doy = 365 \<longrightarrow> is_leap (yoe + 1)"
    using era_position [OF _ _ yoe_def doy_def] by (simp_all add: doe_def)
  have "is_leap y" if "doy = 365"
  proof -
    have "mp = 11" using that by (simp add: mp_def)
    then have "y = yoe + 1 + 400 * era" using c by simp
    then show ?thesis using pos(5) that is_leap_era by simp
  qed
  with month_position [OF pos(3,4) mp_def c(2,1), of y] have "0 \<le> mp" "mp \<le> 11" "1 \<le> d" "d \<le> daysIn m y" by auto
  moreover have doe: "365 * yoe + yoe div 4 - yoe div 100 + doy = doe" by (simp add: doy_def)
  then have "day + 306 = era * 146097 + (365 * yoe + yoe div 4 - yoe div 100 + doy)" by (simp add: era_def doe_def)
  moreover have "0 \<le> 365 * yoe + yoe div 4 - yoe div 100 + doy" "365 * yoe + yoe div 4 - yoe div 100 + doy < 146097"
    unfolding doe by (simp_all add: doe_def)
  moreover have "doy = (153 * mp + 2) div 5 + d - 1" using c(2) by simp
  ultimately show thesis using that [OF _ pos(1,2) _ _ c(1) _ c(3)] by blast
qed

lemma civil_roundtrip: "day_of_civil (civil_of_day day) = day"
proof -
  obtain y m d where c: "civil_of_day day = (y, m, d)" by (metis prod_cases3)
  then show ?thesis
  proof (rule civil_of_day_parts)
    fix era yoe doy mp
    assume day: "day + 306 = era * 146097 + (365 * yoe + yoe div 4 - yoe div 100 + doy)" and yoe: "0 \<le> yoe" "yoe < 400"
      and mp: "0 \<le> mp" "mp \<le> 11" and m: "m = (if mp < 10 then mp + 3 else mp - 9)"
      and doy: "doy = (153 * mp + 2) div 5 + d - 1" and y: "y = yoe + era * 400 + (if m \<le> 2 then 1 else 0)"
    have y': "(if m \<le> 2 then y - 1 else y) = yoe + era * 400" using y by simp
    have mp': "(if m > 2 then m - 3 else m + 9) = mp" using m mp by auto
    have "(yoe + era * 400) div 400 = era" "(yoe + era * 400) mod 400 = yoe" using yoe by simp_all
    then show ?thesis unfolding c day_of_civil_def Let_def prod.case y' mp' using day doy by simp
  qed
qed

lemma civil_valid:
  assumes "civil_of_day day = (y, m, d)"
  shows "1 \<le> m" "m \<le> 12" "1 \<le> d" "d \<le> daysIn m y"
proof -
  from assms have "1 \<le> m \<and> m \<le> 12 \<and> 1 \<le> d \<and> d \<le> daysIn m y" by (rule civil_of_day_parts) simp
  then show "1 \<le> m" "m \<le> 12" "1 \<le> d" "d \<le> daysIn m y" by simp_all
qed

subsection \<open>Numbers of a fixed width\<close>

lemma digits_int_value: "digits_int s = int (digits_value s)"
proof -
  have "foldl (\<lambda>n c. 10 * n + int (digit_value c)) (int k) s = int (foldl (\<lambda>n c. 10 * n + digit_value c) k s)" for k
  proof (induction s arbitrary: k)
    case (Cons c s)
    from Cons [of "10 * k + digit_value c"] show ?case by simp
  qed simp
  from this [of 0] show ?thesis by (simp add: digits_int_def digits_value_def)
qed

lemma digits_value_zeros: "digits_value (replicate k (CHR ''0'') @ s) = digits_value s"
  by (induction k) (simp_all add: digits_value_def digit_value_def)

lemma length_nat_digits: "n < 10 ^ k \<Longrightarrow> 0 < k \<Longrightarrow> length (nat_digits n) \<le> k"
proof (induction n arbitrary: k rule: nat_digits.induct)
  case (1 n)
  show ?case
  proof (cases "n < 10")
    case False
    with 1(2,3) obtain j where k: "k = Suc j" by (cases k) auto
    with False 1(2) have "0 < j" by (cases j) auto
    moreover have "n div 10 < 10 ^ j" using 1(2) k less_mult_imp_div_less [of n "10 ^ j" 10] by (simp add: mult.commute)
    ultimately show ?thesis using 1(1) [OF False] False k by (subst nat_digits.simps) simp
  qed (use 1(3) in \<open>subst nat_digits.simps, simp\<close>)
qed

text \<open>A number printed with leading zeros in a field wide enough for it.\<close>

definition fixed :: "nat \<Rightarrow> int \<Rightarrow> string" where
  "fixed k n = zero_pad k (itoa n)"

lemma fixed_reads:
  assumes "0 \<le> n" "n < 10 ^ k" "0 < k"
  shows "length (fixed k n) = k" and "take_digits k (fixed k n @ rest) = Some (n, rest)"
proof -
  have i: "itoa n = nat_digits (nat n)" using assms(1) by (simp add: itoa_def)
  have "nat n < 10 ^ k" using assms(1,2) by (simp add: nat_less_iff)
  then have "length (nat_digits (nat n)) \<le> k" using assms(3) by (rule length_nat_digits)
  then show len: "length (fixed k n) = k" by (simp add: fixed_def zero_pad_def i)
  have "is_digit (CHR ''0'')" by (simp add: is_digit_def)
  then have "list_all is_digit (fixed k n)"
    using nat_digits_read [of "nat n"] by (auto simp: fixed_def zero_pad_def i list_all_iff)
  moreover have "digits_int (fixed k n) = n"
    using nat_digits_read [of "nat n"] assms(1) by (simp add: fixed_def zero_pad_def i digits_int_value digits_value_zeros)
  ultimately show "take_digits k (fixed k n @ rest) = Some (n, rest)" by (simp add: take_digits_def len)
qed

lemma fixed_inject: "0 \<le> n \<Longrightarrow> n < 10 ^ k \<Longrightarrow> 0 \<le> n' \<Longrightarrow> n' < 10 ^ k \<Longrightarrow> 0 < k \<Longrightarrow> fixed k n = fixed k n' \<Longrightarrow> n = n'"
  using fixed_reads(2) [of n k "[]"] fixed_reads(2) [of n' k "[]"] by simp

subsection \<open>Days with a four-digit year\<close>

definition last_day :: int where
  "last_day = day_of_civil (9999, 12, 31)"

lemma civil_year:
  assumes "civil_of_day day = (y, m, d)" and "0 \<le> day" "day \<le> last_day"
  shows "0 \<le> y \<and> y < 10000"
  using assms(1)
proof (rule civil_of_day_parts)
  fix era yoe doy mp
  assume day: "day + 306 = era * 146097 + (365 * yoe + yoe div 4 - yoe div 100 + doy)" and yoe: "0 \<le> yoe" "yoe < 400"
    and m: "m = (if mp < 10 then mp + 3 else mp - 9)" and doy: "doy = (153 * mp + 2) div 5 + d - 1" and mp: "0 \<le> mp" "mp \<le> 11"
    and d: "1 \<le> d" and y: "y = yoe + era * 400 + (if m \<le> 2 then 1 else 0)"
    and doe: "0 \<le> 365 * yoe + yoe div 4 - yoe div 100 + doy" "365 * yoe + yoe div 4 - yoe div 100 + doy < 146097"
  have last: "last_day = 3652058" by code_simp
  have era: "0 \<le> era" "era \<le> 24" using day doe assms(2,3) last by linarith+
  have "\<not> (era = 24 \<and> yoe = 399 \<and> m \<le> 2)"
  proof
    assume *: "era = 24 \<and> yoe = 399 \<and> m \<le> 2"
    then have "10 \<le> mp" using m mp(1) by (auto split: if_splits)
    then have "306 \<le> (153 * mp + 2) div 5" using zdiv_mono1 [of 1532 "153 * mp + 2" 5] by simp
    with * day doy d assms(3) last show False by simp
  qed
  then show ?thesis using y era yoe by auto
qed

text \<open>Different days have different dates, so their partitions have different names.\<close>

lemma compact_date_inject:
  assumes "compact_date a = compact_date b" and "0 \<le> a" "a \<le> last_day" "0 \<le> b" "b \<le> last_day"
  shows "a = b"
proof -
  obtain y m d where A: "civil_of_day a = (y, m, d)" by (metis prod_cases3)
  obtain y' m' d' where B: "civil_of_day b = (y', m', d')" by (metis prod_cases3)
  have small: "1 \<le> d \<Longrightarrow> d \<le> daysIn m y \<Longrightarrow> d < 100" for d m y by (auto simp: daysIn_def split: if_splits)
  have r: "0 \<le> y \<and> y < 10 ^ 4" "0 \<le> m \<and> m < 10 ^ 2" "0 \<le> d \<and> d < 10 ^ 2"
    "0 \<le> y' \<and> y' < 10 ^ 4" "0 \<le> m' \<and> m' < 10 ^ 2" "0 \<le> d' \<and> d' < 10 ^ 2"
    using civil_year [OF A assms(2,3)] civil_year [OF B assms(4,5)] civil_valid [OF A] civil_valid [OF B] small [of d m y] small [of d' m' y']
    by simp_all
  have "fixed 4 y @ fixed 2 m @ fixed 2 d = fixed 4 y' @ fixed 2 m' @ fixed 2 d'"
    using assms(1) by (simp add: compact_date_def A B fixed_def)
  then have "fixed 4 y = fixed 4 y'" "fixed 2 m = fixed 2 m'" "fixed 2 d = fixed 2 d'"
    using r by (auto simp: append_eq_append_conv fixed_reads(1))
  then have "(y, m, d) = (y', m', d')" using r fixed_inject [of y 4 y'] fixed_inject [of m 2 m'] fixed_inject [of d 2 d'] by simp
  then show ?thesis using civil_roundtrip [of a] civil_roundtrip [of b] A B by simp
qed

subsection \<open>Times\<close>

lemma take_pieces: "take_char c (c # s) = Some s" "take_fraction ''Z'' = (0, ''Z'')" "take_zone ''Z'' = Some 0"
  by (simp_all add: take_char_def take_fraction_def take_zone_def)

lemma parse_printed:
  assumes "0 \<le> y" "y < 10000" "1 \<le> m" "m \<le> 12" "1 \<le> d" "d \<le> daysIn m y" "0 \<le> h" "h < 24" "0 \<le> mi" "mi < 60" "0 \<le> se" "se < 60"
  shows "parse_rfc3339 (fixed 4 y @ CHR ''-'' # fixed 2 m @ CHR ''-'' # fixed 2 d @ CHR ''T'' # fixed 2 h @ CHR '':'' # fixed 2 mi
      @ CHR '':'' # fixed 2 se @ ''Z'') = Some ((day_of_civil (y, m, d) * 86400 + h * 3600 + mi * 60 + se) * 1000000)"
proof -
  have two: "take_digits 2 (fixed 2 n @ rest) = Some (n, rest)" if "0 \<le> n" "n < 100" for n rest
    using that by (intro fixed_reads(2)) simp_all
  have "take_digits 4 (fixed 4 y @ rest) = Some (y, rest)" for rest using assms(1,2) by (intro fixed_reads(2)) simp_all
  moreover have "d < 100" using assms(6) by (auto simp: daysIn_def split: if_splits)
  ultimately show ?thesis
    unfolding parse_rfc3339_def using assms by (simp add: two take_pieces take_hour_def)
qed

text \<open>A time printed in RFC 3339 reads back as itself, up to the fraction of a second.\<close>

lemma rfc3339_roundtrip:
  assumes "0 \<le> ts" "day_of ts \<le> last_day"
  shows "parse_rfc3339 (rfc3339 ts) = Some (ts - ts mod 1000000)"
proof -
  obtain y m d where c: "civil_of_day (day_of ts) = (y, m, d)" by (metis prod_cases3)
  have day: "0 \<le> day_of ts" using assms(1) by (simp add: day_of_def pos_imp_zdiv_nonneg_iff)
  define q where "q = ts div 1000000"
  define s where "s = q mod 86400"
  have s: "ts mod 86400000000 div 1000000 = s" "day_of ts = q div 86400"
    using zmod_zmult2_eq [of 86400 ts 1000000] zdiv_zmult2_eq [of 86400 ts 1000000] by (simp_all add: s_def q_def day_of_def)
  define h where "h = s div 3600"
  define mi where "mi = s div 60 mod 60"
  define se where "se = s mod 60"
  have "s < 86400" "0 \<le> s" by (simp_all add: s_def)
  then have hms: "0 \<le> h" "h < 24" "0 \<le> mi" "mi < 60" "0 \<le> se" "se < 60"
    by (simp_all add: h_def mi_def se_def pos_imp_zdiv_nonneg_iff)
  have "h = s div 60 div 60" using zdiv_zmult2_eq [of 60 s 60] by (simp add: h_def)
  then have "s div 60 = h * 60 + mi" by (simp add: mi_def)
  moreover have "s = s div 60 * 60 + se" by (simp add: se_def)
  ultimately have sum: "h * 3600 + mi * 60 + se = s" by simp
  have "rfc3339 ts = fixed 4 y @ CHR ''-'' # fixed 2 m @ CHR ''-'' # fixed 2 d @ CHR ''T'' # fixed 2 h
      @ CHR '':'' # fixed 2 mi @ CHR '':'' # fixed 2 se @ ''Z''"
    unfolding rfc3339_def c Let_def prod.case s(1) h_def mi_def se_def fixed_def by simp
  then have "parse_rfc3339 (rfc3339 ts) = Some ((day_of_civil (y, m, d) * 86400 + h * 3600 + mi * 60 + se) * 1000000)"
    using parse_printed [OF _ _ civil_valid [OF c] hms] civil_year [OF c day assms(2)] by simp
  also have "day_of_civil (y, m, d) * 86400 + h * 3600 + mi * 60 + se = q div 86400 * 86400 + s"
    using civil_roundtrip [of "day_of ts"] c sum by (simp add: s(2))
  also have "q div 86400 * 86400 + s = q" by (simp add: s_def)
  also have "q * 1000000 = ts - ts mod 1000000" by (simp add: q_def minus_mod_eq_mult_div)
  finally show ?thesis .
qed

end
