(* ===== verification/Cmd_Outbox.thy ===== *)
theory Cmd_Outbox
  imports Go_Format App_Api Store_Migrate Config_Safety
begin

text \<open>
  The command line: \<open>cmd/outbox\<close> (\<open>main.go\<close>, \<open>admin.go\<close>, \<open>migrate.go\<close>) and the loaders of \<open>config/load.go\<close> it
  calls.  A command is a function from its arguments, the environment and the database to what it prints on
  the two streams, its exit code and the database afterwards.  Lines are printed as text; JSON
  documents as the value they encode; the usage text of a flag set by its name.
\<close>

subsection \<open>The configuration\<close>

text \<open>
  What \<open>envi.Load\<close> makes of a file, if there is one; the binding of the merged variables to the settings is the
  library's too.
\<close>

datatype env_file = NotExist | Unreadable err | Vars source | Unmergeable source err

fun merge_files :: "source \<Rightarrow> (string \<times> env_file) list \<Rightarrow> err + source" where
  "merge_files env [] = Inr env"
| "merge_files env ((path, f) # fs) =
     (case f of
        NotExist \<Rightarrow> merge_files env fs
      | Unreadable e \<Rightarrow> Inl (Errorf (''load '' @ path @ '': '') e [])
      | Unmergeable vs e \<Rightarrow> Inl (Errorf (''merge '' @ path @ '': '') e [])
      | Vars vs \<Rightarrow> merge_files (fold (\<lambda>(k, v) env. AList.update k v env) vs env) fs)"

definition cut_equals :: "string \<Rightarrow> (string \<times> string) option" where
  "cut_equals kv =
     (case dropWhile (\<lambda>c. c \<noteq> CHR ''='') kv of [] \<Rightarrow> None | _ # v \<Rightarrow> Some (takeWhile (\<lambda>c. c \<noteq> CHR ''='') kv, v))"

definition config_source :: "(string \<times> env_file) list \<Rightarrow> string list \<Rightarrow> err + source" where
  "config_source files environ =
     (case merge_files [] files of
        Inl e \<Rightarrow> Inl e
      | Inr env \<Rightarrow>
          Inr (fold (\<lambda>kv env. case cut_equals kv of None \<Rightarrow> env | Some (k, v) \<Rightarrow> AList.update k v env) environ env))"

record load_env =
  lo_files :: "(string \<times> env_file) list"
  lo_environ :: "string list"
  lo_bind :: "source \<Rightarrow> err + config"
  lo_float :: "float64 \<Rightarrow> string"
  lo_args :: load_args
  lo_hostname :: "string option"
  lo_pid :: int

definition load_config :: "load_env \<Rightarrow> bool \<Rightarrow> err + config" where
  "load_config lo adminOnly =
     (case config_source (lo_files lo) (lo_environ lo) of
        Inl e \<Rightarrow> Inl e
      | Inr src \<Rightarrow> decode (lo_float lo) (lo_args lo) (lo_hostname lo) (lo_pid lo) src (lo_bind lo src) adminOnly)"

definition Load :: "load_env \<Rightarrow> err + config" where
  "Load lo = load_config lo False"

definition LoadAdmin :: "load_env \<Rightarrow> err + config" where
  "LoadAdmin lo = load_config lo True"

subsection \<open>Output\<close>

datatype json =
    JsonMessages "failed_message list"
  | JsonRequeued nat "uuid list"
  | JsonStats stats rat "(string \<times> string) list"

datatype out = Text string | Json json | FlagUsage string

record cmd_result =
  cr_stdout :: "out list"
  cr_stderr :: "out list"
  cr_code :: int

definition fails :: "int \<Rightarrow> string \<Rightarrow> cmd_result" where
  "fails code line = \<lparr>cr_stdout = [], cr_stderr = [Text line], cr_code = code\<rparr>"

definition prints :: "out list \<Rightarrow> cmd_result" where
  "prints os = \<lparr>cr_stdout = os, cr_stderr = [], cr_code = 0\<rparr>"

text \<open>A flag set that could not be parsed has printed why, unless help was asked for, and its usage.\<close>

definition bad_flags :: "string \<Rightarrow> flag_error \<Rightarrow> cmd_result" where
  "bad_flags name e = \<lparr>cr_stdout = [],
     cr_stderr = (case e of ErrHelp \<Rightarrow> [] | FlagError s \<Rightarrow> [Text s]) @ [FlagUsage name], cr_code = 2\<rparr>"

subsection \<open>The administrative commands\<close>

text \<open>Opening the pool may fail; the statement the command runs meets the fault given and the server's clock.\<close>

record admin_env =
  ad_load :: load_env
  ad_pool :: "config \<Rightarrow> err option"
  ad_fault :: fault
  ad_now :: timestamptz

definition withStore ::
    "admin_env \<Rightarrow> (config \<Rightarrow> table \<Rightarrow> (table \<times> (err + out list)) go) \<Rightarrow> table \<Rightarrow> (table \<times> cmd_result) go" where
  "withStore env fn t =
     (case LoadAdmin (ad_load env) of
        Inl e \<Rightarrow> Return (t, fails 1 (err_text e))
      | Inr cfg \<Rightarrow>
          (case ad_pool env cfg of
             Some e \<Rightarrow> Return (t, fails 1 (err_text e))
           | None \<Rightarrow>
               (case fn cfg t of
                  Panic p \<Rightarrow> Panic p
                | Return (t', Inl e) \<Rightarrow> Return (t', fails 1 (err_text e))
                | Return (t', Inr os) \<Rightarrow> Return (t', prints os))))"

definition truncate_text :: "string \<Rightarrow> nat \<Rightarrow> string" where
  "truncate_text s n = (if length s \<le> n then s else take (n - 1) s @ [CHR 0xE2, CHR 0x80, CHR 0xA6])"

definition oneLine :: "string \<Rightarrow> string" where
  "oneLine s = join_with '' '' (string_fields s)"

record failed_opts =
  fo_limit :: int
  fo_stream :: string
  fo_json :: bool

definition failed_line :: "string \<Rightarrow> string \<Rightarrow> string \<Rightarrow> string \<Rightarrow> string \<Rightarrow> string \<Rightarrow> out" where
  "failed_line i s tp att cr er = Text (join_with ''  '' [pad_right 36 i, pad_right 12 s, pad_right 24 tp, pad_left 4 att,
     pad_right 20 cr, er])"

definition listFailed :: "fault \<Rightarrow> failed_opts \<Rightarrow> table \<Rightarrow> (err + out list) go" where
  "listFailed f opts t =
     (case ListFailed f zero_cursor (fo_limit opts) (fo_stream opts) t of
        Panic p \<Rightarrow> Panic p
      | Return (Inl e) \<Rightarrow> Return (Inl e)
      | Return (Inr messages) \<Rightarrow>
          Return (Inr (
            if fo_json opts then [Json (JsonMessages messages)]
            else if messages = [] then [Text ''nothing has failed'']
            else failed_line ''ID'' ''STREAM'' ''TOPIC'' ''ATT'' ''CREATED'' ''ERROR''
              # map (\<lambda>m. failed_line (fm_id m) (truncate_text (fm_stream m) 12) (truncate_text (fm_topic m) 24)
                    (itoa (fm_attempts m)) (rfc3339 (fm_created_at m)) (oneLine (fm_last_error m))) messages)))"

definition failed_flags :: flags where
  "failed_flags = [(''limit'', IntFlag 20), (''stream'', StringFlag []), (''json'', BoolFlag False)]"

definition runFailed :: "admin_env \<Rightarrow> string list \<Rightarrow> table \<Rightarrow> (table \<times> cmd_result) go" where
  "runFailed env args t =
     (case flag_parse failed_flags args of
        Inl e \<Rightarrow> Return (t, bad_flags ''outbox failed'' e)
      | Inr (fs, _) \<Rightarrow>
          withStore env (\<lambda>cfg t.
            case listFailed (ad_fault env) \<lparr>fo_limit = int_flag fs ''limit'', fo_stream = string_flag fs ''stream'',
                fo_json = bool_flag fs ''json''\<rparr> t of
              Panic p \<Rightarrow> Panic p
            | Return r \<Rightarrow> Return (t, r)) t)"

record requeue_opts =
  ro_ids :: "uuid list"
  ro_before :: string
  ro_limit :: int
  ro_json :: bool

definition requeue_summary :: "requeue_opts \<Rightarrow> uuid list \<Rightarrow> out list" where
  "requeue_summary opts requeued =
     (if ro_json opts then [Json (JsonRequeued (length requeued) requeued)]
      else if ro_ids opts \<noteq> [] \<and> length requeued \<noteq> length (ro_ids opts)
      then [Text (''requeued '' @ itoa (int (length requeued)) @ '' of '' @ itoa (int (length (ro_ids opts)))
        @ ''; the rest were not in the failed state'')]
      else [Text (''requeued '' @ itoa (int (length requeued)) @ '' message(s)'')])"

definition requeue_cmd :: "fault \<Rightarrow> timestamptz \<Rightarrow> requeue_opts \<Rightarrow> table \<Rightarrow> table \<times> (err + out list)" where
  "requeue_cmd f now opts t =
     (let summary = (\<lambda>(t', res). (t', case res of Inl e \<Rightarrow> Inl e | Inr requeued \<Rightarrow> Inr (requeue_summary opts requeued))) in
      if ro_ids opts \<noteq> [] then summary (Requeue f now (ro_ids opts) t)
      else
        (case parse_rfc3339 (ro_before opts) of
           None \<Rightarrow> (t, Inl (ErrorString (''-before must be an RFC3339 time such as 2026-01-31T23:00:00Z, got ''
             @ go_quote (ro_before opts))))
         | Some cutoff \<Rightarrow> summary (RequeueFailedBefore f now cutoff (ro_limit opts) t)))"

definition requeue_flags :: flags where
  "requeue_flags = [(''before'', StringFlag []), (''limit'', IntFlag 1000), (''json'', BoolFlag False)]"

definition runRequeue :: "admin_env \<Rightarrow> string list \<Rightarrow> table \<Rightarrow> (table \<times> cmd_result) go" where
  "runRequeue env args t =
     (case flag_parse requeue_flags args of
        Inl e \<Rightarrow> Return (t, bad_flags ''outbox requeue'' e)
      | Inr (fs, ids) \<Rightarrow>
          (let before = string_flag fs ''before'' in
           if ids \<noteq> [] \<and> before \<noteq> [] then Return (t, fails 2 ''give either ids or -before, not both'')
           else if ids = [] \<and> before = []
           then Return (t, \<lparr>cr_stdout = [], cr_stderr = [Text ''give either ids or -before'', FlagUsage ''outbox requeue''],
             cr_code = 2\<rparr>)
           else withStore env (\<lambda>cfg t. Return (requeue_cmd (ad_fault env) (ad_now env)
             \<lparr>ro_ids = ids, ro_before = before, ro_limit = int_flag fs ''limit'', ro_json = bool_flag fs ''json''\<rparr> t)) t))"

definition streamMap :: "config \<Rightarrow> (string \<times> string) list" where
  "streamMap cfg = map (\<lambda>(name, s). (name, sc_driver s)) (bc_streams (cfg_brokers cfg))"

definition stats_cmd :: "fault \<Rightarrow> timestamptz \<Rightarrow> config \<Rightarrow> bool \<Rightarrow> table \<Rightarrow> err + out list" where
  "stats_cmd f now cfg asJSON t =
     (case Stats f now t of
        Inl e \<Rightarrow> Inl e
      | Inr s \<Rightarrow>
          Inr (if asJSON then [Json (JsonStats s (of_int (st_oldest_pending s) / of_int second) (streamMap cfg))]
               else
                 (let row = (\<lambda>name v. Text (pad_right 14 name @ '' '' @ v)); names = StreamNames (cfg_brokers cfg) in
                  [row ''pending'' (itoa (st_pending s)), row ''processing'' (itoa (st_processing s)),
                   row ''failed'' (itoa (st_failed s)),
                   row ''deferred'' (itoa (st_deferred s) @ '' (waiting on an unreachable broker; counted above too)''),
                   row ''oldest'' (duration_string (truncate_seconds (st_oldest_pending s)))]
                  @ (if names = [] then []
                     else Text [] # Text (pad_right 16 ''STREAM'' @ '' DRIVER'')
                       # map (\<lambda>n. Text (pad_right 16 n @ '' '' @ stream_driver (cfg_brokers cfg) n)) names))))"

definition runStats :: "admin_env \<Rightarrow> string list \<Rightarrow> table \<Rightarrow> (table \<times> cmd_result) go" where
  "runStats env args t =
     (case flag_parse [(''json'', BoolFlag False)] args of
        Inl e \<Rightarrow> Return (t, bad_flags ''outbox stats'' e)
      | Inr (fs, _) \<Rightarrow>
          withStore env (\<lambda>cfg t. Return (t, stats_cmd (ad_fault env) (ad_now env) cfg (bool_flag fs ''json'') t)) t)"

subsection \<open>Migrating\<close>

record migrate_env =
  mv_load :: load_env
  mv_logger :: "config \<Rightarrow> err option"
  mv_connect :: "err option"
  mv_run :: mig_env

definition status_line :: "string \<Rightarrow> string \<Rightarrow> string \<Rightarrow> out" where
  "status_line v n applied = Text (join_with ''  '' [pad_right 6 v, pad_right 24 n, applied])"

text \<open>The result is missing when the run is still waiting for the lock.\<close>

definition runMigrate :: "migrate_env \<Rightarrow> string list \<Rightarrow> mig_db \<Rightarrow> (mig_db \<times> cmd_result) option" where
  "runMigrate env args db =
     (let action = (case args of [] \<Rightarrow> ''up'' | a # _ \<Rightarrow> a) in
      if action \<noteq> ''up'' \<and> action \<noteq> ''status''
      then Some (db, fails 2 (''unknown migrate action '' @ go_quote action @ '' (want up or status)''))
      else case LoadAdmin (mv_load env) of
        Inl e \<Rightarrow> Some (db, fails 1 (err_text e))
      | Inr cfg \<Rightarrow>
          if action = ''up'' then
            (case mv_logger env cfg of
               Some e \<Rightarrow> Some (db, fails 1 (err_text e))
             | None \<Rightarrow>
                 (case Migrate (mv_connect env) (mv_run env) cfg db of
                    None \<Rightarrow> None
                  | Some (db', _, Some e) \<Rightarrow> Some (db', fails 1 (err_text e))
                  | Some (db', applied, None) \<Rightarrow>
                      Some (db', prints (if applied = [] then [Text ''schema is up to date'']
                        else map (\<lambda>r. Text (''applied '' @ pad4 (mr_version r) @ ''_'' @ mr_name r)) applied))))
          else
            (case MigrationStatus (mv_connect env) (mv_run env) db of
               (db', Inl e) \<Rightarrow> Some (db', fails 1 (err_text e))
             | (db', Inr (applied, shipped)) \<Rightarrow>
                 Some (db', prints (status_line ''VER'' ''NAME'' ''APPLIED''
                   # map (\<lambda>r. status_line (itoa (mr_version r)) (mr_name r)
                       (case find (\<lambda>a. mr_version a = mr_version r) (rev applied) of
                          Some a \<Rightarrow> rfc3339 (mr_applied_at a)
                        | None \<Rightarrow> ''pending'')) shipped))))"

subsection \<open>The command\<close>

text \<open>The server: assembling it may fail; running it gives an error, an exit code, and whatever it did to the database.\<close>

record database =
  da_table :: table
  da_migrations :: mig_db

record server_env =
  sv_load :: load_env
  sv_logger :: "config \<Rightarrow> err option"
  sv_new :: "config \<Rightarrow> err option"
  sv_run :: "config \<Rightarrow> database \<Rightarrow> database \<times> err option \<times> int"

definition logged :: "int \<Rightarrow> cmd_result" where
  "logged code = \<lparr>cr_stdout = [], cr_stderr = [], cr_code = code\<rparr>"

definition runServer :: "server_env \<Rightarrow> database \<Rightarrow> database \<times> cmd_result" where
  "runServer env d =
     (case Load (sv_load env) of
        Inl e \<Rightarrow> (d, fails 1 (err_text e))
      | Inr cfg \<Rightarrow>
          (case sv_logger env cfg of
             Some e \<Rightarrow> (d, fails 1 (err_text e))
           | None \<Rightarrow>
               (case sv_new env cfg of
                  Some e \<Rightarrow> (d, logged 1)
                | None \<Rightarrow>
                    (case sv_run env cfg d of
                       (d', Some e, code) \<Rightarrow>
                         (d', logged (if errors_is e Canceled then code else if code \<noteq> 0 then code else 1))
                     | (d', None, code) \<Rightarrow> (d', logged code)))))"

datatype command = RunServer "string list" | RunMigrate "string list" | RunFailed "string list"
  | RunRequeue "string list" | RunStats "string list" | Version | Usage | Unknown string

definition command_of :: "string list \<Rightarrow> command" where
  "command_of args =
     (let command = (case args of [] \<Rightarrow> ''run'' | c # _ \<Rightarrow> c); rest = tl args in
      if command \<in> {''run'', ''serve''} then RunServer rest
      else if command = ''migrate'' then RunMigrate rest
      else if command = ''failed'' then RunFailed rest
      else if command = ''requeue'' then RunRequeue rest
      else if command = ''stats'' then RunStats rest
      else if command \<in> {''version'', ''-v'', ''--version''} then Version
      else if command \<in> {''help'', ''-h'', ''--help''} then Usage
      else Unknown command)"

record cmd_env =
  cm_admin :: admin_env
  cm_migrate :: migrate_env
  cm_build :: "string \<times> string \<times> string"
  cm_server :: server_env

definition lift_table :: "database \<Rightarrow> (table \<times> cmd_result) go \<Rightarrow> (database \<times> cmd_result) go" where
  "lift_table d r = (case r of Panic p \<Rightarrow> Panic p | Return (t, c) \<Rightarrow> Return (d\<lparr>da_table := t\<rparr>, c))"

definition run_cmd :: "cmd_env \<Rightarrow> string list \<Rightarrow> database \<Rightarrow> (database \<times> cmd_result) go option" where
  "run_cmd env args d =
     (case command_of args of
        RunServer _ \<Rightarrow> Some (Return (runServer (cm_server env) d))
      | RunMigrate as \<Rightarrow>
          (case runMigrate (cm_migrate env) as (da_migrations d) of
             None \<Rightarrow> None
           | Some (db, c) \<Rightarrow> Some (Return (d\<lparr>da_migrations := db\<rparr>, c)))
      | RunFailed as \<Rightarrow> Some (lift_table d (runFailed (cm_admin env) as (da_table d)))
      | RunRequeue as \<Rightarrow> Some (lift_table d (runRequeue (cm_admin env) as (da_table d)))
      | RunStats as \<Rightarrow> Some (lift_table d (runStats (cm_admin env) as (da_table d)))
      | Version \<Rightarrow>
          (case cm_build env of
             (v, c, b) \<Rightarrow> Some (Return (d, prints [Text (''outbox '' @ v @ '' (commit '' @ c @ '', built '' @ b @ '')'')])))
      | Usage \<Rightarrow> Some (Return (d, prints [FlagUsage ''outbox'']))
      | Unknown c \<Rightarrow>
          Some (Return (d, \<lparr>cr_stdout = [], cr_stderr = [Text (''unknown command '' @ go_quote c), Text [], FlagUsage ''outbox''],
            cr_code = 2\<rparr>)))"


subsection \<open>What a command may change\<close>

lemma requeue_cmd_effect:
  assumes "table_ok t" and "requeue_cmd f now opts t = (t', res)"
  shows "requeue_effect now t t'"
proof -
  have "requeue_effect now t (fst (Requeue f now (ro_ids opts) t))" by (rule Requeue_effect)
  moreover have "requeue_effect now t (fst (RequeueFailedBefore f now cutoff (ro_limit opts) t))" for cutoff
    using assms(1) by (rule RequeueFailedBefore_effect)
  ultimately show ?thesis
    using assms(2) by (auto simp: requeue_cmd_def Let_def split: if_splits option.splits prod.splits) (metis fst_conv)+
qed

lemma withStore_effect:
  assumes "withStore env fn t = Return (t', c)"
    and "\<And>cfg x. fn cfg t = Return x \<Longrightarrow> P (fst x)" and "P t"
  shows "P t' \<and> cr_code c \<in> {0, 1} \<and> (cr_code c = 0 \<longleftrightarrow> cr_stderr c = [])"
  using assms(1,3) assms(2)
  by (auto simp: withStore_def fails_def prints_def split: sum.splits option.splits go.splits)

text \<open>How a command ends: its code, with a message on standard error exactly when it fails.\<close>

definition ends_well :: "cmd_result \<Rightarrow> bool" where
  "ends_well c \<longleftrightarrow> cr_code c \<in> {0, 1, 2} \<and> (cr_code c = 0 \<longleftrightarrow> cr_stderr c = [])"

lemma ends_well_simps [simp]:
  "ends_well (bad_flags name e)" "ends_well (prints os)" "k \<in> {1, 2} \<Longrightarrow> ends_well (fails k s)"
  by (auto simp: ends_well_def bad_flags_def prints_def fails_def split: flag_error.split)

lemma runFailed_effect:
  assumes "runFailed env args t = Return (t', c)"
  shows "t' = t \<and> ends_well c"
proof (cases "flag_parse failed_flags args")
  case (Inr x)
  with assms withStore_effect [where P = "\<lambda>x. x = t"] show ?thesis
    by (fastforce simp: runFailed_def ends_well_def split: prod.splits go.splits)
qed (use assms in \<open>auto simp: runFailed_def\<close>)

lemma runStats_effect:
  assumes "runStats env args t = Return (t', c)"
  shows "t' = t \<and> ends_well c"
proof (cases "flag_parse [(''json'', BoolFlag False)] args")
  case (Inr x)
  with assms withStore_effect [where P = "\<lambda>x. x = t"] show ?thesis
    by (fastforce simp: runStats_def ends_well_def split: prod.splits)
qed (use assms in \<open>auto simp: runStats_def\<close>)

lemma runRequeue_effect:
  assumes "runRequeue env args t = Return (t', c)" and "table_ok t"
  shows "requeue_effect (ad_now env) t t' \<and> ends_well c \<and> (cr_code c = 2 \<longrightarrow> t' = t)"
proof (cases "t' = t \<and> ends_well c")
  case False
  have "\<exists>fs ids. withStore env (\<lambda>cfg t. Return (requeue_cmd (ad_fault env) (ad_now env)
      \<lparr>ro_ids = ids, ro_before = string_flag fs ''before'', ro_limit = int_flag fs ''limit'', ro_json = bool_flag fs ''json''\<rparr> t)) t
      = Return (t', c)"
    using assms(1) False by (auto simp: runRequeue_def ends_well_def Let_def fails_def bad_flags_def
        split: sum.splits prod.splits if_splits flag_error.splits)
  then obtain fs ids where w: "withStore env (\<lambda>cfg t. Return (requeue_cmd (ad_fault env) (ad_now env)
      \<lparr>ro_ids = ids, ro_before = string_flag fs ''before'', ro_limit = int_flag fs ''limit'', ro_json = bool_flag fs ''json''\<rparr> t)) t
      = Return (t', c)" by blast
  from withStore_effect [OF w, where P = "requeue_effect (ad_now env) t"] requeue_cmd_effect [OF assms(2)] show ?thesis
    by (fastforce simp: ends_well_def intro: prod.collapse [symmetric])
qed simp

lemma runMigrate_effect: "runMigrate env args db = Some (db', c) \<Longrightarrow> ends_well c \<and> (cr_code c = 2 \<longrightarrow> db' = db)"
  by (auto simp: runMigrate_def Let_def prints_def fails_def ends_well_def split: option.splits if_splits sum.splits prod.splits)

text \<open>
  A command other than the server that exits with 2 has not touched the database; only \<open>requeue\<close> changes the
  outbox table, and there only failed rows, into pending ones.
\<close>

lemma command_effects:
  assumes "run_cmd env args d = Some (Return (d', c))" and "table_ok (da_table d)" and "\<And>as. command_of args \<noteq> RunServer as"
  shows "ends_well c \<and> (cr_code c = 2 \<longrightarrow> d' = d)
    \<and> requeue_effect (ad_now (cm_admin env)) (da_table d) (da_table d')
    \<and> (da_table d' \<noteq> da_table d \<longrightarrow> (\<exists>as. command_of args = RunRequeue as))
    \<and> (da_migrations d' \<noteq> da_migrations d \<longrightarrow> (\<exists>as. command_of args = RunMigrate as))"
proof (cases "command_of args")
  case (RunMigrate as)
  with assms(1) show ?thesis by (auto simp: run_cmd_def dest!: runMigrate_effect split: option.splits prod.splits)
next
  case (RunFailed as)
  with assms(1) show ?thesis by (auto simp: run_cmd_def lift_table_def dest!: runFailed_effect split: go.splits)
next
  case (RunRequeue as)
  with assms(1) show ?thesis
    by (auto simp: run_cmd_def lift_table_def dest!: runRequeue_effect [OF _ assms(2)] split: go.splits)
next
  case (RunStats as)
  with assms(1) show ?thesis by (auto simp: run_cmd_def lift_table_def dest!: runStats_effect split: go.splits)
qed (use assms in \<open>auto simp: run_cmd_def ends_well_def prints_def split: prod.splits\<close>)

subsection \<open>The commands and the API\<close>

definition same_requeue :: "bool \<Rightarrow> (table \<times> cmd_result) go \<Rightarrow> table \<times> response \<Rightarrow> bool" where
  "same_requeue json r a \<longleftrightarrow> (\<exists>c. r = Return (fst a, c)
     \<and> ((\<exists>ids. rs_status (snd a) = 200 \<and> rs_body (snd a) = RequeuedBody (length ids) ids \<and> cr_code c = 0
            \<and> (json \<longrightarrow> cr_stdout c = [Json (JsonRequeued (length ids) ids)]))
       \<or> (\<exists>e. rs_status (snd a) = 500 \<and> rs_body (snd a) = ErrorBody (''could not requeue: '' @ e) \<and> c = fails 1 e)))"

definition same_listing :: "bool \<Rightarrow> table \<Rightarrow> (table \<times> cmd_result) go \<Rightarrow> response go \<Rightarrow> bool" where
  "same_listing json t r a \<longleftrightarrow> (\<exists>c rs. r = Return (t, c) \<and> a = Return rs
     \<and> ((\<exists>ms nxt. rs_status rs = 200 \<and> rs_body rs = FailedBody ms nxt \<and> cr_code c = 0 \<and> (json \<longrightarrow> cr_stdout c = [Json (JsonMessages ms)]))
       \<or> (\<exists>e. rs_status rs = 500 \<and> rs_body rs = ErrorBody (''could not list failed messages: '' @ e) \<and> c = fails 1 e)))"

definition list_query :: "int \<Rightarrow> string \<Rightarrow> request \<Rightarrow> request" where
  "list_query limit stream r = r\<lparr>rq_query := [(''limit'', itoa limit), (''stream'', stream)], rq_after := None\<rparr>"

lemma requeue_same:
  assumes "withStore env (\<lambda>cfg t. Return (requeue_cmd (ad_fault env) (ad_now env) opts t)) t = r"
    and "LoadAdmin (ad_load env) = Inr cfg" "ad_pool env cfg = None"
    and "requeue_cmd (ad_fault env) (ad_now env) opts t = (t', case res of Inl e \<Rightarrow> Inl e | Inr requeued \<Rightarrow> Inr (requeue_summary opts requeued))"
  shows "same_requeue (ro_json opts) r (case res of Inl e \<Rightarrow> (t', writeError 500 (''could not requeue: '' @ err_text e))
     | Inr requeued \<Rightarrow> (t', writeJSON 200 (RequeuedBody (length requeued) requeued)))"
  using assms by (cases res) (auto simp: withStore_def same_requeue_def writeError_def writeJSON_def prints_def requeue_summary_def)


lemma Atoi_itoa: "0 \<le> n \<Longrightarrow> n < 2 ^ 63 \<Longrightarrow> Atoi (itoa n) = Inr n"
proof -
  assume n: "0 \<le> n" "n < 2 ^ 63"
  have "is_digit (hd (nat_digits k))" for k
    using nat_digits_read [of k] nat_digits_nonempty [of k] by (metis hd_in_set list.pred_set)
  moreover have "\<not> is_digit (CHR ''-'')" "\<not> is_digit (CHR ''+'')" by (simp_all add: is_digit_def less_eq_char_def)
  ultimately have "hd (nat_digits k) \<noteq> CHR ''-''" "hd (nat_digits k) \<noteq> CHR ''+''" for k by metis+
  then show ?thesis using n nat_digits_read [of "nat n"] by (simp add: Atoi_def itoa_def Let_def)
qed

lemma requeue_ids_same:
  assumes "LoadAdmin (ad_load env) = Inr cfg" and "ad_pool env cfg = None"
    and "hm_store m" and "ev_fault api = ad_fault env" and "ev_now api = ad_now env"
    and h: "flag_parse requeue_flags args = Inr (fs, ids)" "ids \<noteq> []" "string_flag fs ''before'' = []" "int (length ids) \<le> maxRequeueIDs"
  shows "same_requeue (bool_flag fs ''json'') (runRequeue env args t)
      (handleRequeue m api (r\<lparr>rq_body := Inr \<lparr>rr_ids = ids, rr_failed_before = None, rr_limit = l\<rparr>\<rparr>) t)"
proof -
  obtain t' res where q: "Requeue (ad_fault env) (ad_now env) ids t = (t', res)" by (metis surj_pair)
  let ?opts = "\<lparr>ro_ids = ids, ro_before = [], ro_limit = int_flag fs ''limit'', ro_json = bool_flag fs ''json''\<rparr>"
  have "requeue_cmd (ad_fault env) (ad_now env) ?opts t = (t', case res of Inl e \<Rightarrow> Inl e | Inr x \<Rightarrow> Inr (requeue_summary ?opts x))"
    using h q by (simp add: requeue_cmd_def)
  from requeue_same [OF refl assms(1,2) this] h show ?thesis
    using assms(3-5) q by (cases ids; cases res) (simp_all add: runRequeue_def handleRequeue_def Let_def)
qed

lemma requeue_before_same:
  assumes "LoadAdmin (ad_load env) = Inr cfg" and "ad_pool env cfg = None"
    and "hm_store m" and "ev_fault api = ad_fault env" and "ev_now api = ad_now env"
    and h: "flag_parse requeue_flags args = Inr (fs, [])" "string_flag fs ''before'' \<noteq> []"
      "parse_rfc3339 (string_flag fs ''before'') = Some cutoff" "1 \<le> int_flag fs ''limit''" "int_flag fs ''limit'' \<le> maxRequeueIDs"
  shows "same_requeue (bool_flag fs ''json'') (runRequeue env args t)
      (handleRequeue m api (r\<lparr>rq_body := Inr \<lparr>rr_ids = [], rr_failed_before = Some cutoff, rr_limit = int_flag fs ''limit''\<rparr>\<rparr>) t)"
proof -
  obtain t' res where q: "RequeueFailedBefore (ad_fault env) (ad_now env) cutoff (int_flag fs ''limit'') t = (t', res)" by (metis surj_pair)
  let ?opts = "\<lparr>ro_ids = [], ro_before = string_flag fs ''before'', ro_limit = int_flag fs ''limit'', ro_json = bool_flag fs ''json''\<rparr>"
  have "requeue_cmd (ad_fault env) (ad_now env) ?opts t = (t', case res of Inl e \<Rightarrow> Inl e | Inr x \<Rightarrow> Inr (requeue_summary ?opts x))"
    using h q by (simp add: requeue_cmd_def)
  from requeue_same [OF refl assms(1,2) this] h show ?thesis
    using assms(3-5) q by (cases res) (simp_all add: runRequeue_def handleRequeue_def Let_def)
qed

lemma listing_same:
  assumes "LoadAdmin (ad_load env) = Inr cfg" and "ad_pool env cfg = None"
    and "hm_store m" and "ev_fault api = ad_fault env"
    and h: "flag_parse failed_flags args = Inr (fs, rest)" "1 \<le> int_flag fs ''limit''" "int_flag fs ''limit'' \<le> maxPageSize"
  shows "same_listing (bool_flag fs ''json'') t (runFailed env args t)
      (handleListFailed m api (list_query (int_flag fs ''limit'') (string_flag fs ''stream'') r) t)"
proof -
  have "intParam (list_query (int_flag fs ''limit'') (string_flag fs ''stream'') r) ''limit'' defaultPageSize maxPageSize = int_flag fs ''limit''"
    using h Atoi_itoa [of "int_flag fs ''limit''"] by (simp add: intParam_def query_get_def list_query_def maxPageSize_def Let_def itoa_def)
  with assms show ?thesis
    by (auto simp: same_listing_def runFailed_def withStore_def listFailed_def handleListFailed_def Let_def ListFailed_def query_get_def
        list_query_def writeError_def writeJSON_def prints_def fails_def split: sum.splits prod.splits)
qed

text \<open>A shell in a pod whose configuration loads, over a table with two failures.\<close>

definition demo_shell :: admin_env where
  "demo_shell = \<lparr>ad_load = \<lparr>lo_files = [(''.env'', NotExist)], lo_environ = [''PATH=x''], lo_bind = (\<lambda>_. Inr demo_settings),
     lo_float = (\<lambda>_. []), lo_args = demo_load, lo_hostname = Some ''pod-a'', lo_pid = 1\<rparr>,
     ad_pool = (\<lambda>_. None), ad_fault = NoFault, ad_now = 5000\<rparr>"

lemma demo_shell_loads: "\<exists>cfg. LoadAdmin (ad_load demo_shell) = Inr cfg"
proof -
  have "is_identifier ''outbox''" "is_identifier ''messages''" by code_simp+
  then have "db_ok demo_db" by (simp add: db_ok_def demo_db_def second_def)
  then have ok: "validateDB c = []" if "cfg_db c = demo_db" for c using that by (simp add: validateDB_ok)
  have db: "cfg_db demo_settings = demo_db" by (simp add: demo_settings_def)
  show ?thesis
    by (simp add: LoadAdmin_def load_config_def config_source_def demo_shell_def cut_equals_def decode_def Let_def
        validateAdmin_def report_def ok db split: sum.split)
qed

subsection \<open>Properties\<close>



end
