(* ===== verification/App_Modules.thy ===== *)
theory App_Modules
  imports Broker_Router App_Api Store_Migrate Observability_Metrics "HOL-Library.Multiset"
begin

text \<open>
  \<open>internal/app\<close>: the modules, their hooks and the graph \<open>register\<close> declares (\<open>app.go\<close>, \<open>db.go\<close>, \<open>brokers.go\<close>,
  \<open>metrics.go\<close>, \<open>tracing.go\<close>, \<open>dispatch.go\<close>, \<open>janitor.go\<close>, \<open>http.go\<close>, \<open>httpserver.go\<close>, \<open>hub.go\<close>, \<open>ready.go\<close>), with \<open>store/pool.go\<close>.

  A hook is a function from the state of the process to that state and an error.  It is \<open>None\<close> while the
  database module waits for the migration lock, and it may panic.  The framework (\<open>appmod\<close>) is not in the
  repository: it starts modules that do not depend on each other concurrently, so the order in which
  the hooks of all modules run is an argument, and so is its registry of contracts.  Hooks share
  only the registry, the bus and the ports, through calls that are atomic, and are run here one after another.  What the
  clients of brokers, database and collector answer when they are built is an argument too.
\<close>

subsection \<open>The connection pool\<close>

record pool_settings =
  ps_max_conns :: int
  ps_min_conns :: int
  ps_max_lifetime :: duration
  ps_max_idle :: duration
  ps_connect_timeout :: duration
  ps_application_name :: string
  ps_statement_timeout :: "string option"

definition milliseconds :: "duration \<Rightarrow> int" where
  "milliseconds d = (if d < 0 then - (- d div millisecond) else d div millisecond)"

definition pool_settings_of :: "db_config \<Rightarrow> string \<Rightarrow> pool_settings" where
  "pool_settings_of cfg appName =
     \<lparr>ps_max_conns = db_max_conns cfg, ps_min_conns = db_min_conns cfg, ps_max_lifetime = db_max_conn_lifetime cfg,
      ps_max_idle = db_max_conn_idle_time cfg, ps_connect_timeout = db_connect_timeout cfg, ps_application_name = appName,
      ps_statement_timeout = (if db_statement_timeout cfg > 0 then Some (itoa (milliseconds (db_statement_timeout cfg))) else None)\<rparr>"

definition pingTimeout :: "duration \<Rightarrow> duration" where
  "pingTimeout connect = (if connect > 0 then connect else 5 * second)"

text \<open>Parsing the DSN, opening the pool and the ping under its timeout may each fail; a pool that does not answer is closed again.\<close>

record pool_env =
  pl_url :: "db_config \<Rightarrow> string"
  pl_parse :: "string \<Rightarrow> err option"
  pl_open :: "pool_settings \<Rightarrow> err option"
  pl_ping :: "duration \<Rightarrow> err option"

definition NewPool :: "pool_env \<Rightarrow> db_config \<Rightarrow> string \<Rightarrow> err + pool_settings" where
  "NewPool pe cfg appName =
     (case pl_parse pe (ConnString (pl_url pe) cfg) of
        Some e \<Rightarrow> Inl (Errorf ''parse database DSN: '' e [])
      | None \<Rightarrow>
          (case pl_open pe (pool_settings_of cfg appName) of
             Some e \<Rightarrow> Inl (Errorf ''open database pool: '' e [])
           | None \<Rightarrow>
               (case pl_ping pe (pingTimeout (db_connect_timeout cfg)) of
                  Some e \<Rightarrow> Inl (Errorf ''database is unreachable: '' e [])
                | None \<Rightarrow> Inr (pool_settings_of cfg appName))))"

subsection \<open>State\<close>

datatype contract = CHub | CPool | CStore | CRouter | CTracer | CMetrics

text \<open>What a module opens, and the cleanup that undoes it.\<close>

datatype resource = PoolOpen | PublisherOpen string | ServerOpen string | ExporterOpen | Provided contract

text \<open>A goroutine; the listener holds the pipelines it wakes.\<close>

datatype task = PipelineTask string | ListenerTask "string list" | JanitorTask

datatype subscriber = MetricsObserver | DeadLetterForwarder

text \<open>The line \<open>readyModule\<close> logs: the configuration the process came up with.\<close>

record ready_line =
  rl_version :: string
  rl_streams :: string
  rl_batch_size :: int
  rl_workers :: int
  rl_poll_interval :: duration
  rl_lease_ttl :: duration
  rl_max_attempts :: int
  rl_max_defer :: string
  rl_notify :: bool
  rl_retention :: duration

record 'r app_state =
  ap_registry :: 'r
  ap_open :: "resource list"
  ap_cleanups :: "resource list"
  ap_migrations :: mig_db
  ap_pool :: "pool_settings option"
  ap_router :: "router option"
  ap_metrics :: "metrics option"
  ap_tracer :: "bool option"
  ap_subscribers :: "subscriber list"
  ap_pipelines :: "string list"
  ap_running :: "task list"
  ap_dispatching :: bool
  ap_housekeeping :: bool
  ap_announced :: "ready_line option"

record 'r boot_env =
  av_provide :: "contract \<Rightarrow> 'r \<Rightarrow> err + 'r"
  av_require :: "contract \<Rightarrow> 'r \<Rightarrow> err option"
  av_connect :: "err option"
  av_migrate :: mig_env
  av_pool :: pool_env
  av_order :: "(string \<times> driver_config) list \<Rightarrow> (string \<times> driver_config) list"
  av_rabbitmq :: "rabbitmq_driver \<Rightarrow> err + publisher_ops"
  av_kafka :: "kafka_driver \<Rightarrow> err + publisher_ops"
  av_postgres :: "postgres_driver \<Rightarrow> err + publisher_ops"
  av_listen :: "string \<Rightarrow> int \<Rightarrow> err option"
  av_exporter :: "err option"
  av_subscribe :: "subscriber \<Rightarrow> err option"
  av_version :: version_info

type_synonym 'r hook_result = "('r app_state \<times> err option) go option"

text \<open>\<open>Provide\<close> followed by the registration of its \<open>Revoke\<close>, and \<open>Require\<close>.\<close>

definition opened :: "resource \<Rightarrow> 'r app_state \<Rightarrow> 'r app_state" where
  "opened x st = st\<lparr>ap_open := x # ap_open st\<rparr>"

definition add_cleanup :: "resource \<Rightarrow> 'r app_state \<Rightarrow> 'r app_state" where
  "add_cleanup x st = st\<lparr>ap_cleanups := x # ap_cleanups st\<rparr>"

definition provide :: "'r boot_env \<Rightarrow> contract \<Rightarrow> 'r app_state \<Rightarrow> 'r app_state \<times> err option" where
  "provide env c st =
     (case av_provide env c (ap_registry st) of
        Inl e \<Rightarrow> (st, Some e)
      | Inr r \<Rightarrow> (add_cleanup (Provided c) (opened (Provided c) (st\<lparr>ap_registry := r\<rparr>)), None))"

definition require_all :: "'r boot_env \<Rightarrow> contract list \<Rightarrow> 'r app_state \<Rightarrow> err option" where
  "require_all env cs st = (case List.map_filter (\<lambda>c. av_require env c (ap_registry st)) cs of [] \<Rightarrow> None | e # _ \<Rightarrow> Some e)"

definition errNotStarted :: err where
  "errNotStarted = ErrorString ''module has not started''"

subsection \<open>Servers\<close>

definition serve :: "'r boot_env \<Rightarrow> string \<Rightarrow> int \<Rightarrow> 'r app_state \<Rightarrow> 'r app_state \<times> err option" where
  "serve env name port st =
     (case av_listen env name port of
        Some e \<Rightarrow> (st, Some (Errorf (''listen on :'' @ itoa port @ '' for '' @ name @ '': '') e []))
      | None \<Rightarrow> (add_cleanup (ServerOpen name) (opened (ServerOpen name) st), None))"

subsection \<open>Hooks\<close>

definition db_open :: "'r boot_env \<Rightarrow> config \<Rightarrow> 'r app_state \<Rightarrow> 'r hook_result" where
  "db_open env cfg st =
     (let pool = (\<lambda>st. case NewPool (av_pool env) (cfg_db cfg) (app_name (cfg_app cfg)) of
             Inl e \<Rightarrow> (st, Some e)
           | Inr ps \<Rightarrow> (add_cleanup PoolOpen (opened PoolOpen (st\<lparr>ap_pool := Some ps\<rparr>)), None)) in
      if db_auto_migrate (cfg_db cfg) then
        (case Migrate (av_connect env) (av_migrate env) cfg (ap_migrations st) of
           None \<Rightarrow> None
         | Some (db, _, Some e) \<Rightarrow> Some (Return (st\<lparr>ap_migrations := db\<rparr>, Some e))
         | Some (db, _, None) \<Rightarrow> Some (Return (pool (st\<lparr>ap_migrations := db\<rparr>))))
      else Some (Return (pool st)))"

definition db_publish :: "'r boot_env \<Rightarrow> 'r app_state \<Rightarrow> 'r app_state \<times> err option" where
  "db_publish env st =
     (case provide env CPool st of
        (st1, Some e) \<Rightarrow> (st1, Some e)
      | (st1, None) \<Rightarrow> provide env CStore st1)"

definition brokers_build :: "'r boot_env \<Rightarrow> driver_config \<Rightarrow> err + publisher_ops" where
  "brokers_build env d =
     (case d of RabbitMQDriver x \<Rightarrow> av_rabbitmq env x | KafkaDriver x \<Rightarrow> av_kafka env x
      | PostgresDriver x \<Rightarrow> av_postgres env x)"

fun connect_drivers :: "'r boot_env \<Rightarrow> (string \<times> publisher_ops) list \<Rightarrow> (string \<times> driver_config) list \<Rightarrow> 'r app_state
    \<Rightarrow> 'r app_state \<times> (err + (string \<times> publisher_ops) list)" where
  "connect_drivers env pubs [] st = (st, Inr pubs)"
| "connect_drivers env pubs ((name, d) # ds) st =
     (case brokers_build env d of
        Inl e \<Rightarrow> (st, Inl e)
      | Inr p \<Rightarrow> connect_drivers env (pubs @ [(name, p)]) ds
          (add_cleanup (PublisherOpen name) (opened (PublisherOpen name) st)))"

definition brokers_publish :: "'r boot_env \<Rightarrow> 'r app_state \<Rightarrow> 'r app_state \<times> err option" where
  "brokers_publish env = provide env CRouter"

definition brokers_connect :: "'r boot_env \<Rightarrow> config \<Rightarrow> 'r app_state \<Rightarrow> 'r app_state \<times> err option" where
  "brokers_connect env cfg st =
     (case connect_drivers env [] (av_order env (bc_drivers (cfg_brokers cfg))) st of
        (st1, Inl e) \<Rightarrow> (st1, Some e)
      | (st1, Inr pubs) \<Rightarrow>
          (case NewRouter (cfg_brokers cfg) pubs of
             Inl e \<Rightarrow> (st1, Some e)
           | Inr r \<Rightarrow> (st1\<lparr>ap_router := Some r\<rparr>, None)))"

text \<open>
  \<open>mux.Handle\<close> of \<open>net/http\<close> parses its pattern and panics when it is malformed.  For a pattern that begins
  with a slash, which \<open>validatePorts\<close> demands of the path: a blank would make what comes before it the
  method, which cannot have a slash; a segment with a brace is a wildcard, \<open>{name}\<close>, \<open>{name...}\<close> or \<open>{$}\<close>, the
  latter two only at the end, with names that are distinct identifiers.  Letters are the ASCII letters, so that a name
  with others counts as malformed here.
\<close>

definition is_letter :: "char \<Rightarrow> bool" where
  "is_letter c \<longleftrightarrow> (CHR ''a'' \<le> c \<and> c \<le> CHR ''z'') \<or> (CHR ''A'' \<le> c \<and> c \<le> CHR ''Z'')"

definition wildcard_name :: "string \<Rightarrow> bool" where
  "wildcard_name s \<longleftrightarrow>
     s \<noteq> [] \<and> list_all (\<lambda>c. is_letter c \<or> c = CHR ''_'' \<or> is_digit c) s \<and> \<not> is_digit (hd s)"

fun segments_ok :: "string list \<Rightarrow> string list \<Rightarrow> bool" where
  "segments_ok seen [] \<longleftrightarrow> True"
| "segments_ok seen (seg # segs) \<longleftrightarrow>
     (if CHR 0x7B \<notin> set seg then segments_ok seen segs
      else hd seg = CHR 0x7B \<and> last seg = CHR 0x7D \<and>
        (let name = butlast (tl seg) in
         if name = ''$'' then segs = []
         else
           (let multi = (drop (length name - 3) name = ''...''); name = (if multi then take (length name - 3) name else name) in
            (multi \<longrightarrow> segs = []) \<and> wildcard_name name \<and> name \<notin> set seen \<and> segments_ok (name # seen) segs)))"

definition pattern_ok :: "string \<Rightarrow> bool" where
  "pattern_ok s \<longleftrightarrow>
     has_prefix s ''/'' \<and> CHR '' '' \<notin> set s \<and> CHR 0x09 \<notin> set s \<and> segments_ok [] (split_on (CHR ''/'') (tl s))"

definition metrics_build :: "'r boot_env \<Rightarrow> config \<Rightarrow> 'r app_state \<Rightarrow> ('r app_state \<times> err option) go" where
  "metrics_build env cfg st =
     (let st1 = st\<lparr>ap_metrics := Some (metrics_New (cfg_brokers cfg))\<rparr> in
      if \<not> mc_enabled (cfg_metrics cfg) then Return (st1, None)
      else if \<not> pattern_ok (mc_path (cfg_metrics cfg)) then Panic (''parsing '' @ go_quote (mc_path (cfg_metrics cfg)))
      else Return (serve env ''metrics'' (mc_port (cfg_metrics cfg)) st1))"

definition metrics_publish :: "'r boot_env \<Rightarrow> 'r app_state \<Rightarrow> 'r app_state \<times> err option" where
  "metrics_publish env st =
     (case require_all env [CHub] st of
        Some e \<Rightarrow> (st, Some e)
      | None \<Rightarrow>
          (case av_subscribe env MetricsObserver of
             Some e \<Rightarrow> (st, Some e)
           | None \<Rightarrow> provide env CMetrics (st\<lparr>ap_subscribers := MetricsObserver # ap_subscribers st\<rparr>)))"

text \<open>\<open>tracing.New\<close>: nothing to export to, or an exporter that may fail to build.\<close>

definition tracing_New :: "'r boot_env \<Rightarrow> otel_config \<Rightarrow> err + bool" where
  "tracing_New env cfg =
     (if otel_endpoint cfg = [] then Inr False
      else case av_exporter env of Some e \<Rightarrow> Inl (Errorf ''build the trace exporter: '' e []) | None \<Rightarrow> Inr True)"

definition tracing_build :: "'r boot_env \<Rightarrow> config \<Rightarrow> 'r app_state \<Rightarrow> 'r app_state \<times> err option" where
  "tracing_build env cfg st =
     (case tracing_New env (cfg_otel cfg) of
        Inl e \<Rightarrow> (st, Some e)
      | Inr on \<Rightarrow>
          (let st1 = (if on then opened ExporterOpen else id) (st\<lparr>ap_tracer := Some on\<rparr>) in
           case provide env CTracer st1 of
             (st2, Some e) \<Rightarrow> (st2, Some e)
           | (st2, None) \<Rightarrow> (add_cleanup ExporterOpen st2, None)))"

definition start_listener :: "'r app_state \<Rightarrow> 'r app_state" where
  "start_listener st = st\<lparr>ap_running := ap_running st @ [ListenerTask (ap_pipelines st)]\<rparr>"

definition dispatch_start :: "'r boot_env \<Rightarrow> config \<Rightarrow> 'r app_state \<Rightarrow> 'r app_state \<times> err option" where
  "dispatch_start env cfg st =
     (case require_all env [CStore, CRouter, CHub, CTracer] st of
        Some e \<Rightarrow> (st, Some e)
      | None \<Rightarrow>
          (case (if dlq_enabled (cfg_dlq cfg) then av_subscribe env DeadLetterForwarder else None) of
             Some e \<Rightarrow> (st, Some e)
           | None \<Rightarrow>
               (let pipelines = ap_pipelines st @ StreamNames (cfg_brokers cfg);
                    st1 = st\<lparr>ap_subscribers := (if dlq_enabled (cfg_dlq cfg) then [DeadLetterForwarder] else []) @ ap_subscribers st,
                      ap_pipelines := pipelines, ap_running := ap_running st @ map PipelineTask pipelines\<rparr>;
                    st2 = (if dc_notify_enabled (cfg_dispatch cfg) then start_listener st1 else st1) in
                (st2\<lparr>ap_dispatching := True\<rparr>, None))))"

definition janitor_start :: "'r boot_env \<Rightarrow> config \<Rightarrow> 'r app_state \<Rightarrow> 'r app_state \<times> err option" where
  "janitor_start env cfg st =
     (if \<not> jc_enabled (cfg_janitor cfg) then (st, None)
      else case require_all env [CStore, CHub] st of
        Some e \<Rightarrow> (st, Some e)
      | None \<Rightarrow> (st\<lparr>ap_running := ap_running st @ [JanitorTask], ap_housekeeping := True\<rparr>, None))"

definition http_listen :: "'r boot_env \<Rightarrow> config \<Rightarrow> 'r app_state \<Rightarrow> 'r app_state \<times> err option" where
  "http_listen env cfg st =
     (if \<not> http_enabled (cfg_http cfg) then (st, None)
      else case require_all env [CStore] st of
        Some e \<Rightarrow> (st, Some e)
      | None \<Rightarrow> serve env ''api'' (http_port (cfg_http cfg)) st)"

definition ready_line_of :: "version_info \<Rightarrow> config \<Rightarrow> ready_line" where
  "ready_line_of v cfg =
     (let d = cfg_dispatch cfg in
      \<lparr>rl_version = vi_version v, rl_streams = streamSummary (cfg_brokers cfg), rl_batch_size = dc_batch_size d,
       rl_workers = dc_workers d, rl_poll_interval = dc_poll_interval d, rl_lease_ttl = dc_lease_ttl d,
       rl_max_attempts = dc_max_attempts d, rl_max_defer = deferWindow (dc_max_defer d), rl_notify = dc_notify_enabled d,
       rl_retention = jc_retention (cfg_janitor cfg)\<rparr>)"

definition announce :: "'r boot_env \<Rightarrow> config \<Rightarrow> 'r app_state \<Rightarrow> 'r app_state \<times> err option" where
  "announce env cfg st = (st\<lparr>ap_announced := Some (ready_line_of (av_version env) cfg)\<rparr>, None)"


subsection \<open>Stopping and health\<close>

text \<open>A stop cancels the context of the goroutines and waits for them, within the shutdown budget.\<close>

definition dispatch_stop :: "err option \<Rightarrow> 'r app_state \<Rightarrow> 'r app_state \<times> err option" where
  "dispatch_stop budget st =
     (if \<not> ap_dispatching st then (st, None)
      else case budget of
        None \<Rightarrow> (st\<lparr>ap_running := filter (\<lambda>x. x = JanitorTask) (ap_running st)\<rparr>, None)
      | Some e \<Rightarrow> (st, Some e))"

definition janitor_stop :: "err option \<Rightarrow> 'r app_state \<Rightarrow> 'r app_state \<times> err option" where
  "janitor_stop budget st =
     (if \<not> ap_housekeeping st then (st, None)
      else case budget of
        None \<Rightarrow> (st\<lparr>ap_running := filter (\<lambda>x. x \<noteq> JanitorTask) (ap_running st)\<rparr>, None)
      | Some e \<Rightarrow> (st, Some e))"

definition db_HealthCheck :: "err option \<Rightarrow> 'r app_state \<Rightarrow> err option" where
  "db_HealthCheck ping st = (case ap_pool st of None \<Rightarrow> Some errNotStarted | Some _ \<Rightarrow> ping)"

definition brokers_HealthCheck :: "'r app_state \<Rightarrow> err option" where
  "brokers_HealthCheck st = (case ap_router st of None \<Rightarrow> Some errNotStarted | Some r \<Rightarrow> Router_HealthCheck r)"

definition dispatch_HealthCheck :: "'r app_state \<Rightarrow> err option" where
  "dispatch_HealthCheck st = (if \<not> ap_dispatching st then Some errNotStarted else None)"

subsection \<open>The graph\<close>

datatype app_module = ModuleHub | ModuleDB | ModuleBrokers | ModuleMetrics | ModuleTracing | ModuleDispatch
  | ModuleJanitor | ModuleHTTP | ModuleReady

definition module_entries :: "(app_module \<times> app_module list) list" where
  "module_entries =
     (let entries =
        [(ModuleHub, []), (ModuleDB, []), (ModuleBrokers, []), (ModuleMetrics, [ModuleHub]), (ModuleTracing, []),
         (ModuleDispatch, [ModuleDB, ModuleBrokers, ModuleHub, ModuleMetrics, ModuleTracing]),
         (ModuleJanitor, [ModuleDB, ModuleHub, ModuleMetrics]), (ModuleHTTP, [ModuleDB, ModuleMetrics])] in
      entries @ [(ModuleReady, map fst entries)])"

text \<open>
  \<open>register\<close> hands the entries to the framework one by one, under their names, and stops at the first it refuses; \<open>New\<close>
  assembles the application from the build information.
\<close>

definition module_text :: "app_module \<Rightarrow> string" where
  "module_text n =
     (case n of ModuleHub \<Rightarrow> ''hub'' | ModuleDB \<Rightarrow> ''db'' | ModuleBrokers \<Rightarrow> ''brokers'' | ModuleMetrics \<Rightarrow> ''metrics''
      | ModuleTracing \<Rightarrow> ''tracing'' | ModuleDispatch \<Rightarrow> ''dispatch'' | ModuleJanitor \<Rightarrow> ''janitor'' | ModuleHTTP \<Rightarrow> ''http''
      | ModuleReady \<Rightarrow> ''ready'')"

fun register_entries :: "(string \<Rightarrow> string list \<Rightarrow> err option) \<Rightarrow> (app_module \<times> app_module list) list \<Rightarrow> err option" where
  "register_entries accept [] = None"
| "register_entries accept ((n, deps) # es) =
     (case accept (module_text n) (map module_text deps) of
        Some e \<Rightarrow> Some (Errorf (''register module '' @ go_quote (module_text n) @ '': '') e [])
      | None \<Rightarrow> register_entries accept es)"

record build_info =
  bi_version :: string
  bi_commit :: string
  bi_date :: string

definition app_New :: "(string \<Rightarrow> string list \<Rightarrow> err option) \<Rightarrow> build_info \<Rightarrow> err + version_info" where
  "app_New accept build =
     (case register_entries accept module_entries of
        Some e \<Rightarrow> Inl e
      | None \<Rightarrow> Inr \<lparr>vi_version = bi_version build, vi_commit = bi_commit build, vi_built = bi_date build\<rparr>)"

text \<open>
  The hooks each constructor installs: before the start, after it, and before the module is destroyed, within the shutdown budget.
  The module of the bus (\<open>hubmod\<close>) provides the bus.
\<close>

record 'r module_hooks =
  mh_before :: "'r app_state \<Rightarrow> 'r hook_result"
  mh_after :: "'r app_state \<Rightarrow> 'r app_state \<times> err option"
  mh_destroy :: "err option \<Rightarrow> 'r app_state \<Rightarrow> 'r app_state \<times> err option"

definition no_hooks :: "'r module_hooks" where
  "no_hooks = \<lparr>mh_before = (\<lambda>st. Some (Return (st, None))), mh_after = (\<lambda>st. (st, None)), mh_destroy = (\<lambda>_ st. (st, None))\<rparr>"

definition newHubModule :: "'r boot_env \<Rightarrow> 'r module_hooks" where
  "newHubModule env = no_hooks\<lparr>mh_after := provide env CHub\<rparr>"

definition newDBModule :: "'r boot_env \<Rightarrow> config \<Rightarrow> 'r module_hooks" where
  "newDBModule env cfg = no_hooks\<lparr>mh_before := db_open env cfg, mh_after := db_publish env\<rparr>"

definition newBrokersModule :: "'r boot_env \<Rightarrow> config \<Rightarrow> 'r module_hooks" where
  "newBrokersModule env cfg = no_hooks\<lparr>mh_before := (\<lambda>st. Some (Return (brokers_connect env cfg st))), mh_after := brokers_publish env\<rparr>"

definition newMetricsModule :: "'r boot_env \<Rightarrow> config \<Rightarrow> 'r module_hooks" where
  "newMetricsModule env cfg = no_hooks\<lparr>mh_before := (\<lambda>st. Some (metrics_build env cfg st)), mh_after := metrics_publish env\<rparr>"

definition newTracingModule :: "'r boot_env \<Rightarrow> config \<Rightarrow> 'r module_hooks" where
  "newTracingModule env cfg = no_hooks\<lparr>mh_before := (\<lambda>st. Some (Return (tracing_build env cfg st)))\<rparr>"

definition newDispatchModule :: "'r boot_env \<Rightarrow> config \<Rightarrow> 'r module_hooks" where
  "newDispatchModule env cfg = no_hooks\<lparr>mh_after := dispatch_start env cfg, mh_destroy := dispatch_stop\<rparr>"

definition newJanitorModule :: "'r boot_env \<Rightarrow> config \<Rightarrow> 'r module_hooks" where
  "newJanitorModule env cfg = no_hooks\<lparr>mh_after := janitor_start env cfg, mh_destroy := janitor_stop\<rparr>"

definition newHTTPModule :: "'r boot_env \<Rightarrow> config \<Rightarrow> 'r module_hooks" where
  "newHTTPModule env cfg = no_hooks\<lparr>mh_after := http_listen env cfg\<rparr>"

definition newReadyModule :: "'r boot_env \<Rightarrow> config \<Rightarrow> 'r module_hooks" where
  "newReadyModule env cfg = no_hooks\<lparr>mh_after := announce env cfg\<rparr>"

definition hooks_of :: "'r boot_env \<Rightarrow> config \<Rightarrow> app_module \<Rightarrow> 'r module_hooks" where
  "hooks_of env cfg n =
     (case n of ModuleHub \<Rightarrow> newHubModule env | ModuleDB \<Rightarrow> newDBModule env cfg | ModuleBrokers \<Rightarrow> newBrokersModule env cfg
      | ModuleMetrics \<Rightarrow> newMetricsModule env cfg | ModuleTracing \<Rightarrow> newTracingModule env cfg
      | ModuleDispatch \<Rightarrow> newDispatchModule env cfg | ModuleJanitor \<Rightarrow> newJanitorModule env cfg
      | ModuleHTTP \<Rightarrow> newHTTPModule env cfg | ModuleReady \<Rightarrow> newReadyModule env cfg)"

lemmas module_hooks = hooks_of_def no_hooks_def newHubModule_def newDBModule_def newBrokersModule_def newMetricsModule_def
  newTracingModule_def newDispatchModule_def newJanitorModule_def newHTTPModule_def newReadyModule_def

text \<open>
  A start is the sequence in which the hooks run.  The first one that fails ends it, as does a panic.
\<close>

datatype hook_step = Before app_module | After app_module

fun run_hook :: "'r boot_env \<Rightarrow> config \<Rightarrow> hook_step \<Rightarrow> 'r app_state \<Rightarrow> 'r hook_result" where
  "run_hook env cfg (Before n) st = mh_before (hooks_of env cfg n) st"
| "run_hook env cfg (After n) st = Some (Return (mh_after (hooks_of env cfg n) st))"

fun start_all :: "'r boot_env \<Rightarrow> config \<Rightarrow> hook_step list \<Rightarrow> 'r app_state \<Rightarrow> 'r hook_result" where
  "start_all env cfg [] st = Some (Return (st, None))"
| "start_all env cfg (h # hs) st =
     (case run_hook env cfg h st of
        None \<Rightarrow> None
      | Some (Panic p) \<Rightarrow> Some (Panic p)
      | Some (Return (st1, Some e)) \<Rightarrow> Some (Return (st1, Some e))
      | Some (Return (st1, None)) \<Rightarrow> start_all env cfg hs st1)"

definition initial :: "'r \<Rightarrow> mig_db \<Rightarrow> 'r app_state" where
  "initial r db = \<lparr>ap_registry = r, ap_open = [], ap_cleanups = [], ap_migrations = db, ap_pool = None, ap_router = None,
     ap_metrics = None, ap_tracer = None, ap_subscribers = [], ap_pipelines = [], ap_running = [], ap_dispatching = False,
     ap_housekeeping = False, ap_announced = None\<rparr>"

subsection \<open>Every resource has its cleanup\<close>

definition covered :: "'r app_state \<Rightarrow> bool" where
  "covered st \<longleftrightarrow> set (ap_open st) \<subseteq> set (ap_cleanups st)"

lemma covered_opened [simp]: "covered (add_cleanup x (opened x st)) \<longleftrightarrow> insert x (set (ap_open st)) \<subseteq> insert x (set (ap_cleanups st))"
  by (simp add: covered_def add_cleanup_def opened_def)

lemma covered_provide: "covered st \<Longrightarrow> covered (fst (provide env c st))"
  by (auto simp: provide_def covered_def add_cleanup_def opened_def split: sum.split)

lemma covered_serve: "covered st \<Longrightarrow> covered (fst (serve env name port st))"
  by (auto simp: serve_def covered_def add_cleanup_def opened_def split: option.split)

lemma covered_connect: "covered st \<Longrightarrow> covered (fst (connect_drivers env pubs ds st))"
  by (induction env pubs ds st rule: connect_drivers.induct)
    (auto simp: covered_def add_cleanup_def opened_def split: sum.split)

lemma covered_hooks:
  assumes "covered st"
  shows "covered (fst (db_publish env st))" "covered (fst (brokers_connect env cfg st))" "metrics_build env cfg st = Return (st', e) \<Longrightarrow> covered st'"
    "covered (fst (metrics_publish env st))" "covered (fst (dispatch_start env cfg st))" "covered (fst (janitor_start env cfg st))"
    "covered (fst (http_listen env cfg st))" "covered (fst (announce env cfg st))"
proof -
  have upd: "covered (st\<lparr>ap_metrics := x\<rparr>)" "covered (st\<lparr>ap_subscribers := y\<rparr>)" for x y using assms by (simp_all add: covered_def)
  show "covered (fst (db_publish env st))"
    using covered_provide [OF assms, of env CPool] covered_provide [of "fst (provide env CPool st)" env CStore]
    by (auto simp: db_publish_def split: prod.split option.split)
  show "covered (fst (brokers_connect env cfg st))"
    using covered_connect [OF assms, of env "[]" "av_order env (bc_drivers (cfg_brokers cfg))"]
    by (auto simp: brokers_connect_def covered_def split: prod.split sum.split)
  show "covered st'" if "metrics_build env cfg st = Return (st', e)"
    using that covered_serve [OF upd(1), of env "''metrics''" "mc_port (cfg_metrics cfg)" "Some (metrics_New (cfg_brokers cfg))"] upd(1)
    by (auto simp: metrics_build_def Let_def split: if_splits)
  show "covered (fst (metrics_publish env st))"
    using assms covered_provide [OF upd(2)] by (auto simp: metrics_publish_def split: option.split)
  show "covered (fst (http_listen env cfg st))" using assms covered_serve by (auto simp: http_listen_def split: option.split)
  show "covered (fst (dispatch_start env cfg st))" "covered (fst (janitor_start env cfg st))" "covered (fst (announce env cfg st))"
    using assms by (auto simp: dispatch_start_def start_listener_def janitor_start_def announce_def covered_def Let_def split: option.split)
qed

lemma covered_db_open: "covered st \<Longrightarrow> db_open env cfg st = Some (Return (st', e)) \<Longrightarrow> covered st'"
  by (auto simp: db_open_def Let_def covered_def add_cleanup_def opened_def split: if_splits option.splits prod.splits sum.splits)

text \<open>The tracing module registers the shutdown of its exporter only after its tracer was accepted by the registry.\<close>

lemma covered_tracing:
  assumes "covered st" and "tracing_build env cfg st = (st', e)" and "\<exists>r. av_provide env CTracer (ap_registry st) = Inr r"
  shows "covered st'"
  using assms by (auto simp: tracing_build_def provide_def covered_def add_cleanup_def opened_def Let_def split: sum.splits if_splits)

subsection \<open>Starting in the order of the graph\<close>

definition in_registry :: "'r boot_env \<Rightarrow> 'r app_state \<Rightarrow> contract \<Rightarrow> bool" where
  "in_registry env st c \<longleftrightarrow> av_require env c (ap_registry st) = None"

text \<open>The registry accepts a contract that is not there yet, and has it from then on.\<close>

definition registry_ok :: "'r boot_env \<Rightarrow> bool" where
  "registry_ok env \<longleftrightarrow> (\<forall>c r. av_require env c r \<noteq> None \<longrightarrow>
     (\<exists>r'. av_provide env c r = Inr r' \<and> (\<forall>d. av_require env d r' = None \<longleftrightarrow> av_require env d r = None \<or> d = c)))"

lemma provide_ok:
  assumes "registry_ok env" and "\<not> in_registry env st c"
  obtains r' where "provide env c st = (add_cleanup (Provided c) (opened (Provided c) (st\<lparr>ap_registry := r'\<rparr>)), None)"
    "\<And>d. av_require env d r' = None \<longleftrightarrow> in_registry env st d \<or> d = c"
proof -
  obtain r' where "av_provide env c (ap_registry st) = Inr r'"
    "\<forall>d. av_require env d r' = None \<longleftrightarrow> av_require env d (ap_registry st) = None \<or> d = c"
    using assms unfolding registry_ok_def in_registry_def by blast
  then show thesis by (intro that [of r']) (simp_all add: provide_def in_registry_def)
qed

text \<open>Every client that is built answers, and so does the database; the path of the metrics is a pattern \<open>net/http\<close> takes.\<close>

definition all_answer :: "'r boot_env \<Rightarrow> config \<Rightarrow> mig_db \<Rightarrow> bool" where
  "all_answer env cfg db \<longleftrightarrow>
     (db_auto_migrate (cfg_db cfg) \<longrightarrow> (\<exists>db' reported. Migrate (av_connect env) (av_migrate env) cfg db = Some (db', reported, None)))
     \<and> (\<forall>dsn. pl_parse (av_pool env) dsn = None) \<and> (\<forall>ps. pl_open (av_pool env) ps = None) \<and> (\<forall>d. pl_ping (av_pool env) d = None)
     \<and> (\<forall>(n, d) \<in> set (bc_drivers (cfg_brokers cfg)). \<exists>p. brokers_build env d = Inr p)
     \<and> (mc_enabled (cfg_metrics cfg) \<longrightarrow> pattern_ok (mc_path (cfg_metrics cfg)))
     \<and> (\<forall>n p. av_listen env n p = None) \<and> av_exporter env = None \<and> (\<forall>s. av_subscribe env s = None)"

lemma connect_all:
  "\<forall>(n, d) \<in> set ds. \<exists>p. brokers_build env d = Inr p \<Longrightarrow>
   \<exists>st' pubs'. connect_drivers env pubs ds st = (st', Inr (pubs @ pubs')) \<and> map fst pubs' = map fst ds
     \<and> (\<exists>os cs. st' = st\<lparr>ap_open := os, ap_cleanups := cs\<rparr>)"
proof (induction ds arbitrary: pubs st)
  case (Cons x ds)
  obtain n d where x: "x = (n, d)" by (cases x)
  with Cons.prems obtain p where p: "brokers_build env d = Inr p" by auto
  have "\<forall>(n, d) \<in> set ds. \<exists>p. brokers_build env d = Inr p" using Cons.prems by simp
  from Cons.IH [OF this, of "pubs @ [(n, p)]" "add_cleanup (PublisherOpen n) (opened (PublisherOpen n) st)"]
  show ?case using p by (fastforce simp: x add_cleanup_def opened_def)
qed (metis (no_types, lifting) append.right_neutral app_state.surjective app_state.update_convs(2,3) connect_drivers.simps(1) list.map_disc_iff)

lemma router_streams_total:
  "\<forall>(n, s) \<in> set ss. sc_driver s \<in> fst ` set pubs \<Longrightarrow> \<exists>r. router_streams pubs ss = Inr r"
proof (induction ss)
  case (Cons x ss)
  obtain n s where x: "x = (n, s)" by (cases x)
  have "map_of pubs (sc_driver s) \<noteq> None" using Cons.prems by (simp add: x map_of_eq_None_iff)
  with Cons show ?case by (auto simp: x)
qed simp

text \<open>What a hook adds to the registry, and the goroutines it starts.\<close>

definition provides :: "hook_step \<Rightarrow> contract set" where
  "provides h =
     (case h of
        Before n \<Rightarrow> if n = ModuleTracing then {CTracer} else {}
      | After n \<Rightarrow>
          (case n of ModuleHub \<Rightarrow> {CHub} | ModuleDB \<Rightarrow> {CPool, CStore} | ModuleBrokers \<Rightarrow> {CRouter} | ModuleMetrics \<Rightarrow> {CMetrics} | _ \<Rightarrow> {}))"

definition tasks_of :: "config \<Rightarrow> hook_step \<Rightarrow> task list" where
  "tasks_of cfg h =
     (if h = After ModuleDispatch then map PipelineTask (StreamNames (cfg_brokers cfg))
        @ (if dc_notify_enabled (cfg_dispatch cfg) then [ListenerTask (StreamNames (cfg_brokers cfg))] else [])
      else if h = After ModuleJanitor \<and> jc_enabled (cfg_janitor cfg) then [JanitorTask] else [])"

text \<open>The state once the hooks in \<open>H\<close> have run.\<close>

definition booted :: "'r boot_env \<Rightarrow> config \<Rightarrow> mig_db \<Rightarrow> hook_step list \<Rightarrow> 'r app_state \<Rightarrow> bool" where
  "booted env cfg db H st \<longleftrightarrow>
     (\<forall>c. in_registry env st c \<longleftrightarrow> c \<in> (\<Union>h \<in> set H. provides h))
     \<and> ap_running st = concat (map (tasks_of cfg) H)
     \<and> (After ModuleDispatch \<notin> set H \<longrightarrow> ap_pipelines st = []) \<and> (After ModuleDispatch \<in> set H \<longrightarrow> ap_dispatching st)
     \<and> (Before ModuleDB \<notin> set H \<longrightarrow> ap_migrations st = db) \<and> (Before ModuleDB \<in> set H \<longrightarrow> ap_pool st \<noteq> None)
     \<and> (Before ModuleBrokers \<in> set H \<longrightarrow> ap_router st \<noteq> None)
     \<and> (After ModuleReady \<in> set H \<longrightarrow> ap_announced st = Some (ready_line_of (av_version env) cfg)) \<and> covered st"

lemma require_all_present: "\<forall>c \<in> set cs. in_registry env st c \<Longrightarrow> require_all env cs st = None"
  by (simp add: require_all_def in_registry_def List.map_filter_def filter_False)

lemma state_updates [simp]:
  "in_registry env (add_cleanup x st) c = in_registry env st c" "in_registry env (opened x st) c = in_registry env st c"
  "ap_running (add_cleanup x st) = ap_running st" "ap_running (opened x st) = ap_running st"
  "ap_pipelines (add_cleanup x st) = ap_pipelines st" "ap_pipelines (opened x st) = ap_pipelines st"
  "ap_dispatching (add_cleanup x st) = ap_dispatching st" "ap_dispatching (opened x st) = ap_dispatching st"
  "ap_migrations (add_cleanup x st) = ap_migrations st" "ap_migrations (opened x st) = ap_migrations st"
  "ap_pool (add_cleanup x st) = ap_pool st" "ap_pool (opened x st) = ap_pool st"
  "ap_router (add_cleanup x st) = ap_router st" "ap_router (opened x st) = ap_router st"
  "ap_announced (add_cleanup x st) = ap_announced st" "ap_announced (opened x st) = ap_announced st"
  "ap_registry (add_cleanup x st) = ap_registry st" "ap_registry (opened x st) = ap_registry st"
  by (simp_all add: add_cleanup_def opened_def in_registry_def)

definition boot_assumptions :: "'r boot_env \<Rightarrow> config \<Rightarrow> mig_db \<Rightarrow> bool" where
  "boot_assumptions env cfg db \<longleftrightarrow> registry_ok env \<and> all_answer env cfg db
     \<and> (\<forall>ds. set (av_order env ds) = set ds)
     \<and> (\<forall>(n, s) \<in> set (bc_streams (cfg_brokers cfg)). sc_driver s \<in> fst ` set (bc_drivers (cfg_brokers cfg)))"

text \<open>What one more hook has to show.\<close>

definition grows :: "'r boot_env \<Rightarrow> config \<Rightarrow> hook_step \<Rightarrow> 'r app_state \<Rightarrow> 'r app_state \<Rightarrow> bool" where
  "grows env cfg h st st' \<longleftrightarrow>
     (\<forall>c. in_registry env st' c \<longleftrightarrow> in_registry env st c \<or> c \<in> provides h) \<and> ap_running st' = ap_running st @ tasks_of cfg h
     \<and> (h \<noteq> After ModuleDispatch \<longrightarrow> ap_pipelines st' = ap_pipelines st) \<and> (ap_dispatching st \<or> h = After ModuleDispatch \<longrightarrow> ap_dispatching st')
     \<and> (h \<noteq> Before ModuleDB \<longrightarrow> ap_migrations st' = ap_migrations st) \<and> (ap_pool st \<noteq> None \<or> h = Before ModuleDB \<longrightarrow> ap_pool st' \<noteq> None)
     \<and> (ap_router st \<noteq> None \<or> h = Before ModuleBrokers \<longrightarrow> ap_router st' \<noteq> None)
     \<and> (ap_announced st = Some (ready_line_of (av_version env) cfg) \<or> h = After ModuleReady \<longrightarrow>
          ap_announced st' = Some (ready_line_of (av_version env) cfg))
     \<and> covered st'"

lemma booted_grows:
  assumes b: "booted env cfg db H st" and g: "grows env cfg h st st'"
  shows "booted env cfg db (H @ [h]) st'"
proof -
  note b' = b [unfolded booted_def] and g' = g [unfolded grows_def]
  have "in_registry env st' c \<longleftrightarrow> c \<in> (\<Union>h \<in> set (H @ [h]). provides h)" for c
    using b' [THEN conjunct1, THEN spec, of c] g' [THEN conjunct1, THEN spec, of c] by auto
  moreover have "ap_running st' = concat (map (tasks_of cfg) (H @ [h]))" using b' g' by simp
  moreover have "ap_pipelines st' = []" if "After ModuleDispatch \<notin> set (H @ [h])"
    using b' g' that by (cases "h = After ModuleDispatch") simp_all
  moreover have "ap_dispatching st'" if "After ModuleDispatch \<in> set (H @ [h])"
    using b' g' that by (cases "h = After ModuleDispatch") simp_all
  moreover have "ap_migrations st' = db" if "Before ModuleDB \<notin> set (H @ [h])"
    using b' g' that by (cases "h = Before ModuleDB") simp_all
  moreover have "ap_pool st' \<noteq> None" if "Before ModuleDB \<in> set (H @ [h])"
    using b' g' that by (cases "h = Before ModuleDB") simp_all
  moreover have "ap_router st' \<noteq> None" if "Before ModuleBrokers \<in> set (H @ [h])"
    using b' g' that by (cases "h = Before ModuleBrokers") simp_all
  moreover have "ap_announced st' = Some (ready_line_of (av_version env) cfg)" if "After ModuleReady \<in> set (H @ [h])"
    using b' g' that by (cases "h = After ModuleReady") simp_all
  ultimately show ?thesis using g' unfolding booted_def by blast
qed

lemma provides_unique: "c \<in> provides h \<longleftrightarrow>
   h = (case c of CHub \<Rightarrow> After ModuleHub | CPool \<Rightarrow> After ModuleDB | CStore \<Rightarrow> After ModuleDB | CRouter \<Rightarrow> After ModuleBrokers
        | CTracer \<Rightarrow> Before ModuleTracing | CMetrics \<Rightarrow> After ModuleMetrics)"
  by (cases h; rename_tac n; case_tac n; cases c; simp add: provides_def)

lemma not_in_registry: "booted env cfg db H st \<Longrightarrow> h \<notin> set H \<Longrightarrow> c \<in> provides h \<Longrightarrow> \<not> in_registry env st c"
  unfolding booted_def by (auto simp only: provides_unique)

text \<open>One hook whose effect is to provide one contract, and the hooks that do nothing.\<close>

lemma provide_grows:
  assumes "booted env cfg db H st" and "h \<notin> set H" and "registry_ok env" and "provides h = {c}"
    and "h \<in> {After ModuleHub, After ModuleBrokers}"
  shows "\<exists>st'. provide env c st = (st', None) \<and> grows env cfg h st st'"
proof -
  have "\<not> in_registry env st c" using assms by (intro not_in_registry) auto
  then obtain r' where p: "provide env c st = (add_cleanup (Provided c) (opened (Provided c) (st\<lparr>ap_registry := r'\<rparr>)), None)"
    "\<And>d. av_require env d r' = None \<longleftrightarrow> in_registry env st d \<or> d = c" using provide_ok [OF assms(3)] by metis
  have "covered (fst (provide env c st))" using assms(1) by (intro covered_provide) (simp add: booted_def)
  then show ?thesis using p assms(4,5) by (auto simp: grows_def in_registry_def tasks_of_def)
qed

lemma idle_grows:
  assumes "booted env cfg db H st"
    and "h \<notin> {Before ModuleDB, Before ModuleBrokers, Before ModuleMetrics, Before ModuleTracing, After ModuleReady}"
    and "\<forall>n. h = After n \<longrightarrow> n = ModuleTracing"
  shows "grows env cfg h st st \<and> run_hook env cfg h st = Some (Return (st, None))"
  using assms
  by (cases h; rename_tac n; case_tac n) (auto simp: grows_def booted_def provides_def tasks_of_def module_hooks)

lemma open_db:
  assumes "booted env cfg db H st" and "Before ModuleDB \<notin> set H" and "all_answer env cfg db"
  shows "\<exists>st'. run_hook env cfg (Before ModuleDB) st = Some (Return (st', None)) \<and> grows env cfg (Before ModuleDB) st st'"
proof -
  obtain ps db' where o: "db_open env cfg st
      = Some (Return (add_cleanup PoolOpen (opened PoolOpen (st\<lparr>ap_migrations := db', ap_pool := Some ps\<rparr>)), None))"
  proof (cases "db_auto_migrate (cfg_db cfg)")
    case True
    then obtain db' reported where "Migrate (av_connect env) (av_migrate env) cfg (ap_migrations st) = Some (db', reported, None)"
      using assms by (auto simp: all_answer_def booted_def)
    with True assms(3) show thesis by (intro that [of _ db']) (simp add: db_open_def NewPool_def all_answer_def)
  next
    case False
    with assms(3) show thesis by (intro that [of _ "ap_migrations st"]) (simp add: db_open_def NewPool_def all_answer_def)
  qed
  have "covered st" using assms(1) by (simp add: booted_def)
  from covered_db_open [OF this o] o show ?thesis
    by (auto simp: module_hooks grows_def in_registry_def provides_def tasks_of_def)
qed

lemma publish_db:
  assumes "booted env cfg db H st" and "After ModuleDB \<notin> set H" and "registry_ok env"
  shows "\<exists>st'. run_hook env cfg (After ModuleDB) st = Some (Return (st', None)) \<and> grows env cfg (After ModuleDB) st st'"
proof -
  have "\<not> in_registry env st CPool" "\<not> in_registry env st CStore" using not_in_registry [OF assms(1,2)] by (simp_all add: provides_def)
  then obtain r1 where p1: "provide env CPool st = (add_cleanup (Provided CPool) (opened (Provided CPool) (st\<lparr>ap_registry := r1\<rparr>)), None)"
    "\<And>d. av_require env d r1 = None \<longleftrightarrow> in_registry env st d \<or> d = CPool" using provide_ok [OF assms(3)] by metis
  let ?st2 = "fst (provide env CPool st)"
  have "\<not> in_registry env ?st2 CStore" using p1 \<open>\<not> in_registry env st CStore\<close> by (simp add: in_registry_def)
  then obtain r2 where p2: "provide env CStore ?st2 = (add_cleanup (Provided CStore) (opened (Provided CStore) (?st2\<lparr>ap_registry := r2\<rparr>)), None)"
    "\<And>d. av_require env d r2 = None \<longleftrightarrow> in_registry env ?st2 d \<or> d = CStore" using provide_ok [OF assms(3), of ?st2 CStore] by metis
  have "covered st" using assms(1) by (simp add: booted_def)
  then have "covered (fst (provide env CStore ?st2))" by (intro covered_provide)
  then show ?thesis using p1 p2
    by (auto simp: module_hooks db_publish_def grows_def in_registry_def provides_def tasks_of_def)
qed

lemma connect_brokers:
  assumes "booted env cfg db H st" and "boot_assumptions env cfg db"
  shows "\<exists>st'. run_hook env cfg (Before ModuleBrokers) st = Some (Return (st', None)) \<and> grows env cfg (Before ModuleBrokers) st st'"
proof -
  note h = assms(2) [unfolded boot_assumptions_def]
  let ?ds = "av_order env (bc_drivers (cfg_brokers cfg))"
  have "\<forall>(n, d) \<in> set ?ds. \<exists>p. brokers_build env d = Inr p" using h by (simp add: all_answer_def)
  then obtain pubs os cs where c: "connect_drivers env [] ?ds st = (st\<lparr>ap_open := os, ap_cleanups := cs\<rparr>, Inr pubs)" "map fst pubs = map fst ?ds"
    using connect_all [of ?ds env "[]" st] by auto
  have "fst ` set pubs = fst ` set (bc_drivers (cfg_brokers cfg))" using c(2) h by (metis list.set_map)
  then obtain ss where "router_streams pubs (bc_streams (cfg_brokers cfg)) = Inr ss"
    using router_streams_total [of "bc_streams (cfg_brokers cfg)" pubs] h by auto
  then obtain rt where b: "brokers_connect env cfg st = (st\<lparr>ap_open := os, ap_cleanups := cs, ap_router := Some rt\<rparr>, None)"
    using c by (auto simp: brokers_connect_def NewRouter_def)
  have "covered (fst (brokers_connect env cfg st))" using assms(1) by (intro covered_hooks(2)) (simp add: booted_def)
  then show ?thesis using b
    by (auto simp: module_hooks grows_def in_registry_def provides_def tasks_of_def)
qed

lemma build_metrics:
  assumes "booted env cfg db H st" and "all_answer env cfg db"
  shows "\<exists>st'. run_hook env cfg (Before ModuleMetrics) st = Some (Return (st', None)) \<and> grows env cfg (Before ModuleMetrics) st st'"
proof -
  have "\<forall>n p. av_listen env n p = None" "mc_enabled (cfg_metrics cfg) \<longrightarrow> pattern_ok (mc_path (cfg_metrics cfg))"
    using assms(2) by (simp_all add: all_answer_def)
  then obtain st1 where b: "metrics_build env cfg st = Return (st1, None)" and keep: "ap_registry st1 = ap_registry st"
    "ap_running st1 = ap_running st" "ap_pipelines st1 = ap_pipelines st" "ap_dispatching st1 = ap_dispatching st"
    "ap_migrations st1 = ap_migrations st" "ap_pool st1 = ap_pool st" "ap_router st1 = ap_router st" "ap_announced st1 = ap_announced st"
    by (cases "mc_enabled (cfg_metrics cfg)") (simp_all add: metrics_build_def serve_def Let_def)
  have "covered st" using assms(1) by (simp add: booted_def)
  from covered_hooks(3) [OF this b] b keep show ?thesis
    by (auto simp: module_hooks grows_def in_registry_def provides_def tasks_of_def)
qed

lemma publish_metrics:
  assumes "booted env cfg db H st" and "After ModuleMetrics \<notin> set H" and "After ModuleHub \<in> set H" and "registry_ok env" and "all_answer env cfg db"
  shows "\<exists>st'. run_hook env cfg (After ModuleMetrics) st = Some (Return (st', None)) \<and> grows env cfg (After ModuleMetrics) st st'"
proof -
  let ?st2 = "st\<lparr>ap_subscribers := MetricsObserver # ap_subscribers st\<rparr>"
  have "covered st" using assms(1) by (simp add: booted_def)
  then have cov: "covered (fst (provide env CMetrics ?st2))" by (intro covered_provide) (simp add: covered_def)
  have "in_registry env st CHub" using assms(1,3) by (auto simp: booted_def provides_unique)
  then have req: "require_all env [CHub] st = None" by (intro require_all_present) simp
  have "\<not> in_registry env ?st2 CMetrics" using not_in_registry [OF assms(1,2), of CMetrics] by (simp add: in_registry_def provides_def)
  then obtain r' where p: "provide env CMetrics ?st2 = (add_cleanup (Provided CMetrics) (opened (Provided CMetrics) (?st2\<lparr>ap_registry := r'\<rparr>)), None)"
    "\<And>d. av_require env d r' = None \<longleftrightarrow> in_registry env ?st2 d \<or> d = CMetrics" using provide_ok [OF assms(4)] by metis
  show ?thesis using cov req p assms(5)
    by (auto simp: module_hooks metrics_publish_def grows_def in_registry_def provides_def tasks_of_def all_answer_def)
qed

lemma build_tracing:
  assumes "booted env cfg db H st" and "Before ModuleTracing \<notin> set H" and "registry_ok env" and "all_answer env cfg db"
  shows "\<exists>st'. run_hook env cfg (Before ModuleTracing) st = Some (Return (st', None)) \<and> grows env cfg (Before ModuleTracing) st st'"
proof -
  have "tracing_New env (cfg_otel cfg) = Inr (otel_endpoint (cfg_otel cfg) \<noteq> [])"
    using assms(4) by (simp add: tracing_New_def all_answer_def)
  then obtain on where n: "tracing_New env (cfg_otel cfg) = Inr on" by blast
  let ?st1 = "(if on then opened ExporterOpen else id) (st\<lparr>ap_tracer := Some on\<rparr>)"
  have "\<not> in_registry env ?st1 CTracer" using not_in_registry [OF assms(1,2), of CTracer] by (simp add: in_registry_def provides_def)
  then obtain r' where p: "provide env CTracer ?st1 = (add_cleanup (Provided CTracer) (opened (Provided CTracer) (?st1\<lparr>ap_registry := r'\<rparr>)), None)"
    "\<And>d. av_require env d r' = None \<longleftrightarrow> in_registry env ?st1 d \<or> d = CTracer" using provide_ok [OF assms(3)] by metis
  have b: "tracing_build env cfg st = (add_cleanup ExporterOpen (fst (provide env CTracer ?st1)), None)"
    using n p(1) by (simp add: tracing_build_def Let_def)
  have ex: "\<exists>r. av_provide env CTracer (ap_registry st) = Inr r"
    using p(1) by (cases on) (auto simp: provide_def split: sum.splits)
  have "covered (add_cleanup ExporterOpen (fst (provide env CTracer ?st1)))"
    using covered_tracing [OF _ b ex] assms(1) by (simp add: booted_def)
  then show ?thesis using b p
    by (auto simp: module_hooks grows_def in_registry_def provides_def tasks_of_def)
qed

lemma start_dispatch:
  assumes "booted env cfg db H st" and "After ModuleDispatch \<notin> set H"
    and "{After ModuleDB, After ModuleBrokers, After ModuleHub, Before ModuleTracing} \<subseteq> set H" and "all_answer env cfg db"
  shows "\<exists>st'. run_hook env cfg (After ModuleDispatch) st = Some (Return (st', None)) \<and> grows env cfg (After ModuleDispatch) st st'"
proof -
  have "require_all env [CStore, CRouter, CHub, CTracer] st = None"
    using assms(1,3) by (intro require_all_present) (auto simp: booted_def provides_unique)
  moreover have "ap_pipelines st = []" "covered st" using assms(1,2) by (simp_all add: booted_def)
  ultimately show ?thesis using assms(4)
    by (auto simp: module_hooks dispatch_start_def start_listener_def grows_def in_registry_def provides_def tasks_of_def
        all_answer_def Let_def covered_def)
qed

lemma start_janitor:
  assumes "booted env cfg db H st" and "{After ModuleDB, After ModuleHub} \<subseteq> set H"
  shows "\<exists>st'. run_hook env cfg (After ModuleJanitor) st = Some (Return (st', None)) \<and> grows env cfg (After ModuleJanitor) st st'"
proof -
  have "require_all env [CStore, CHub] st = None"
    using assms by (intro require_all_present) (auto simp: booted_def provides_unique)
  moreover have "covered st" using assms(1) by (simp add: booted_def)
  ultimately show ?thesis
    by (auto simp: module_hooks janitor_start_def grows_def in_registry_def provides_def tasks_of_def covered_def)
qed

lemma start_http:
  assumes "booted env cfg db H st" and "After ModuleDB \<in> set H" and "all_answer env cfg db"
  shows "\<exists>st'. run_hook env cfg (After ModuleHTTP) st = Some (Return (st', None)) \<and> grows env cfg (After ModuleHTTP) st st'"
proof -
  have "require_all env [CStore] st = None"
    using assms(1,2) by (intro require_all_present) (auto simp: booted_def provides_unique)
  moreover have "covered st" using assms(1) by (simp add: booted_def)
  ultimately show ?thesis using assms(3) covered_hooks(7) [of st env cfg]
    by (auto simp: module_hooks http_listen_def serve_def grows_def in_registry_def provides_def tasks_of_def all_answer_def)
qed

lemma announce_ready:
  assumes "booted env cfg db H st"
  shows "\<exists>st'. run_hook env cfg (After ModuleReady) st = Some (Return (st', None)) \<and> grows env cfg (After ModuleReady) st st'"
  using assms by (auto simp: booted_def module_hooks announce_def grows_def in_registry_def provides_def tasks_of_def covered_def)

text \<open>
  The orders the framework may run the hooks in: a module starts only after the modules it declares as
  dependencies have started, and its second hook runs after its first.
\<close>

definition deps_of :: "app_module \<Rightarrow> app_module list" where
  "deps_of n = (case map_of module_entries n of None \<Rightarrow> [] | Some ds \<Rightarrow> ds)"

definition may_run :: "hook_step list \<Rightarrow> hook_step \<Rightarrow> bool" where
  "may_run H h \<longleftrightarrow> h \<notin> set H \<and>
     (case h of Before n \<Rightarrow> After ` set (deps_of n) \<subseteq> set H | After n \<Rightarrow> Before n \<in> set H)"

fun in_order :: "hook_step list \<Rightarrow> hook_step list \<Rightarrow> bool" where
  "in_order H [] \<longleftrightarrow> True"
| "in_order H (h # hs) \<longleftrightarrow> may_run H h \<and> in_order (H @ [h]) hs"

definition closed :: "hook_step list \<Rightarrow> bool" where
  "closed H \<longleftrightarrow> (\<forall>n. (After n \<in> set H \<longrightarrow> Before n \<in> set H) \<and> (Before n \<in> set H \<longrightarrow> After ` set (deps_of n) \<subseteq> set H))"

lemma closed_step: "closed H \<Longrightarrow> may_run H h \<Longrightarrow> closed (H @ [h])"
  by (cases h) (auto simp: closed_def may_run_def)

lemma deps_of_simps:
  "deps_of ModuleMetrics = [ModuleHub]" "deps_of ModuleDispatch = [ModuleDB, ModuleBrokers, ModuleHub, ModuleMetrics, ModuleTracing]"
  "deps_of ModuleJanitor = [ModuleDB, ModuleHub, ModuleMetrics]" "deps_of ModuleHTTP = [ModuleDB, ModuleMetrics]"
  by (simp_all add: deps_of_def module_entries_def)

lemma closed_deps:
  assumes "closed H" and "Before n \<in> set H" and "m \<in> set (deps_of n)"
  shows "After m \<in> set H" and "Before m \<in> set H"
  using assms by (auto simp: closed_def)

text \<open>A hook that may run succeeds.\<close>

lemma before_runs:
  assumes "booted env cfg db H st" and "Before n \<notin> set H" and "boot_assumptions env cfg db"
  shows "\<exists>st'. run_hook env cfg (Before n) st = Some (Return (st', None)) \<and> grows env cfg (Before n) st st'"
proof -
  note h = assms(3) [unfolded boot_assumptions_def]
  show ?thesis
    using h assms idle_grows [OF assms(1), of "Before n"]
    by (cases n) (blast intro: open_db connect_brokers build_metrics build_tracing)+
qed

lemma after_runs:
  assumes "booted env cfg db H st" and "After n \<notin> set H" and "Before n \<in> set H" and "closed H" and "boot_assumptions env cfg db"
  shows "\<exists>st'. run_hook env cfg (After n) st = Some (Return (st', None)) \<and> grows env cfg (After n) st st'"
proof -
  note h = assms(5) [unfolded boot_assumptions_def] and deps = closed_deps [OF assms(4,3)]
  show ?thesis
  proof (cases n)
    case ModuleHub
    then show ?thesis
      using provide_grows [OF assms(1), of "After ModuleHub" CHub] assms(2) h by (auto simp: provides_def module_hooks)
  next
    case ModuleBrokers
    then show ?thesis
      using provide_grows [OF assms(1), of "After ModuleBrokers" CRouter] assms(2) h
      by (auto simp: provides_def module_hooks brokers_publish_def)
  next
    case ModuleTracing
    then show ?thesis using idle_grows [OF assms(1), of "After ModuleTracing"] by blast
  next
    case ModuleDispatch
    then show ?thesis using start_dispatch [OF assms(1)] assms(2) h deps by (simp add: deps_of_simps)
  next
    case ModuleMetrics
    then show ?thesis using publish_metrics [OF assms(1)] assms(2) h deps by (simp add: deps_of_simps)
  next
    case ModuleJanitor
    then show ?thesis using start_janitor [OF assms(1)] deps by (simp add: deps_of_simps)
  next
    case ModuleHTTP
    then show ?thesis using start_http [OF assms(1)] h deps by (simp add: deps_of_simps)
  qed (use assms h publish_db announce_ready in blast)+
qed

lemma start_all_boots:
  "booted env cfg db H st \<Longrightarrow> closed H \<Longrightarrow> in_order H hs \<Longrightarrow> boot_assumptions env cfg db \<Longrightarrow>
   \<exists>st'. start_all env cfg hs st = Some (Return (st', None)) \<and> booted env cfg db (H @ hs) st'"
proof (induction hs arbitrary: H st)
  case (Cons h hs)
  have m: "may_run H h" using Cons.prems(3) by simp
  obtain st1 where s: "run_hook env cfg h st = Some (Return (st1, None))" "grows env cfg h st st1"
    using before_runs [OF Cons.prems(1) _ Cons.prems(4)] after_runs [OF Cons.prems(1) _ _ Cons.prems(2,4)] m
    by (cases h) (fastforce simp: may_run_def)+
  from Cons.IH [OF booted_grows [OF Cons.prems(1) s(2)] closed_step [OF Cons.prems(2) m]] Cons.prems(3,4) show ?case
    using s(1) by simp
qed simp

lemma initial_booted:
  assumes "\<And>c. av_require env c r \<noteq> None"
  shows "booted env cfg db [] (initial r db)"
  using assms by (simp add: booted_def initial_def in_registry_def covered_def)

definition all_hooks :: "hook_step list" where
  "all_hooks = concat (map (\<lambda>(n, ds). [Before n, After n]) module_entries)"

lemma set_all_hooks: "h \<in> set all_hooks"
  by (cases h; rename_tac n; case_tac n; simp add: all_hooks_def module_entries_def)

lemma all_contracts: "set hs = set all_hooks \<Longrightarrow> c \<in> (\<Union>h \<in> set hs. provides h)"
  using set_all_hooks by (cases c) (auto simp: provides_unique)

lemma tasks_total:
  assumes "set hs = set all_hooks" and "distinct hs"
  shows "mset (concat (map (tasks_of cfg) hs)) = mset (tasks_of cfg (After ModuleDispatch)) + mset (tasks_of cfg (After ModuleJanitor))"
proof -
  have "mset (concat (map (tasks_of cfg) xs)) = (\<Sum>h \<in> set xs. mset (tasks_of cfg h))" if "distinct xs" for xs
    using that by (induction xs) auto
  from this [OF assms(2)] have "mset (concat (map (tasks_of cfg) hs)) = (\<Sum>h \<in> set all_hooks. mset (tasks_of cfg h))"
    using assms(1) by simp
  also have "\<dots> = (\<Sum>h \<in> {After ModuleDispatch, After ModuleJanitor}. mset (tasks_of cfg h))"
    by (rule sum.mono_neutral_right) (auto simp: set_all_hooks tasks_of_def)
  finally show ?thesis by simp
qed

lemma in_order_distinct: "in_order H hs \<Longrightarrow> distinct H \<Longrightarrow> distinct (H @ hs)"
  by (induction H hs rule: in_order.induct) (auto simp: may_run_def)

text \<open>
  The destroy hooks leave no goroutine behind when they finish within the budget, and a registration that the framework
  accepts hands over every module under a name of its own, after the modules it depends on.
\<close>

lemma destroyed_modules_run_nothing:
  assumes "set (ap_running st) \<subseteq> range PipelineTask \<union> range ListenerTask \<union> {JanitorTask}"
    and "ap_dispatching st" and "ap_housekeeping st"
  shows "ap_running (fst (mh_destroy (hooks_of env cfg ModuleDispatch) None (fst (mh_destroy (hooks_of env cfg ModuleJanitor) None st)))) = []"
  using assms by (auto simp: module_hooks dispatch_stop_def janitor_stop_def filter_empty_conv)

lemma registration_is_ordered: "distinct (map (module_text \<circ> fst) module_entries)" "in_order [] all_hooks"
  by (simp_all add: all_hooks_def module_entries_def module_text_def deps_of_def may_run_def)

lemma app_New_accepts: "(\<And>n ds. accept n ds = None) \<Longrightarrow> \<exists>v. app_New accept build = Inr v \<and> vi_version v = bi_version build"
proof -
  assume "\<And>n ds. accept n ds = None"
  then have "register_entries accept es = None" for es by (induction accept es rule: register_entries.induct) simp_all
  then show ?thesis by (simp add: app_New_def)
qed

text \<open>
  A module that is stopped keeps saying that it is healthy, and one that is started again runs
  every pipeline twice.
\<close>

lemma stopped_dispatcher_is_healthy:
  assumes "ap_dispatching st"
  shows "dispatch_HealthCheck (fst (dispatch_stop None st)) = None \<and> set (ap_running (fst (dispatch_stop None st))) \<subseteq> {JanitorTask}"
  using assms by (auto simp: dispatch_HealthCheck_def dispatch_stop_def)

lemma restarted_dispatcher_runs_twice:
  assumes "ap_pipelines st = StreamNames (cfg_brokers cfg)" and "dispatch_start env cfg st = (st', None)"
  shows "ap_pipelines st' = StreamNames (cfg_brokers cfg) @ StreamNames (cfg_brokers cfg)"
  using assms by (auto simp: dispatch_start_def start_listener_def Let_def split: option.splits)

text \<open>A statement timeout below a millisecond turns the timeout off.\<close>

lemma short_statement_timeout_is_none:
  "0 < db_statement_timeout cfg \<Longrightarrow> db_statement_timeout cfg < millisecond \<Longrightarrow>
   ps_statement_timeout (pool_settings_of cfg name) = Some ''0''"
proof -
  have "nat_digits 0 = ''0''" by code_simp
  moreover assume "0 < db_statement_timeout cfg" "db_statement_timeout cfg < millisecond"
  ultimately show ?thesis by (simp add: pool_settings_of_def milliseconds_def itoa_def)
qed

subsection \<open>Properties\<close>

text \<open>
  A configuration that validates can still panic: the path of the metrics is only checked for its slash.
\<close>

lemma metrics_path_panics:
  "mc_enabled (cfg_metrics cfg) \<Longrightarrow> mc_path (cfg_metrics cfg) = [CHR ''/'', CHR 0x7B] \<Longrightarrow>
   has_prefix (mc_path (cfg_metrics cfg)) ''/'' \<and> metrics_build env cfg st = Panic (''parsing '' @ go_quote [CHR ''/'', CHR 0x7B])"
  by (simp add: metrics_build_def Let_def pattern_ok_def has_prefix_def)

text \<open>
  C40.  The process comes up.  Modules that do not depend on each other start concurrently: in every order of
  their hooks in which a module starts only after the modules it declares as dependencies have, no start fails for a
  missing contract.  If the database, the brokers, the ports and the collector answer, every stream
  names a configured driver and the path of the metrics, when they are served, is a pattern that \<open>net/http\<close> accepts, then
  nothing panics, all modules start, every contract is provided, and exactly the configured goroutines run, one pipeline per
  stream, the listener if notifications are enabled and the janitor if it is; the dispatcher reports itself
  healthy, the ready line shows the configuration, and everything that was opened has a cleanup registered.
\<close>

theorem application_starts:
  assumes "in_order [] hs" and "set hs = set all_hooks"
    and registry: "registry_ok env" and fresh: "\<And>c. av_require env c r \<noteq> None"
    and answers: "all_answer env cfg db" and map_order: "\<forall>ds. set (av_order env ds) = set ds"
    and "\<forall>(n, s) \<in> set (bc_streams (cfg_brokers cfg)). sc_driver s \<in> fst ` set (bc_drivers (cfg_brokers cfg))"
  shows "\<exists>st. start_all env cfg hs (initial r db) = Some (Return (st, None)) \<and> (\<forall>c. in_registry env st c)
    \<and> mset (ap_running st) = mset (map PipelineTask (StreamNames (cfg_brokers cfg)))
        + (if dc_notify_enabled (cfg_dispatch cfg) then {#ListenerTask (StreamNames (cfg_brokers cfg))#} else {#})
        + (if jc_enabled (cfg_janitor cfg) then {#JanitorTask#} else {#})
    \<and> dispatch_HealthCheck st = None \<and> db_HealthCheck None st = None \<and> ap_router st \<noteq> None
    \<and> ap_announced st = Some (ready_line_of (av_version env) cfg) \<and> set (ap_open st) \<subseteq> set (ap_cleanups st)"
proof -
  have a: "boot_assumptions env cfg db" using assms by (simp add: boot_assumptions_def)
  have "closed []" by (simp add: closed_def)
  from start_all_boots [OF initial_booted [OF fresh] this assms(1) a] obtain st where
    s: "start_all env cfg hs (initial r db) = Some (Return (st, None))" and b: "booted env cfg db hs st" by auto
  have d: "distinct hs" using in_order_distinct [OF assms(1)] by simp
  have "h \<in> set hs" for h using set_all_hooks assms(2) by simp
  then have "ap_dispatching st" "ap_pool st \<noteq> None" "ap_router st \<noteq> None" "ap_announced st = Some (ready_line_of (av_version env) cfg)" "covered st"
    "ap_running st = concat (map (tasks_of cfg) hs)" "\<forall>c. in_registry env st c"
    using b all_contracts [OF assms(2)] by (simp_all add: booted_def)
  then show ?thesis using s tasks_total [OF assms(2) d, of cfg]
    by (auto simp: dispatch_HealthCheck_def db_HealthCheck_def covered_def tasks_of_def)
qed

text \<open>
  A registry that is a set and clients that answer; one stream on one RabbitMQ driver; the layers of the graph, each
  with its modules' hooks interleaved.
\<close>

definition demo_publisher :: publisher_ops where
  "demo_publisher = \<lparr>pub_publish = map (\<lambda>_. None), pub_health = None, pub_close = None\<rparr>"

definition demo_boot :: "contract set boot_env" where
  "demo_boot = \<lparr>av_provide = (\<lambda>c r. if c \<in> r then Inl IoEOF else Inr (insert c r)), av_require = (\<lambda>c r. if c \<in> r then None else Some IoEOF),
     av_connect = None, av_migrate = \<lparr>me_dir = Inr [], me_sha256 = id, me_rounds = [], me_schema_fault = NoFault, me_table_fault = NoFault,
       me_read_fault = ReadOk, me_apply = (\<lambda>v. \<lparr>ae_begin = None, ae_exec = None, ae_insert = None, ae_commit = NoFault, ae_now = v\<rparr>)\<rparr>,
     av_pool = \<lparr>pl_url = (\<lambda>_. []), pl_parse = (\<lambda>_. None), pl_open = (\<lambda>_. None), pl_ping = (\<lambda>_. None)\<rparr>,
     av_order = rev, av_rabbitmq = (\<lambda>_. Inr demo_publisher), av_kafka = (\<lambda>_. Inl IoEOF), av_postgres = (\<lambda>_. Inl IoEOF),
     av_listen = (\<lambda>_ _. None), av_exporter = None, av_subscribe = (\<lambda>_. None),
     av_version = \<lparr>vi_version = ''v1'', vi_commit = [], vi_built = []\<rparr>\<rparr>"

definition demo_boot_config :: config where
  "demo_boot_config = demo_settings\<lparr>cfg_brokers :=
       \<lparr>bc_streams = [(''orders'', \<lparr>sc_name = ''orders'', sc_driver = ''main''\<rparr>)],
        bc_drivers = [(''main'', RabbitMQDriver \<lparr>rd_name = ''main'', rd_naming = \<lparr>n_prefix = [], n_prefix_sep = ''.'', n_version_sep = ''.''\<rparr>, rd_dsn = ''amqp://mq'', rd_channels = 4,
          rd_declare = False, rd_mandatory = True, rd_publish_timeout = 5 * second, rd_reconnect_delay = second\<rparr>)]\<rparr>,
     cfg_db := (cfg_db demo_settings)\<lparr>db_auto_migrate := False\<rparr>\<rparr>"

definition demo_schedule :: "hook_step list" where
  "demo_schedule =
     map Before [ModuleTracing, ModuleBrokers, ModuleDB, ModuleHub] @ map After [ModuleHub, ModuleDB, ModuleBrokers, ModuleTracing]
     @ [Before ModuleMetrics, After ModuleMetrics]
     @ map Before [ModuleHTTP, ModuleJanitor, ModuleDispatch] @ map After [ModuleDispatch, ModuleHTTP, ModuleJanitor]
     @ [Before ModuleReady, After ModuleReady]"

theorem application_starts_witness:
  "\<exists>st. start_all demo_boot demo_boot_config demo_schedule (initial {} \<lparr>md_schema = False, md_records = None, md_scripts = []\<rparr>)
     = Some (Return (st, None)) \<and> ap_announced st = Some (ready_line_of (av_version demo_boot) demo_boot_config)
     \<and> dispatch_HealthCheck st = None \<and> mset (ap_running st) = {#PipelineTask ''orders'', JanitorTask#}"
proof -
  have "in_order [] demo_schedule" by (simp add: demo_schedule_def module_entries_def deps_of_def may_run_def)
  moreover have "set demo_schedule = set all_hooks" by (auto simp: demo_schedule_def all_hooks_def module_entries_def)
  moreover have "registry_ok demo_boot" by (auto simp: registry_ok_def demo_boot_def)
  moreover have "pattern_ok ''/metrics''" by code_simp
  then have "all_answer demo_boot demo_boot_config db" for db
    by (simp add: all_answer_def demo_boot_def demo_boot_config_def demo_settings_def brokers_build_def)
  moreover have "av_require demo_boot c {} \<noteq> None" "set (av_order demo_boot ds) = set ds" for c ds by (simp_all add: demo_boot_def)
  moreover have "StreamNames (cfg_brokers demo_boot_config) = [''orders'']" "dc_notify_enabled (cfg_dispatch demo_boot_config) = False"
      "jc_enabled (cfg_janitor demo_boot_config)"
    by (simp_all add: demo_boot_config_def demo_settings_def StreamNames_def)
  moreover have "\<forall>(n, s) \<in> set (bc_streams (cfg_brokers demo_boot_config)). sc_driver s \<in> fst ` set (bc_drivers (cfg_brokers demo_boot_config))"
    by (simp add: demo_boot_config_def)
  ultimately show ?thesis
    using application_starts [of demo_schedule demo_boot "{}" demo_boot_config "\<lparr>md_schema = False, md_records = None, md_scripts = []\<rparr>"]
    by (auto simp: add_mset_commute)
qed

end
