(* ===== verification/Broker_Channels.thy ===== *)
theory Broker_Channels
  imports Broker_RabbitMQ
begin

text \<open>
  The pool of channels behind the RabbitMQ driver (\<open>internal/broker/rabbitmq/conn.go\<close>, \<open>channel.go\<close>) under any
  interleaving of publishers, the supervisor, the goroutines that wait for a connection to close, and \<open>Close\<close>.

  \<open>Broker_RabbitMQ\<close> follows one publisher and sees a connection that is there or not.  Here connections
  are objects with a number, because a publisher gives a channel back to the connection it took it from,
  which need not be the current one any more.  A step is what one goroutine does between two points where
  another can run: reading \<open>current\<close> under the lock and receiving from the pool are two steps of \<open>acquire\<close>,
  and forgetting the connection and queueing the request are two steps of \<open>requestRedial\<close>.
\<close>

subsection \<open>Definitions\<close>

text \<open>A connection: the channels in its pool, all its channels, whether it is closed, and whether a goroutine still waits for that.\<close>

record amqp_connection =
  cn_channels :: "nat list"
  cn_capacity :: nat
  cn_all :: "nat list"
  cn_closed :: bool
  cn_notify :: bool

datatype publisher_phase = Away | Waiting nat | Holding nat nat

datatype supervisor_phase = Watching | Redialing | Opening | Gone

record channel_pool =
  cp_conns :: "nat \<Rightarrow> amqp_connection"
  cp_next :: nat
  cp_current :: "nat option"
  cp_redial :: bool
  cp_signals :: nat
  cp_phase :: "nat \<Rightarrow> publisher_phase"
  cp_supervisor :: supervisor_phase
  cp_shut :: bool

definition new_connection :: "rabbitmq_driver \<Rightarrow> amqp_connection" where
  "new_connection cfg =
     \<lparr>cn_channels = [0..<nat (rd_channels cfg)], cn_capacity = nat (rd_channels cfg),
      cn_all = [0..<nat (rd_channels cfg)], cn_closed = False, cn_notify = True\<rparr>"

text \<open>The end of \<open>connect\<close>: the connection is built, and becomes the current one.\<close>

definition pool_connected :: "rabbitmq_driver \<Rightarrow> channel_pool \<Rightarrow> channel_pool" where
  "pool_connected cfg s =
     s\<lparr>cp_conns := (cp_conns s)(cp_next s := new_connection cfg), cp_current := Some (cp_next s), cp_next := Suc (cp_next s)\<rparr>"

definition pool_dialed :: "rabbitmq_driver \<Rightarrow> channel_pool" where
  "pool_dialed cfg =
     pool_connected cfg \<lparr>cp_conns = (\<lambda>_. new_connection cfg), cp_next = 0, cp_current = None, cp_redial = False, cp_signals = 0,
       cp_phase = (\<lambda>_. Away), cp_supervisor = Watching, cp_shut = False\<rparr>"

text \<open>\<open>acquire\<close>: no connection is an error at once; otherwise the publisher waits on the pool of the one it saw.\<close>

definition pool_pick :: "nat \<Rightarrow> channel_pool \<Rightarrow> err + channel_pool" where
  "pool_pick w s =
     (case cp_current s of
        None \<Rightarrow> Inl ErrNotConnected
      | Some g \<Rightarrow> Inr (s\<lparr>cp_phase := (cp_phase s)(w := Waiting g)\<rparr>))"

definition pool_take :: "nat \<Rightarrow> nat \<Rightarrow> channel_pool \<Rightarrow> channel_pool option" where
  "pool_take w g s =
     (case cn_channels (cp_conns s g) of
        [] \<Rightarrow> None
      | c # cs \<Rightarrow>
          Some (s\<lparr>cp_conns := (cp_conns s)(g := (cp_conns s g)\<lparr>cn_channels := cs\<rparr>),
                  cp_phase := (cp_phase s)(w := Holding g c)\<rparr>))"

text \<open>\<open>release\<close> drops the channel when the buffer is full.\<close>

definition conn_release :: "nat \<Rightarrow> amqp_connection \<Rightarrow> amqp_connection" where
  "conn_release c cn =
     (if length (cn_channels cn) < cn_capacity cn then cn\<lparr>cn_channels := cn_channels cn @ [c]\<rparr> else cn)"

definition pool_release :: "nat \<Rightarrow> nat \<Rightarrow> nat \<Rightarrow> channel_pool \<Rightarrow> channel_pool" where
  "pool_release w g c s =
     s\<lparr>cp_conns := (cp_conns s)(g := conn_release c (cp_conns s g)), cp_phase := (cp_phase s)(w := Away)\<rparr>"

text \<open>\<open>requestRedial\<close> in its two halves; a request that is already queued is enough.\<close>

definition pool_forget :: "channel_pool \<Rightarrow> channel_pool" where
  "pool_forget s = s\<lparr>cp_current := None, cp_signals := Suc (cp_signals s)\<rparr>"

definition pool_signal :: "channel_pool \<Rightarrow> channel_pool" where
  "pool_signal s = s\<lparr>cp_redial := True, cp_signals := cp_signals s - 1\<rparr>"

definition pool_close :: "channel_pool \<Rightarrow> channel_pool" where
  "pool_close s =
     (if cp_shut s then s
      else case cp_current s of
        None \<Rightarrow> s\<lparr>cp_shut := True\<rparr>
      | Some g \<Rightarrow>
          s\<lparr>cp_shut := True, cp_current := None,
            cp_conns := (cp_conns s)(g := (cp_conns s g)\<lparr>cn_closed := True, cn_notify := False\<rparr>)\<rparr>)"

definition pool_live :: "channel_pool \<Rightarrow> bool" where
  "pool_live s \<longleftrightarrow> (case cp_current s of None \<Rightarrow> False | Some g \<Rightarrow> \<not> cn_closed (cp_conns s g))"

text \<open>
  The steps.  A publisher gives up when its context ends, and fails while it holds a channel.  The broker may close
  any connection; the goroutine that waits for this then asks for a redial.  Dialling stops with
  the supervisor's context, opening the channels of a dialled connection does not.
\<close>

datatype pool_label = PPick nat | PTake nat | PGiveUp nat | PFail nat | PRelease nat | PSignal | PBroken nat | PNotify nat
  | PRedial | PDialed | POpened | PNotOpened | PClose | PStop

inductive pool_step :: "rabbitmq_driver \<Rightarrow> channel_pool \<Rightarrow> pool_label \<Rightarrow> channel_pool \<Rightarrow> bool" for cfg where
  Pick: "cp_phase s w = Away \<Longrightarrow> pool_pick w s = Inr s' \<Longrightarrow> pool_step cfg s (PPick w) s'"
| Take: "cp_phase s w = Waiting g \<Longrightarrow> pool_take w g s = Some s' \<Longrightarrow> pool_step cfg s (PTake w) s'"
| GiveUp: "cp_phase s w = Waiting g \<Longrightarrow> pool_step cfg s (PGiveUp w) (s\<lparr>cp_phase := (cp_phase s)(w := Away)\<rparr>)"
| Fail: "cp_phase s w = Holding g c \<Longrightarrow> pool_step cfg s (PFail w) (pool_forget s)"
| Release: "cp_phase s w = Holding g c \<Longrightarrow> pool_step cfg s (PRelease w) (pool_release w g c s)"
| Signal: "0 < cp_signals s \<Longrightarrow> pool_step cfg s PSignal (pool_signal s)"
| Broken: "g < cp_next s \<Longrightarrow> \<not> cn_closed (cp_conns s g) \<Longrightarrow>
    pool_step cfg s (PBroken g) (s\<lparr>cp_conns := (cp_conns s)(g := (cp_conns s g)\<lparr>cn_closed := True\<rparr>)\<rparr>)"
| Notify: "g < cp_next s \<Longrightarrow> cn_closed (cp_conns s g) \<Longrightarrow> cn_notify (cp_conns s g) \<Longrightarrow>
    pool_step cfg s (PNotify g) (pool_forget (s\<lparr>cp_conns := (cp_conns s)(g := (cp_conns s g)\<lparr>cn_notify := False\<rparr>)\<rparr>))"
| Redial: "cp_supervisor s = Watching \<Longrightarrow> cp_redial s \<Longrightarrow>
    pool_step cfg s PRedial (s\<lparr>cp_redial := False, cp_supervisor := Redialing\<rparr>)"
| Dialed: "cp_supervisor s = Redialing \<Longrightarrow> \<not> cp_shut s \<Longrightarrow> pool_step cfg s PDialed (s\<lparr>cp_supervisor := Opening\<rparr>)"
| Opened: "cp_supervisor s = Opening \<Longrightarrow>
    pool_step cfg s POpened (pool_connected cfg (s\<lparr>cp_supervisor := Watching\<rparr>))"
| NotOpened: "cp_supervisor s = Opening \<Longrightarrow> pool_step cfg s PNotOpened (s\<lparr>cp_supervisor := Redialing\<rparr>)"
| Close: "pool_step cfg s PClose (pool_close s)"
| Stop: "cp_supervisor s \<noteq> Opening \<Longrightarrow> cp_shut s \<Longrightarrow> pool_step cfg s PStop (s\<lparr>cp_supervisor := Gone\<rparr>)"

inductive pool_run :: "rabbitmq_driver \<Rightarrow> channel_pool \<Rightarrow> pool_label list \<Rightarrow> channel_pool \<Rightarrow> bool" for cfg where
  Nil: "pool_run cfg s [] s"
| Cons: "pool_step cfg s l s' \<Longrightarrow> pool_run cfg s' ls s'' \<Longrightarrow> pool_run cfg s (l # ls) s''"

inductive_simps pool_run_Nil [simp]: "pool_run cfg s [] s'"
inductive_simps pool_run_Cons: "pool_run cfg s (l # ls) s'"

subsection \<open>The invariant\<close>

definition held_by :: "channel_pool \<Rightarrow> nat \<Rightarrow> nat set" where
  "held_by s g = {c. \<exists>w. cp_phase s w = Holding g c}"

text \<open>Each channel of a connection is in its pool or with a publisher, never both.\<close>

definition conn_ok :: "channel_pool \<Rightarrow> nat \<Rightarrow> bool" where
  "conn_ok s g \<longleftrightarrow>
     (let cn = cp_conns s g in
      distinct (cn_channels cn) \<and> distinct (cn_all cn) \<and> cn_capacity cn = length (cn_all cn)
      \<and> set (cn_channels cn) \<union> held_by s g = set (cn_all cn) \<and> set (cn_channels cn) \<inter> held_by s g = {})"

definition exclusive_holders :: "channel_pool \<Rightarrow> bool" where
  "exclusive_holders s \<longleftrightarrow> (\<forall>w w' g c. cp_phase s w = Holding g c \<longrightarrow> cp_phase s w' = Holding g c \<longrightarrow> w = w')"

fun phase_conn :: "publisher_phase \<Rightarrow> nat option" where
  "phase_conn Away = None"
| "phase_conn (Waiting g) = Some g"
| "phase_conn (Holding g c) = Some g"

definition phase_ok :: "channel_pool \<Rightarrow> bool" where
  "phase_ok s \<longleftrightarrow> (\<forall>w g. phase_conn (cp_phase s w) = Some g \<longrightarrow> g < cp_next s)"

text \<open>A connection that is gone is being replaced.\<close>

definition replaced :: "channel_pool \<Rightarrow> bool" where
  "replaced s \<longleftrightarrow>
     (case cp_current s of
        Some g \<Rightarrow> g < cp_next s
      | None \<Rightarrow> cp_shut s \<or> 0 < cp_signals s \<or> cp_redial s \<or> cp_supervisor s \<in> {Redialing, Opening})
     \<and> (cp_supervisor s = Gone \<longrightarrow> cp_shut s)"

definition pool_inv :: "channel_pool \<Rightarrow> bool" where
  "pool_inv s \<longleftrightarrow> (\<forall>g < cp_next s. conn_ok s g) \<and> exclusive_holders s \<and> phase_ok s \<and> replaced s"

lemma pool_dialed_inv: "pool_inv (pool_dialed cfg)"
  by (auto simp: pool_inv_def pool_dialed_def pool_connected_def conn_ok_def Let_def new_connection_def exclusive_holders_def
      phase_ok_def replaced_def held_by_def)

lemma conn_ok_cong:
  "cn_channels (cp_conns s' g) = cn_channels (cp_conns s g) \<Longrightarrow> cn_all (cp_conns s' g) = cn_all (cp_conns s g) \<Longrightarrow>
   cn_capacity (cp_conns s' g) = cn_capacity (cp_conns s g) \<Longrightarrow> held_by s' g = held_by s g \<Longrightarrow> conn_ok s' g = conn_ok s g"
  by (simp add: conn_ok_def Let_def)

lemma held_by_fresh: "phase_ok s \<Longrightarrow> held_by s (cp_next s) = {}"
  by (auto simp: held_by_def phase_ok_def) (metis less_irrefl phase_conn.simps(3))

text \<open>The pool has room for every channel that is out.\<close>

lemma room_for_held:
  assumes "conn_ok s g" and "cp_phase s w = Holding g c"
  shows "length (cn_channels (cp_conns s g)) < cn_capacity (cp_conns s g)"
proof -
  let ?cn = "cp_conns s g"
  have "c \<in> held_by s g" using assms(2) by (auto simp: held_by_def)
  then have "set (cn_channels ?cn) \<subset> set (cn_all ?cn)" using assms(1) by (auto simp: conn_ok_def Let_def)
  then have "card (set (cn_channels ?cn)) < card (set (cn_all ?cn))" by (simp add: psubset_card_mono)
  then show ?thesis using assms(1) by (simp add: conn_ok_def Let_def distinct_card)
qed

lemma take_inv:
  assumes inv: "pool_inv s" and w: "cp_phase s w = Waiting g" and t: "pool_take w g s = Some s'"
  shows "pool_inv s'"
proof -
  from t obtain c cs where cc: "cn_channels (cp_conns s g) = c # cs"
    and s': "s' = s\<lparr>cp_conns := (cp_conns s)(g := (cp_conns s g)\<lparr>cn_channels := cs\<rparr>), cp_phase := (cp_phase s)(w := Holding g c)\<rparr>"
    by (auto simp: pool_take_def split: list.splits)
  have g: "g < cp_next s" using inv w by (simp add: pool_inv_def phase_ok_def) (metis phase_conn.simps)
  then have ok: "conn_ok s g" using inv by (simp add: pool_inv_def)
  have free: "cp_phase s v \<noteq> Holding g c" for v
    using ok cc by (auto simp: conn_ok_def Let_def held_by_def)
  have held: "held_by s' h = (if h = g then insert c (held_by s g) else held_by s h)" for h
    using w by (auto simp: s' held_by_def) (metis publisher_phase.distinct(5))+
  have "conn_ok s' h" if "h < cp_next s" for h
  proof (cases "h = g")
    case True
    then show ?thesis using ok cc held [of g] by (auto simp: conn_ok_def Let_def s')
  next
    case False
    then have "conn_ok s' h = conn_ok s h" using held [of h] by (intro conn_ok_cong) (simp_all add: s')
    then show ?thesis using inv that by (simp add: pool_inv_def)
  qed
  moreover have "exclusive_holders s'" using inv free by (auto simp: pool_inv_def exclusive_holders_def s')
  moreover have "phase_ok s'" "replaced s'" using inv g by (auto simp: pool_inv_def phase_ok_def replaced_def s' split: option.splits)
  ultimately show ?thesis by (simp add: pool_inv_def s')
qed

lemma release_inv:
  assumes inv: "pool_inv s" and w: "cp_phase s w = Holding g c"
  shows "pool_inv (pool_release w g c s)"
proof -
  let ?s = "pool_release w g c s"
  have g: "g < cp_next s" using inv w by (simp add: pool_inv_def phase_ok_def) (metis phase_conn.simps)
  then have ok: "conn_ok s g" using inv by (simp add: pool_inv_def)
  have ch: "cn_channels (cp_conns ?s g) = cn_channels (cp_conns s g) @ [c]"
    using room_for_held [OF ok w] by (simp add: pool_release_def conn_release_def)
  have held: "held_by ?s h = (if h = g then held_by s g - {c} else held_by s h)" for h
    using inv w by (auto simp: pool_inv_def exclusive_holders_def pool_release_def held_by_def) (metis publisher_phase.inject(2))+
  have "c \<in> held_by s g" using w by (auto simp: held_by_def)
  have "conn_ok ?s h" if "h < cp_next s" for h
  proof (cases "h = g")
    case True
    have "cn_all (cp_conns ?s g) = cn_all (cp_conns s g)" "cn_capacity (cp_conns ?s g) = cn_capacity (cp_conns s g)"
      by (simp_all add: pool_release_def conn_release_def)
    then show ?thesis using True ok ch held [of g] \<open>c \<in> held_by s g\<close> by (auto simp: conn_ok_def Let_def)
  next
    case False
    then have "conn_ok ?s h = conn_ok s h" using held [of h] by (intro conn_ok_cong) (simp_all add: pool_release_def)
    then show ?thesis using inv that by (simp add: pool_inv_def)
  qed
  moreover have "exclusive_holders ?s" "phase_ok ?s" "replaced ?s"
    using inv by (auto simp: pool_inv_def exclusive_holders_def phase_ok_def replaced_def pool_release_def split: option.splits)
  moreover have "cp_next ?s = cp_next s" by (simp add: pool_release_def)
  ultimately show ?thesis by (simp add: pool_inv_def)
qed

text \<open>Steps that leave channels and holders alone.\<close>

definition same_channels :: "channel_pool \<Rightarrow> channel_pool \<Rightarrow> bool" where
  "same_channels s s' \<longleftrightarrow> cp_next s' = cp_next s
     \<and> (\<forall>g. cn_channels (cp_conns s' g) = cn_channels (cp_conns s g) \<and> cn_all (cp_conns s' g) = cn_all (cp_conns s g)
            \<and> cn_capacity (cp_conns s' g) = cn_capacity (cp_conns s g))
     \<and> (\<forall>w g c. cp_phase s' w = Holding g c \<longleftrightarrow> cp_phase s w = Holding g c)"

lemma same_channels_inv:
  assumes "pool_inv s" and "same_channels s s'" and "phase_ok s'" and "replaced s'"
  shows "pool_inv s'"
proof -
  have "held_by s' = held_by s" using assms(2) by (auto simp: same_channels_def held_by_def fun_eq_iff)
  then have "conn_ok s' g = conn_ok s g" for g using assms(2) by (intro conn_ok_cong) (simp_all add: same_channels_def)
  then show ?thesis using assms by (simp add: pool_inv_def same_channels_def exclusive_holders_def)
qed

lemma opened_inv:
  assumes inv: "pool_inv s"
  shows "pool_inv (pool_connected cfg (s\<lparr>cp_supervisor := Watching\<rparr>))"
proof -
  let ?s = "pool_connected cfg (s\<lparr>cp_supervisor := Watching\<rparr>)"
  have held: "held_by ?s = held_by s" by (auto simp: pool_connected_def held_by_def fun_eq_iff)
  have new: "conn_ok ?s (cp_next s)"
    using held_by_fresh [of s] inv held by (simp add: pool_inv_def conn_ok_def Let_def pool_connected_def new_connection_def)
  have "conn_ok ?s g = conn_ok s g" if "g < cp_next s" for g
    using that held by (intro conn_ok_cong) (simp_all add: pool_connected_def)
  then have "\<forall>g < cp_next ?s. conn_ok ?s g" using inv new by (simp add: pool_inv_def pool_connected_def less_Suc_eq)
  moreover have "exclusive_holders ?s" "phase_ok ?s" "replaced ?s"
    using inv by (auto simp: pool_inv_def exclusive_holders_def phase_ok_def replaced_def pool_connected_def less_Suc_eq)
  ultimately show ?thesis by (simp add: pool_inv_def)
qed

lemma pool_step_inv:
  assumes "pool_step cfg s l s'" and inv: "pool_inv s"
  shows "pool_inv s'"
proof -
  note h = inv [unfolded pool_inv_def]
  from assms(1) show ?thesis
  proof cases
    case (Take w g)
    then show ?thesis using take_inv inv by blast
  next
    case (Release w g c)
    then show ?thesis using release_inv inv by simp
  next
    case Opened
    then show ?thesis using opened_inv inv by simp
  qed (rule same_channels_inv [OF inv];
      use h in \<open>auto simp: same_channels_def phase_ok_def replaced_def pool_pick_def pool_forget_def pool_signal_def pool_close_def
        split: option.splits if_splits\<close>)+
qed

lemma pool_run_inv: "pool_run cfg s ls s' \<Longrightarrow> pool_inv s \<Longrightarrow> pool_inv s'"
  by (induction rule: pool_run.induct) (auto intro: pool_step_inv)

lemma holder_conn_ok: "pool_inv s \<Longrightarrow> cp_phase s w = Holding g c \<Longrightarrow> conn_ok s g"
  by (simp add: pool_inv_def phase_ok_def) (metis phase_conn.simps(3))

text \<open>Every connection has all the channels it was opened with.\<close>

lemma pool_step_size:
  "pool_step cfg s l s' \<Longrightarrow> \<forall>g. length (cn_all (cp_conns s g)) = nat (rd_channels cfg) \<Longrightarrow>
   \<forall>g. length (cn_all (cp_conns s' g)) = nat (rd_channels cfg)"
  by (cases rule: pool_step.cases)
    (auto simp: pool_pick_def pool_take_def pool_forget_def pool_signal_def pool_close_def pool_release_def conn_release_def
      pool_connected_def new_connection_def split: option.splits list.splits if_splits)

lemma pool_run_size:
  "pool_run cfg s ls s' \<Longrightarrow> \<forall>g. length (cn_all (cp_conns s g)) = nat (rd_channels cfg) \<Longrightarrow>
   \<forall>g. length (cn_all (cp_conns s' g)) = nat (rd_channels cfg)"
  by (induction rule: pool_run.induct) (auto dest: pool_step_size)

lemma pool_dialed_size: "length (cn_all (cp_conns (pool_dialed cfg) g)) = nat (rd_channels cfg)"
  by (simp add: pool_dialed_def pool_connected_def new_connection_def)

subsection \<open>What goes wrong with connections\<close>

text \<open>
  A publish that fails on a connection that has already been replaced makes the driver forget the new
  one, which is alive; and a connection dialled before \<open>Close\<close> becomes the current one after it.  In both cases
  nothing closes the connection that is left behind.
\<close>

lemma stale_failure_forgets_live_connection:
  assumes "cp_phase s w = Holding g c" and "cp_current s = Some h" and "h \<noteq> g" and "pool_live s"
  shows "\<exists>s'. pool_step cfg s (PFail w) s' \<and> cp_current s' = None \<and> \<not> cn_closed (cp_conns s' h)"
  using assms pool_step.Fail [OF assms(1), of cfg] by (auto simp: pool_forget_def pool_live_def)

lemma first_take:
  assumes "0 < rd_channels cfg"
  shows "\<exists>s. pool_run cfg (pool_dialed cfg) [PPick 0, PTake 0] s \<and> cp_phase s 0 = Holding 0 0
    \<and> cp_supervisor s = Watching \<and> \<not> cp_shut s"
proof -
  let ?s0 = "pool_dialed cfg"
  obtain n where n: "nat (rd_channels cfg) = Suc n" using assms by (cases "nat (rd_channels cfg)") auto
  let ?s1 = "?s0\<lparr>cp_phase := (\<lambda>_. Away)(0 := Waiting 0)\<rparr>"
  have p0: "cp_phase ?s0 = (\<lambda>_. Away)" "cp_current ?s0 = Some 0" by (simp_all add: pool_dialed_def pool_connected_def)
  have s1: "pool_step cfg ?s0 (PPick 0) ?s1" by (rule pool_step.Pick) (simp_all add: p0 pool_pick_def)
  have ch: "cn_channels (cp_conns ?s1 0) = 0 # [1..<Suc n]"
    by (simp add: pool_dialed_def pool_connected_def new_connection_def n upt_conv_Cons del: upt_Suc)
  define s2 where "s2 = ?s1\<lparr>cp_conns := (cp_conns ?s1)(0 := (cp_conns ?s1 0)\<lparr>cn_channels := [1..<Suc n]\<rparr>),
    cp_phase := (cp_phase ?s1)(0 := Holding 0 0)\<rparr>"
  have t: "pool_take 0 0 ?s1 = Some s2" using ch by (simp add: pool_take_def s2_def)
  have "pool_step cfg ?s1 (PTake 0) s2" by (rule pool_step.Take [OF _ t]) simp
  then have "pool_run cfg ?s0 [PPick 0, PTake 0] s2" using s1 by (simp add: pool_run_Cons) blast
  then show ?thesis by (auto simp: s2_def pool_dialed_def pool_connected_def)
qed

lemma pool_run_append: "pool_run cfg s ls s' \<Longrightarrow> pool_run cfg s' ls' s'' \<Longrightarrow> pool_run cfg s (ls @ ls') s''"
  by (induction rule: pool_run.induct) (auto intro: pool_run.Cons)

lemma connection_appears_after_close:
  assumes "0 < rd_channels cfg"
  shows "\<exists>s. pool_run cfg (pool_dialed cfg) ([PPick 0, PTake 0] @ [PFail 0, PSignal, PRedial, PDialed, PClose, POpened]) s
    \<and> cp_shut s \<and> pool_live s"
proof -
  obtain s2 where run: "pool_run cfg (pool_dialed cfg) [PPick 0, PTake 0] s2" and ph: "cp_phase s2 0 = Holding 0 0"
    and rest: "cp_supervisor s2 = Watching" "\<not> cp_shut s2"
    using first_take [OF assms] by blast
  let ?s3 = "pool_forget s2"
  let ?s4 = "pool_signal ?s3"
  let ?s5 = "?s4\<lparr>cp_redial := False, cp_supervisor := Redialing\<rparr>"
  let ?s6 = "?s5\<lparr>cp_supervisor := Opening\<rparr>"
  let ?s8 = "pool_connected cfg ((pool_close ?s6)\<lparr>cp_supervisor := Watching\<rparr>)"
  note d = pool_forget_def pool_signal_def pool_close_def rest
  have s4: "pool_step cfg ?s3 PSignal ?s4" by (rule pool_step.Signal) (simp add: d)
  have s5: "pool_step cfg ?s4 PRedial ?s5" by (rule pool_step.Redial) (simp_all add: d)
  have s6: "pool_step cfg ?s5 PDialed ?s6" by (rule pool_step.Dialed) (simp_all add: d)
  have s8: "pool_step cfg (pool_close ?s6) POpened ?s8" by (rule pool_step.Opened) (simp add: d)
  have "pool_run cfg s2 [PFail 0, PSignal, PRedial, PDialed, PClose, POpened] ?s8"
    by (intro pool_run.Cons [OF pool_step.Fail [OF ph]] pool_run.Cons [OF s4] pool_run.Cons [OF s5] pool_run.Cons [OF s6]
        pool_run.Cons [OF pool_step.Close] pool_run.Cons [OF s8] pool_run.Nil)
  moreover have "cp_shut ?s8 \<and> pool_live ?s8" by (simp add: d pool_connected_def pool_live_def new_connection_def)
  ultimately show ?thesis using pool_run_append [OF run] by blast
qed

subsection \<open>The abstract connection\<close>

text \<open>What one publisher sees of the pool is the connection of \<open>Broker_RabbitMQ\<close>.\<close>

definition rmq_view :: "string list \<Rightarrow> channel_pool \<Rightarrow> rmq_conn" where
  "rmq_view declared s =
     \<lparr>rq_current = (cp_current s \<noteq> None), rq_is_closed = (case cp_current s of None \<Rightarrow> False | Some g \<Rightarrow> cn_closed (cp_conns s g)),
      rq_redial = cp_redial s, rq_declared = declared, rq_shut = cp_shut s\<rparr>"

lemma pool_refines_conn:
  "live (rmq_view ds s) \<longleftrightarrow> pool_live s"
  "rq_current (rmq_view ds (pool_signal (pool_forget s))) = rq_current (requestRedial (rmq_view ds s))"
  "rq_redial (rmq_view ds (pool_signal (pool_forget s))) = rq_redial (requestRedial (rmq_view ds s))"
  "pool_inv s \<Longrightarrow> rmq_view [] (pool_connected cfg s) = fst (connect None (\<lambda>_. (None, None)) cfg (rmq_view ds s))"
  "(\<exists>e. pool_pick w s = Inl e) \<longleftrightarrow> acquire env (rmq_view ds s) = Some ErrNotConnected \<and> cp_current s = None"
  by (auto simp: live_def rmq_view_def pool_live_def pool_signal_def pool_forget_def requestRedial_def pool_connected_def connect_def
      new_connection_def pool_pick_def acquire_def List.map_filter_def channel_error_def newPublishChannel_def split: option.splits list.splits)

subsection \<open>Properties\<close>

text \<open>
  C32.  Channels are exclusive and none is lost.  Whatever publishers, the supervisor, the broker and \<open>Close\<close> do in
  which order: no two publishers hold the same channel, every channel of every connection is in that
  connection's pool or held, so giving one back never meets a full pool; a publisher that waits for a
  channel can take one as soon as none of its connection is held; and as long as the
  driver is not closed, a connection that is gone is being replaced.
\<close>

theorem channels_are_exclusive:
  assumes "pool_run cfg (pool_dialed cfg) ls s" and "1 \<le> rd_channels cfg"
  shows "(\<forall>w w' g c. cp_phase s w = Holding g c \<longrightarrow> cp_phase s w' = Holding g c \<longrightarrow> w = w')
    \<and> (\<forall>g < cp_next s. set (cn_channels (cp_conns s g)) \<union> held_by s g = set (cn_all (cp_conns s g))
          \<and> set (cn_channels (cp_conns s g)) \<inter> held_by s g = {})
    \<and> (\<forall>w g c. cp_phase s w = Holding g c \<longrightarrow>
          set (cn_channels (cp_conns (pool_release w g c s) g)) = insert c (set (cn_channels (cp_conns s g))))
    \<and> (\<forall>w g. cp_phase s w = Waiting g \<longrightarrow> held_by s g = {} \<longrightarrow> (\<exists>s'. pool_step cfg s (PTake w) s'))
    \<and> (cp_current s = None \<and> \<not> cp_shut s \<longrightarrow> 0 < cp_signals s \<or> cp_redial s \<or> cp_supervisor s \<in> {Redialing, Opening})"
proof -
  have inv: "pool_inv s" using pool_run_inv [OF assms(1)] pool_dialed_inv by blast
  have "length (cn_all (cp_conns s g)) = nat (rd_channels cfg)" for g
    using pool_run_size [OF assms(1)] by (simp add: pool_dialed_size)
  then have size: "0 < length (cn_all (cp_conns s g))" for g using assms(2) by simp
  have "set (cn_channels (cp_conns (pool_release w g c s) g)) = insert c (set (cn_channels (cp_conns s g)))"
    if "cp_phase s w = Holding g c" for w g c
    using room_for_held [OF holder_conn_ok [OF inv that] that] by (simp add: pool_release_def conn_release_def)
  moreover have "\<exists>s'. pool_step cfg s (PTake w) s'" if w: "cp_phase s w = Waiting g" and "held_by s g = {}" for w g
  proof -
    have "conn_ok s g" using inv w by (simp add: pool_inv_def phase_ok_def) (metis phase_conn.simps(2))
    then have "cn_channels (cp_conns s g) \<noteq> []" using that size [of g] by (auto simp: conn_ok_def Let_def)
    then obtain s' where "pool_take w g s = Some s'" by (auto simp: pool_take_def neq_Nil_conv)
    then show ?thesis using pool_step.Take [OF w] by blast
  qed
  ultimately show ?thesis
    using inv by (auto simp: pool_inv_def exclusive_holders_def conn_ok_def Let_def replaced_def)
qed

theorem channels_are_exclusive_witness:
  "\<exists>s. pool_run demo_rabbit (pool_dialed demo_rabbit) [PPick 0, PTake 0] s \<and> cp_phase s 0 = Holding 0 0 \<and> cp_phase s 1 \<noteq> Holding 0 0
    \<and> set (cn_channels (cp_conns (pool_release 0 0 0 s) 0)) = insert 0 (set (cn_channels (cp_conns s 0)))"
proof -
  have c: "1 \<le> rd_channels demo_rabbit" by (simp add: demo_rabbit_def)
  then obtain s where s: "pool_run demo_rabbit (pool_dialed demo_rabbit) [PPick 0, PTake 0] s" and ph: "cp_phase s 0 = Holding 0 0"
    using first_take [of demo_rabbit] by auto
  from channels_are_exclusive [OF s c] have "cp_phase s 1 \<noteq> Holding 0 0" using ph by (metis zero_neq_one)
  moreover from channels_are_exclusive [OF s c] ph
  have "set (cn_channels (cp_conns (pool_release 0 0 0 s) 0)) = insert 0 (set (cn_channels (cp_conns s 0)))" by blast
  ultimately show ?thesis using s ph by blast
qed

end
