(* ===== verification/Tracing_Spans.thy ===== *)
theory Tracing_Spans
  imports Dispatch_Publish
begin

text \<open>
  \<open>internal/tracing/tracing.go\<close>: one span per published message, opened on the producer's context, written
  into the headers, and closed with the message's result.

  OpenTelemetry is not in the repository.  The propagator (\<open>Extract\<close>, \<open>Inject\<close>), the context a started span
  gets and the clock are the record \<open>otel_env\<close>; what the lemmas need of them is a hypothesis there.
\<close>

subsection \<open>Definitions\<close>

record span_context =
  sc_trace_id :: string
  sc_span_id :: string

record otel_env =
  te_extract :: "headers \<Rightarrow> span_context option"
  te_inject :: "span_context \<Rightarrow> headers \<Rightarrow> headers"
  te_start :: "message \<Rightarrow> span_context option \<Rightarrow> span_context"
  te_since :: "message \<Rightarrow> duration"

record trace_destination =
  td_stream :: string
  td_driver :: string
  td_system :: string

record trace_span =
  ts_name :: string
  ts_parent :: "span_context option"
  ts_context :: span_context
  ts_system :: string
  ts_topic :: string
  ts_message_id :: uuid
  ts_stream :: string
  ts_driver :: string
  ts_attempts :: int
  ts_wait :: duration
  ts_error :: "err option"
  ts_status :: "string option"
  ts_ended :: bool

definition SpanName :: string where
  "SpanName = ''outbox.publish''"

text \<open>The zero tracer, and a nil one, record nothing.\<close>

record tracer =
  tr_on :: bool

definition Disabled :: tracer where
  "Disabled = \<lparr>tr_on = False\<rparr>"

definition NewWithProvider :: tracer where
  "NewWithProvider = \<lparr>tr_on = True\<rparr>"

definition tracer_Enabled :: "tracer option \<Rightarrow> bool" where
  "tracer_Enabled t = (case t of None \<Rightarrow> False | Some t \<Rightarrow> tr_on t)"

definition start_span :: "otel_env \<Rightarrow> trace_destination \<Rightarrow> message \<Rightarrow> trace_span" where
  "start_span env dest m =
     (let parent = te_extract env (m_headers m) in
      \<lparr>ts_name = SpanName, ts_parent = parent, ts_context = te_start env m parent, ts_system = td_system dest,
       ts_topic = m_topic m, ts_message_id = m_id m, ts_stream = td_stream dest, ts_driver = td_driver dest,
       ts_attempts = m_attempts m, ts_wait = te_since env m, ts_error = None, ts_status = None, ts_ended = False\<rparr>)"

definition inject_span :: "otel_env \<Rightarrow> trace_span \<Rightarrow> message \<Rightarrow> message" where
  "inject_span env sp m = m\<lparr>m_headers := te_inject env (ts_context sp) (m_headers m)\<rparr>"

text \<open>\<open>Publish\<close>: the messages as they are afterwards, and the batch of spans.\<close>

fun open_spans :: "otel_env \<Rightarrow> trace_destination \<Rightarrow> message list \<Rightarrow> message list \<times> trace_span list" where
  "open_spans env dest [] = ([], [])"
| "open_spans env dest (m # ms) =
     (let sp = start_span env dest m; (ms', sps) = open_spans env dest ms in (inject_span env sp m # ms', sp # sps))"

definition spans_Publish :: "otel_env \<Rightarrow> tracer option \<Rightarrow> trace_destination \<Rightarrow> message list \<Rightarrow> message list \<times> trace_span list" where
  "spans_Publish env t dest msgs =
     (if \<not> tracer_Enabled t \<or> msgs = [] then (msgs, []) else open_spans env dest msgs)"

text \<open>\<open>Batch.End\<close>: the results are positional, and a missing one is no error.\<close>

definition end_span :: "err option list \<Rightarrow> nat \<Rightarrow> trace_span \<Rightarrow> trace_span" where
  "end_span errs i sp =
     (let sp' = (if i < length errs then (case errs ! i of None \<Rightarrow> sp
                   | Some e \<Rightarrow> sp\<lparr>ts_error := Some e, ts_status := Some (err_text e)\<rparr>) else sp) in
      sp'\<lparr>ts_ended := True\<rparr>)"

fun end_spans :: "err option list \<Rightarrow> nat \<Rightarrow> trace_span list \<Rightarrow> trace_span list" where
  "end_spans errs i [] = []"
| "end_spans errs i (sp # sps) = end_span errs i sp # end_spans errs (Suc i) sps"

definition Batch_End :: "trace_span list \<Rightarrow> err option list \<Rightarrow> trace_span list" where
  "Batch_End spans errs = end_spans errs 0 spans"

subsection \<open>Lemmas\<close>

lemma open_spans_eq:
  "open_spans env dest ms = (map (\<lambda>m. inject_span env (start_span env dest m) m) ms, map (start_span env dest) ms)"
  by (induction ms) (simp_all add: Let_def)

text \<open>The headers a publish sends are those of the abstract tracer of the publish path.\<close>

definition span_headers :: "otel_env \<Rightarrow> trace_destination \<Rightarrow> message \<Rightarrow> headers" where
  "span_headers env dest m = te_inject env (ts_context (start_span env dest m)) (m_headers m)"

lemma spans_refine_tracer_Publish:
  "fst (spans_Publish env t dest msgs) = tracer_Publish (tracer_Enabled t) (span_headers env dest) msgs"
  by (simp add: spans_Publish_def tracer_Publish_def open_spans_eq inject_span_def span_headers_def)

lemma goroutine_publishes_spans:
  assumes "pe_tracing pe = tracer_Enabled t" and "pe_inject pe = span_headers env dest"
  shows "answers pe msgs k c = pe_router pe k (fst (spans_Publish env t dest (slice c msgs)))"
  using assms by (simp add: answers_def spans_refine_tracer_Publish)

lemma length_end_spans [simp]: "length (end_spans errs i sps) = length sps"
  by (induction sps arbitrary: i) simp_all

lemma nth_end_spans: "k < length sps \<Longrightarrow> end_spans errs i sps ! k = end_span errs (i + k) (sps ! k)"
proof (induction sps arbitrary: i k)
  case (Cons sp sps)
  then show ?case by (cases k) simp_all
qed simp

text \<open>
  One trace from producer to consumer: what a consumer extracts is the span of its own message, which is in the
  producer's trace if there is one and has the producer's span as its parent; nothing else of a
  message changes.
\<close>

lemma consumer_continues_span:
  assumes roundtrip: "\<And>c hs. te_extract env (te_inject env c hs) = Some c"
    and same_trace: "\<And>m p. sc_trace_id (te_start env m (Some p)) = sc_trace_id p"
    and "tracer_Enabled t" and "spans_Publish env t dest msgs = (msgs', spans)" and "i < length msgs"
  shows "length msgs' = length msgs \<and> length spans = length msgs
    \<and> te_extract env (m_headers (msgs' ! i)) = Some (ts_context (spans ! i))
    \<and> ts_message_id (spans ! i) = m_id (msgs ! i) \<and> ts_parent (spans ! i) = te_extract env (m_headers (msgs ! i))
    \<and> (\<forall>p. te_extract env (m_headers (msgs ! i)) = Some p \<longrightarrow> sc_trace_id (ts_context (spans ! i)) = sc_trace_id p)
    \<and> (msgs' ! i)\<lparr>m_headers := m_headers (msgs ! i)\<rparr> = msgs ! i"
proof -
  have "msgs \<noteq> []" using assms(5) by auto
  then have "msgs' = map (\<lambda>m. inject_span env (start_span env dest m) m) msgs" "spans = map (start_span env dest) msgs"
    using assms(3,4) by (simp_all add: spans_Publish_def open_spans_eq)
  then show ?thesis using assms(5) roundtrip same_trace by (simp add: inject_span_def start_span_def Let_def)
qed

text \<open>Closing a batch gives each span the result of its own message.\<close>

lemma end_is_positional:
  assumes "i < length spans"
  shows "ts_ended (Batch_End spans errs ! i)
    \<and> ts_context (Batch_End spans errs ! i) = ts_context (spans ! i)
    \<and> (i < length errs \<longrightarrow> ts_error (spans ! i) = None \<longrightarrow> ts_error (Batch_End spans errs ! i) = errs ! i)
    \<and> (length errs \<le> i \<longrightarrow> ts_error (Batch_End spans errs ! i) = ts_error (spans ! i))"
  using assms by (simp add: Batch_End_def nth_end_spans end_span_def Let_def split: option.splits)

lemma disabled_tracer_is_silent: "spans_Publish env (Some Disabled) dest msgs = (msgs, [])" "spans_Publish env None dest msgs = (msgs, [])"
  by (simp_all add: spans_Publish_def tracer_Enabled_def Disabled_def)

end
