(* ===== verification/Events_Emitter.thy ===== *)
theory Events_Emitter
  imports Observability_Metrics
begin

text \<open>
  \<open>internal/events\<close>: the topics and the emitter.  The bus (\<open>msghub\<close>) is not in the repository: its state is a
  type parameter and its \<open>Publish\<close> an argument.  An emission that the bus refuses is logged
  and swallowed; an emitter without a bus does nothing.
\<close>

subsection \<open>Definitions\<close>

datatype topic = TopicIteration | TopicReclaimed | TopicStats | TopicRetention | TopicDeadLetter | TopicBreaker | TopicPartitions

definition topic_text :: "topic \<Rightarrow> string" where
  "topic_text t =
     (case t of TopicIteration \<Rightarrow> ''outbox.iteration'' | TopicReclaimed \<Rightarrow> ''outbox.reclaimed'' | TopicStats \<Rightarrow> ''outbox.stats''
      | TopicRetention \<Rightarrow> ''outbox.retention'' | TopicDeadLetter \<Rightarrow> ''outbox.dead_letter'' | TopicBreaker \<Rightarrow> ''outbox.breaker''
      | TopicPartitions \<Rightarrow> ''outbox.partitions'')"

record 'h emitter =
  em_hub :: "'h option"
  em_warnings :: "(string \<times> err) list"

definition NewEmitter :: "'h option \<Rightarrow> 'h emitter" where
  "NewEmitter hub = \<lparr>em_hub = hub, em_warnings = []\<rparr>"

type_synonym 'h bus = "topic \<Rightarrow> domain_event \<Rightarrow> 'h \<Rightarrow> 'h \<times> err option"

definition emit :: "'h bus \<Rightarrow> topic \<Rightarrow> domain_event \<Rightarrow> 'h emitter \<Rightarrow> 'h emitter" where
  "emit bus t ev e =
     (case em_hub e of
        None \<Rightarrow> e
      | Some h \<Rightarrow>
          (case bus t ev h of
             (h', None) \<Rightarrow> e\<lparr>em_hub := Some h'\<rparr>
           | (h', Some x) \<Rightarrow> e\<lparr>em_hub := Some h', em_warnings := em_warnings e @ [(topic_text t, x)]\<rparr>))"

definition emit_Iteration :: "'h bus \<Rightarrow> iteration \<Rightarrow> 'h emitter \<Rightarrow> 'h emitter" where
  "emit_Iteration bus ev = emit bus TopicIteration (Iterated ev)"

definition emit_Reclaimed :: "'h bus \<Rightarrow> reclaimed_event \<Rightarrow> 'h emitter \<Rightarrow> 'h emitter" where
  "emit_Reclaimed bus ev = emit bus TopicReclaimed (Housekept (EReclaimed ev))"

definition emit_Stats :: "'h bus \<Rightarrow> stats_event \<Rightarrow> 'h emitter \<Rightarrow> 'h emitter" where
  "emit_Stats bus ev = emit bus TopicStats (Housekept (EStats ev))"

definition emit_Partitions :: "'h bus \<Rightarrow> partitions_event \<Rightarrow> 'h emitter \<Rightarrow> 'h emitter" where
  "emit_Partitions bus ev = emit bus TopicPartitions (Housekept (EPartitions ev))"

definition emit_Retention :: "'h bus \<Rightarrow> retention_event \<Rightarrow> 'h emitter \<Rightarrow> 'h emitter" where
  "emit_Retention bus ev = emit bus TopicRetention (Housekept (ERetention ev))"

definition emit_DeadLetter :: "'h bus \<Rightarrow> dead_letter_event \<Rightarrow> 'h emitter \<Rightarrow> 'h emitter" where
  "emit_DeadLetter bus ev = emit bus TopicDeadLetter (DeadLettered ev)"

definition emit_Breaker :: "'h bus \<Rightarrow> breaker_event \<Rightarrow> 'h emitter \<Rightarrow> 'h emitter" where
  "emit_Breaker bus ev = emit bus TopicBreaker (Paused ev)"

text \<open>The method a component calls for an event.\<close>

fun emit_event :: "'h bus \<Rightarrow> domain_event \<Rightarrow> 'h emitter \<Rightarrow> 'h emitter" where
  "emit_event bus (Iterated ev) = emit_Iteration bus ev"
| "emit_event bus (Housekept (EReclaimed ev)) = emit_Reclaimed bus ev"
| "emit_event bus (Housekept (EStats ev)) = emit_Stats bus ev"
| "emit_event bus (Housekept (ERetention ev)) = emit_Retention bus ev"
| "emit_event bus (Housekept (EPartitions ev)) = emit_Partitions bus ev"
| "emit_event bus (Paused ev) = emit_Breaker bus ev"
| "emit_event bus (DeadLettered ev) = emit_DeadLetter bus ev"

subsection \<open>Lemmas\<close>

fun topic_of :: "domain_event \<Rightarrow> topic" where
  "topic_of (Iterated _) = TopicIteration"
| "topic_of (Housekept (EReclaimed _)) = TopicReclaimed"
| "topic_of (Housekept (EStats _)) = TopicStats"
| "topic_of (Housekept (ERetention _)) = TopicRetention"
| "topic_of (Housekept (EPartitions _)) = TopicPartitions"
| "topic_of (Paused _) = TopicBreaker"
| "topic_of (DeadLettered _) = TopicDeadLetter"

lemma emit_event_eq: "emit_event bus ev = emit bus (topic_of ev) ev"
  by (cases ev rule: topic_of.cases)
    (simp_all add: emit_Iteration_def emit_Reclaimed_def emit_Stats_def emit_Retention_def emit_Partitions_def emit_Breaker_def
      emit_DeadLetter_def)

lemma topic_text_inject: "topic_text t = topic_text t' \<longleftrightarrow> t = t'"
  by (cases t; cases t') (simp_all add: topic_text_def)

text \<open>
  A bus on which the metrics subscribe and whose delivery to them never fails shows them every event in order,
  whatever other subscribers answer: the metrics are those of \<open>Observability_Metrics\<close> over the
  emitted sequence.
\<close>

lemma metrics_see_every_event:
  assumes delivers: "\<And>t ev h. view (fst (bus t ev h)) = on_event ev (view h)"
    and "em_hub e = Some h"
  shows "\<exists>h'. em_hub (fold (emit_event bus) evs e) = Some h' \<and> view h' = fold on_event evs (view h)"
  using assms(2)
proof (induction evs arbitrary: e h)
  case (Cons ev evs)
  obtain h1 x where b: "bus (topic_of ev) ev h = (h1, x)" by fastforce
  then have "em_hub (emit_event bus ev e) = Some h1"
    using Cons.prems by (auto simp: emit_event_eq emit_def split: option.splits)
  from Cons.IH [OF this] show ?case using delivers [of "topic_of ev" ev h] b by simp
qed simp

text \<open>Every refusal leaves one warning that names its topic, and nothing else.\<close>

lemma refusals_are_logged:
  assumes "\<And>t ev h. snd (bus t ev h) = Some x" and "em_hub e = Some h"
  shows "em_warnings (fold (emit_event bus) evs e) = em_warnings e @ map (\<lambda>ev. (topic_text (topic_of ev), x)) evs"
  using assms(2)
proof (induction evs arbitrary: e h)
  case (Cons ev evs)
  obtain h1 where b: "bus (topic_of ev) ev h = (h1, Some x)" using assms(1) by (metis prod.collapse)
  let ?e = "emit_event bus ev e"
  have "em_hub ?e = Some h1" "em_warnings ?e = em_warnings e @ [(topic_text (topic_of ev), x)]"
    using Cons.prems b by (simp_all add: emit_event_eq emit_def)
  then show ?case using Cons.IH [of ?e h1] by simp
qed simp

lemma emitter_without_bus: "em_hub e = None \<Longrightarrow> fold (emit_event bus) evs e = e"
  by (induction evs) (simp_all add: emit_event_eq emit_def)

end
