(* ===== verification/Logging_Handler.thy ===== *)
theory Logging_Handler
  imports Config_Validate
begin

text \<open>
  \<open>internal/logging\<close>: the handler between \<open>slog\<close> and the logging library, and the construction of the logger.

  The library's handler is not in the repository: its state is a type parameter and its operations are the
  record \<open>next_ops\<close>.  An attribute is its key and the text of its value.
\<close>

subsection \<open>The handler\<close>

type_synonym log_attr = "string \<times> string"

record log_record =
  lr_level :: int
  lr_message :: string
  lr_attrs :: "log_attr list"
  lr_pc :: int

record 'n next_ops =
  no_enabled :: "int \<Rightarrow> 'n \<Rightarrow> bool"
  no_with_attrs :: "log_attr list \<Rightarrow> 'n \<Rightarrow> 'n"
  no_with_group :: "string \<Rightarrow> 'n \<Rightarrow> 'n"
  no_handle :: "log_record \<Rightarrow> 'n \<Rightarrow> err option"

record 'n log_handler =
  lh_next :: 'n
  lh_module :: string
  lh_prefix :: bool
  lh_caller :: bool

definition ModuleKey :: string where "ModuleKey = ''module''"

definition ComponentKey :: string where "ComponentKey = ''component''"

definition handler_Enabled :: "'n next_ops \<Rightarrow> int \<Rightarrow> 'n log_handler \<Rightarrow> bool" where
  "handler_Enabled ops level h = no_enabled ops level (lh_next h)"

text \<open>The loop of \<open>WithAttrs\<close>: the name adopted so far and the attributes to keep.\<close>

definition drop_at :: "nat \<Rightarrow> 'a list \<Rightarrow> 'a list" where
  "drop_at i xs = take i xs @ drop (Suc i) xs"

fun adopt_loop :: "bool \<Rightarrow> log_attr list \<Rightarrow> nat \<Rightarrow> log_attr list \<Rightarrow> string \<Rightarrow> log_attr list \<Rightarrow> string \<times> log_attr list" where
  "adopt_loop prefix attrs i [] name kept = (name, kept)"
| "adopt_loop prefix attrs i ((k, v) # rest) name kept =
     (let adopted = (k = ModuleKey \<or> k = ComponentKey \<and> name = []);
          name' = (if adopted then v else name);
          kept' = (if adopted \<and> prefix then drop_at i attrs else kept) in
      adopt_loop prefix attrs (Suc i) rest name' kept')"

definition handler_WithAttrs :: "'n next_ops \<Rightarrow> log_attr list \<Rightarrow> 'n log_handler \<Rightarrow> 'n log_handler" where
  "handler_WithAttrs ops attrs h =
     (let (name, kept) = adopt_loop (lh_prefix h) attrs 0 attrs (lh_module h) attrs in
      h\<lparr>lh_module := name, lh_next := no_with_attrs ops kept (lh_next h)\<rparr>)"

definition handler_WithGroup :: "'n next_ops \<Rightarrow> string \<Rightarrow> 'n log_handler \<Rightarrow> 'n log_handler" where
  "handler_WithGroup ops name h = h\<lparr>lh_next := no_with_group ops name (lh_next h)\<rparr>"

definition handler_record :: "'n log_handler \<Rightarrow> log_record \<Rightarrow> log_record" where
  "handler_record h r =
     (let r1 = (if \<not> lh_caller h then r\<lparr>lr_pc := 0\<rparr> else r) in
      if lh_prefix h \<and> lh_module h \<noteq> [] then r1\<lparr>lr_message := ''['' @ lh_module h @ ''] '' @ lr_message r1\<rparr> else r1)"

definition handler_Handle :: "'n next_ops \<Rightarrow> log_record \<Rightarrow> 'n log_handler \<Rightarrow> err option" where
  "handler_Handle ops r h = no_handle ops (handler_record h r) (lh_next h)"

subsection \<open>The logger\<close>

datatype log_encoder = ConsoleEncoder string | TextEncoder string | JSONEncoder

definition encoder :: "string \<Rightarrow> log_encoder" where
  "encoder format =
     (if format = ''console'' then ConsoleEncoder ''15:04:05.000''
      else if format = ''text'' then TextEncoder ''2006-01-02T15:04:05.000Z07:00''
      else JSONEncoder)"

text \<open>
  \<open>New\<close>: parsing the level and building the library's handler are arguments; besides the logger, the result has
  the global threshold the library is set to.
\<close>

definition logging_New :: "(string \<Rightarrow> err + int) \<Rightarrow> (int \<Rightarrow> log_encoder \<Rightarrow> 'n) \<Rightarrow> log_config \<Rightarrow> err + (int \<times> 'n log_handler)" where
  "logging_New ParseLevel build cfg =
     (case ParseLevel (to_lower (log_level cfg)) of
        Inl e \<Rightarrow> Inl (Errorf (''log level '' @ go_quote (log_level cfg) @ '': '') e [])
      | Inr level \<Rightarrow>
          (let format = to_lower (log_format cfg) in
           Inr (level, \<lparr>lh_next = build level (encoder format), lh_module = [], lh_prefix = (format = ''console''),
             lh_caller = log_caller cfg\<rparr>)))"

subsection \<open>Lemmas\<close>

lemma handler_WithAttrs_simps:
  "lh_module (handler_WithAttrs ops attrs h) = fst (adopt_loop (lh_prefix h) attrs 0 attrs (lh_module h) attrs)"
  "lh_next (handler_WithAttrs ops attrs h) = no_with_attrs ops (snd (adopt_loop (lh_prefix h) attrs 0 attrs (lh_module h) attrs)) (lh_next h)"
  by (simp_all add: handler_WithAttrs_def case_prod_beta)

text \<open>Which name the handler takes: the last module bound, else the one it had, else the first component that is not empty.\<close>

fun bound_name :: "log_attr list \<Rightarrow> string \<Rightarrow> string" where
  "bound_name [] name = name"
| "bound_name ((k, v) # as) name =
     (if k = ModuleKey \<or> k = ComponentKey \<and> name = [] then bound_name as v else bound_name as name)"

lemma adopt_name: "fst (adopt_loop prefix attrs i rest name kept) = bound_name rest name"
  by (induction prefix attrs i rest name kept rule: adopt_loop.induct) (simp_all add: Let_def)

lemma bound_name_append: "bound_name (as @ bs) name = bound_name bs (bound_name as name)"
  by (induction as name rule: bound_name.induct) auto

lemma bound_name_no_module: "name \<noteq> [] \<Longrightarrow> ModuleKey \<notin> fst ` set as \<Longrightarrow> bound_name as name = name"
  by (induction as name rule: bound_name.induct) auto

lemma last_module_wins:
  assumes "ModuleKey \<notin> fst ` set bs" and "v \<noteq> []"
  shows "lh_module (handler_WithAttrs ops (as @ (ModuleKey, v) # bs) h) = v"
proof -
  let ?attrs = "as @ (ModuleKey, v) # bs"
  have "bound_name ?attrs (lh_module h) = v" using assms by (simp add: bound_name_append bound_name_no_module)
  then show ?thesis by (simp add: handler_WithAttrs_simps adopt_name)
qed

text \<open>Without a prefix nothing is dropped.\<close>

lemma adopt_keeps: "\<not> prefix \<Longrightarrow> snd (adopt_loop prefix attrs i rest name kept) = kept"
  by (induction prefix attrs i rest name kept rule: adopt_loop.induct) (simp_all add: Let_def)

lemma json_keeps_every_attribute:
  "\<not> lh_prefix h \<Longrightarrow> lh_next (handler_WithAttrs ops attrs h) = no_with_attrs ops attrs (lh_next h)"
  by (simp add: handler_WithAttrs_simps adopt_keeps)

text \<open>With one, at most one attribute is dropped, and it is one that names a module or a component.\<close>

lemma adopt_drops_one:
  assumes "snd (adopt_loop prefix attrs i (drop i attrs) name kept) = out" and "i \<le> length attrs"
  shows "out = kept \<or> (\<exists>j < length attrs. fst (attrs ! j) \<in> {ModuleKey, ComponentKey} \<and> out = drop_at j attrs)"
  using assms
proof (induction "length attrs - i" arbitrary: i name kept)
  case (Suc n)
  then have i: "i < length attrs" by simp
  obtain k v where kv: "attrs ! i = (k, v)" by fastforce
  have d: "drop i attrs = (k, v) # drop (Suc i) attrs" using Cons_nth_drop_Suc [OF i] kv by simp
  let ?ad = "k = ModuleKey \<or> k = ComponentKey \<and> name = []"
  from Suc.prems(1) have "snd (adopt_loop prefix attrs (Suc i) (drop (Suc i) attrs) (if ?ad then v else name)
      (if ?ad \<and> prefix then drop_at i attrs else kept)) = out"
    by (simp add: d Let_def)
  moreover have "n = length attrs - Suc i" "Suc i \<le> length attrs" using Suc.hyps(2) i by simp_all
  ultimately have "out = (if ?ad \<and> prefix then drop_at i attrs else kept)
      \<or> (\<exists>j < length attrs. fst (attrs ! j) \<in> {ModuleKey, ComponentKey} \<and> out = drop_at j attrs)"
    using Suc.hyps(1) [of "Suc i"] by blast
  then show ?case using i kv by (auto split: if_splits)
qed simp

lemma handler_drops_only_names:
  "\<exists>out. lh_next (handler_WithAttrs ops attrs h) = no_with_attrs ops out (lh_next h)
     \<and> (out = attrs \<or> (\<exists>j < length attrs. fst (attrs ! j) \<in> {ModuleKey, ComponentKey} \<and> out = drop_at j attrs))"
  using adopt_drops_one [of "lh_prefix h" attrs 0 "lh_module h" attrs] by (auto simp: handler_WithAttrs_simps)

text \<open>Two names bound in one call: the console shows the second ahead of the message and the first among the fields.\<close>

lemma both_names_bound:
  "adopt_loop True [(ModuleKey, ''a''), (ModuleKey, ''b'')] 0 [(ModuleKey, ''a''), (ModuleKey, ''b'')] [] [(ModuleKey, ''a''), (ModuleKey, ''b'')]
   = (''b'', [(ModuleKey, ''a'')])"
  by (simp add: drop_at_def ModuleKey_def ComponentKey_def)

text \<open>A handled record keeps its level and attributes, and its message as a suffix; a prefix appears on the console only.\<close>

lemma handler_record_keeps:
  "lr_level (handler_record h r) = lr_level r" "lr_attrs (handler_record h r) = lr_attrs r"
  "\<exists>p. lr_message (handler_record h r) = p @ lr_message r"
  "\<not> lh_prefix h \<Longrightarrow> lr_message (handler_record h r) = lr_message r"
  "lr_pc (handler_record h r) = (if lh_caller h then lr_pc r else 0)"
  by (simp_all add: handler_record_def Let_def)

text \<open>
  A configuration that validates gets the encoder of the format it names: the default arm of \<open>encoder\<close> is reached
  by JSON alone.
\<close>

lemma validated_format_has_encoder:
  assumes "validateLog c = []" and "logging_New ParseLevel build (cfg_log c) = Inr (level, h)"
  shows "lh_next h = build level (encoder (to_lower (log_format (cfg_log c))))
    \<and> (encoder (to_lower (log_format (cfg_log c))) = JSONEncoder \<longleftrightarrow> to_lower (log_format (cfg_log c)) = ''json'')
    \<and> (lh_prefix h \<longleftrightarrow> to_lower (log_format (cfg_log c)) = ''console'')"
  using assms
  by (auto simp: validateLog_def logging_New_def Let_def encoder_def problem_def split: sum.splits if_splits)

end
