(* ===== verification/Janitor_Run.thy ===== *)
theory Janitor_Run
  imports Janitor_Safety Config_Safety
begin

text \<open>
  \<open>Janitor.Run\<close> (\<open>dispatch/janitor.go\<close>) on an ordinary or a partitioned table: three tickers, a first sample of the gauges, then one task per
  tick until the context ends.

  A run is given by the ticks it receives, each with everything its task meets, and by the statements of other parties
  between them.  \<open>time.NewTicker\<close> panics on an interval that is not positive.
\<close>

subsection \<open>Definitions\<close>

datatype janitor_tick =
    TickReclaim lock_env bool fault timestamptz "uuid list"
  | TickStats bool fault timestamptz
  | TickRetention lock_env bool sweep_env
  | Others "stmt list"

type_synonym janitor_result = "((locks \<times> outbox) \<times> housekeeping) option"

fun on_tick :: "store \<Rightarrow> janitor \<Rightarrow> janitor_tick \<Rightarrow> locks \<times> outbox \<Rightarrow> janitor_result" where
  "on_tick st j (TickReclaim le ctx_done f now locked) s = ReclaimExpired le ctx_done f now locked j s"
| "on_tick st j (TickStats ctx_done f now) s = Some (s, SampleStats ctx_done f now (contents (snd s)))"
| "on_tick st j (TickRetention le ctx_done se) s = Sweep le ctx_done se st j s"
| "on_tick st j (Others ss) s = Some ((fst s, run_outbox ss (snd s)), [], [])"

fun tick_loop :: "store \<Rightarrow> janitor \<Rightarrow> janitor_tick list \<Rightarrow> locks \<times> outbox \<Rightarrow> janitor_result" where
  "tick_loop st j [] s = Some (s, [], [])"
| "tick_loop st j (tick # ticks) s =
     (case on_tick st j tick s of
        None \<Rightarrow> None
      | Some (s1, evs1, errs1) \<Rightarrow>
          (case tick_loop st j ticks s1 of
             None \<Rightarrow> None
           | Some (s2, evs2, errs2) \<Rightarrow> Some (s2, evs1 @ evs2, errs1 @ errs2)))"

definition NewTicker :: "duration \<Rightarrow> unit go" where
  "NewTicker d = (if d \<le> 0 then Panic ''non-positive interval for NewTicker'' else Return ())"

text \<open>The first two arguments are what the first sample meets.\<close>

definition Janitor_Run :: "fault \<Rightarrow> timestamptz \<Rightarrow> janitor_tick list \<Rightarrow> store \<Rightarrow> janitor \<Rightarrow> locks \<times> outbox \<Rightarrow> janitor_result go" where
  "Janitor_Run f now ticks st j s =
     (case NewTicker (jc_reclaim_interval (j_cfg j)) of
        Panic p \<Rightarrow> Panic p
      | Return _ \<Rightarrow>
         (case NewTicker (jc_stats_interval (j_cfg j)) of
            Panic p \<Rightarrow> Panic p
          | Return _ \<Rightarrow>
             (case NewTicker (retentionInterval j) of
                Panic p \<Rightarrow> Panic p
              | Return _ \<Rightarrow> Return (tick_loop st j (TickStats False f now # ticks) s))))"

subsection \<open>Lemmas\<close>

text \<open>The statements a tick may run, and when its task is bound to return.\<close>

fun tick_stmt :: "janitor \<Rightarrow> janitor_tick \<Rightarrow> stmt \<Rightarrow> bool" where
  "tick_stmt j (TickReclaim _ _ _ now locked) s \<longleftrightarrow> s = SReclaim (nat (j_limit j)) now locked"
| "tick_stmt j (TickStats _ _ _) s \<longleftrightarrow> False"
| "tick_stmt j (TickRetention _ _ se) s \<longleftrightarrow> sweep_stmt (sw_purge se) (jc_retention (j_cfg j)) (jc_retention_batch (j_cfg j)) s"
| "tick_stmt j (Others ss) s \<longleftrightarrow> s \<in> set ss"

fun tick_calm :: "janitor_tick \<Rightarrow> bool" where
  "tick_calm (TickRetention _ _ se) = (\<exists>K. \<forall>k \<ge> K. pv_before (sw_purge se k) = [])"
| "tick_calm _ = True"

text \<open>
  What a tick leaves: the outbox after a history of such statements - except that a sweep of a partitioned
  table takes rows away by dropping partitions.
\<close>

fun tick_effect :: "janitor \<Rightarrow> janitor_tick \<Rightarrow> outbox \<Rightarrow> outbox \<Rightarrow> bool" where
  "tick_effect j (TickRetention le d se) (Partitioned ps) ob' \<longleftrightarrow>
     (\<exists>ps'. ob' = Partitioned ps' \<and> partitions_swept se (jc_retention (j_cfg j)) ps ps')"
| "tick_effect j tick ob ob' \<longleftrightarrow> (\<exists>ss. ob' = run_outbox ss ob \<and> list_all (tick_stmt j tick) ss)"

inductive housekept :: "janitor \<Rightarrow> janitor_tick list \<Rightarrow> outbox \<Rightarrow> outbox \<Rightarrow> bool" for j where
  Done: "housekept j [] ob ob"
| Tick: "tick_effect j tick ob ob1 \<Longrightarrow> housekept j ticks ob1 ob2 \<Longrightarrow> housekept j (tick # ticks) ob ob2"

lemma on_tick_effect:
  assumes "on_tick st j tick (ls, ob) = Some ((ls', ob'), out)"
  shows "tick_effect j tick ob ob'"
proof (cases tick)
  case (TickReclaim le d f now locked)
  with assms reclaim_is_history [of le d f now locked j ls ob ls' ob' out] show ?thesis
    by (auto simp: list_all_iff)
next
  case (TickRetention le d se)
  obtain evs errs where out: "out = (evs, errs)" by fastforce
  show ?thesis
  proof (cases ob)
    case (Plain t)
    with sweep_is_history [of le d se st j ls t ls' ob' evs errs] assms TickRetention out show ?thesis by (auto simp: list_all_iff)
  next
    case (Partitioned ps)
    with sweep_is_maintenance [of le d se st j ls ps ls' ob' out] assms TickRetention show ?thesis by auto
  qed
next
  case (Others ss)
  then have "ob' = run_outbox ss ob" "list_all (tick_stmt j tick) ss" using assms by (simp_all add: list_all_iff)
  then show ?thesis using Others by auto
qed (use assms in \<open>auto intro: exI [of _ "[]"]\<close>)

lemma stats_runs_nothing [simp]: "list_all (tick_stmt j (TickStats d f now)) ss \<longleftrightarrow> ss = []"
  by (cases ss) auto

lemma stats_effect: "tick_effect j (TickStats d f now) ob ob' \<Longrightarrow> ob' = ob"
  by (cases ob) (auto simp: run_parts_def)

lemma plain_tick_effect: "tick_effect j tick (Plain t) ob' \<Longrightarrow> \<exists>ss. ob' = Plain (run_stmts ss t) \<and> list_all (tick_stmt j tick) ss"
  by (cases tick) auto

lemma tick_effect_kind: "tick_effect j tick ob ob' \<Longrightarrow> is_partitioned ob' = is_partitioned ob"
  by (cases tick; cases ob) auto

lemma plain_housekept:
  assumes "housekept j ticks ob ob'" and "ob = Plain t"
  shows "\<exists>ss. ob' = Plain (run_stmts ss t) \<and> list_all (\<lambda>s. \<exists>tick \<in> set ticks. tick_stmt j tick s) ss"
  using assms
proof (induction arbitrary: t rule: housekept.induct)
  case (Done ob)
  then show ?case by (auto intro: exI [of _ "[]"])
next
  case (Tick tick ob ob1 ticks ob2)
  from plain_tick_effect [of j tick t ob1] Tick(1,4) obtain ss1
    where s1: "ob1 = Plain (run_stmts ss1 t)" "list_all (tick_stmt j tick) ss1" by blast
  from Tick(3) [OF s1(1)] obtain ss2 where s2: "ob2 = Plain (run_stmts ss2 (run_stmts ss1 t))"
    "list_all (\<lambda>s. \<exists>tick \<in> set ticks. tick_stmt j tick s) ss2" by blast
  have "ob2 = Plain (run_stmts (ss1 @ ss2) t)" using s2(1) by (simp add: run_stmts_append)
  moreover have "list_all (\<lambda>s. \<exists>x \<in> set (tick # ticks). tick_stmt j x s) (ss1 @ ss2)"
    using s1(2) s2(2) by (auto simp: list_all_iff)
  ultimately show ?case by blast
qed

text \<open>An ordinary table that satisfies its constraints, and ticks whose sweeps meet an end of the others' writes.\<close>

definition sweepable :: "outbox \<Rightarrow> janitor_tick list \<Rightarrow> bool" where
  "sweepable ob ticks \<longleftrightarrow> is_partitioned ob \<or> (table_ok (contents ob) \<and> list_all tick_calm ticks)"

lemma on_tick_returns:
  assumes "sweepable ob [tick]" and "0 < jc_retention (j_cfg j) \<longrightarrow> 0 < jc_retention_batch (j_cfg j)"
  shows "on_tick st j tick (ls, ob) \<noteq> None"
proof (cases tick)
  case (TickReclaim le d f now locked)
  then show ?thesis by (auto simp: ReclaimExpired_def exclusive_eq reclaim_task_def split: prod.splits sum.splits bool.splits)
next
  case (TickRetention le d se)
  show ?thesis
  proof (cases ob)
    case (Plain t)
    with assms(1) TickRetention obtain K where "\<forall>k \<ge> K. pv_before (sw_purge se k) = []" "table_ok t"
      by (auto simp: sweepable_def)
    from sweep_returns [OF this(2) assms(2) this(1)] TickRetention Plain show ?thesis by simp
  qed (use TickRetention sweep_partitioned_returns in simp)
qed simp_all

lemma sweepable_step:
  assumes "sweepable ob (tick # ticks)" and "tick_effect j tick ob ob'"
  shows "sweepable ob' ticks"
proof (cases ob)
  case (Plain t)
  with plain_tick_effect assms obtain ss where "ob' = Plain (run_stmts ss t)" by blast
  then show ?thesis using assms(1) Plain run_ok by (auto simp: sweepable_def)
next
  case (Partitioned ps)
  then show ?thesis using tick_effect_kind [OF assms(2)] by (simp add: sweepable_def)
qed

lemma tick_loop_returns:
  assumes "sweepable ob ticks" and "0 < jc_retention (j_cfg j) \<longrightarrow> 0 < jc_retention_batch (j_cfg j)"
  shows "\<exists>ls' ob' evs errs. tick_loop st j ticks (ls, ob) = Some ((ls', ob'), evs, errs) \<and> housekept j ticks ob ob'"
  using assms(1)
proof (induction ticks arbitrary: ls ob)
  case Nil
  then show ?case by (auto intro: housekept.Done)
next
  case (Cons tick ticks)
  have "sweepable ob [tick]" using Cons.prems by (auto simp: sweepable_def)
  from on_tick_returns [OF this assms(2)] obtain ls1 ob1 evs1 errs1
    where o: "on_tick st j tick (ls, ob) = Some ((ls1, ob1), evs1, errs1)" by fastforce
  from on_tick_effect [OF this] have eff: "tick_effect j tick ob ob1" .
  obtain ls2 ob2 evs2 errs2 where r: "tick_loop st j ticks (ls1, ob1) = Some ((ls2, ob2), evs2, errs2)"
      "housekept j ticks ob1 ob2"
    using Cons.IH [OF sweepable_step [OF Cons.prems eff], of ls1] by blast
  have "tick_loop st j (tick # ticks) (ls, ob) = Some ((ls2, ob2), evs1 @ evs2, errs1 @ errs2)" using o r(1) by simp
  then show ?case using housekept.Tick [OF eff r(2)] by blast
qed

text \<open>An enabled janitor whose section of the configuration validates has intervals that tickers accept.\<close>

lemma validated_tickers:
  assumes "validateJanitor cfg = []" and "jc_enabled (cfg_janitor cfg)"
  shows "Janitor_Run f now ticks st (NewJanitor cfg) s = Return (tick_loop st (NewJanitor cfg) (TickStats False f now # ticks) s)"
    and "0 < jc_retention (j_cfg (NewJanitor cfg)) \<longrightarrow> 0 < jc_retention_batch (j_cfg (NewJanitor cfg))"
proof -
  have "0 < retentionInterval (NewJanitor cfg)" by (simp add: retentionInterval_def second_def)
  then show "Janitor_Run f now ticks st (NewJanitor cfg) s = Return (tick_loop st (NewJanitor cfg) (TickStats False f now # ticks) s)"
    using assms by (auto simp: validateJanitor_def Let_def problem_def NewJanitor_def Janitor_Run_def NewTicker_def split: if_splits)
  show "0 < jc_retention (j_cfg (NewJanitor cfg)) \<longrightarrow> 0 < jc_retention_batch (j_cfg (NewJanitor cfg))"
    using assms by (auto simp: validateJanitor_def Let_def problem_def NewJanitor_def split: if_splits)
qed

subsection \<open>Properties\<close>

text \<open>
  C22.  Housekeeping keeps running.  With a janitor section that validates, the loop never panics on its tickers and
  works off every sequence of ticks, whatever fails and whoever else holds the locks - on an ordinary table, which
  must satisfy its constraints, provided that others stop writing at some point within each sweep.  A tick changes the
  outbox only by the statement of a reclaim with the configured limit, by purges with the configured retention and batch
  size, and by what others do meanwhile.  On a partitioned table a sweep drops partitions instead: a row that was
  there before the sweep and is gone after it had been sent and was past the retention when its partition was
  checked, and no row is new but those that producers insert between a check and a drop.  The constraints of
  an ordinary table are kept.
\<close>

theorem housekeeping_keeps_running:
  assumes "validateJanitor cfg = []" and "jc_enabled (cfg_janitor cfg)" and "sweepable ob ticks"
  shows "\<exists>ls' ob' evs errs.
    Janitor_Run f now ticks st (NewJanitor cfg) (ls, ob) = Return (Some ((ls', ob'), evs, errs))
    \<and> housekept (NewJanitor cfg) ticks ob ob'
    \<and> (\<forall>t. ob = Plain t \<longrightarrow>
          (\<exists>t' ss. ob' = Plain t' \<and> table_ok t' \<and> t' = run_stmts ss t
             \<and> list_all (\<lambda>s. \<exists>tick \<in> set ticks. tick_stmt (NewJanitor cfg) tick s) ss))"
proof -
  let ?j = "NewJanitor cfg"
  have "sweepable ob (TickStats False f now # ticks)" using assms(3) by (simp add: sweepable_def)
  from tick_loop_returns [OF this validated_tickers(2) [OF assms(1,2)]] obtain ls' ob' evs errs
    where r: "tick_loop st ?j (TickStats False f now # ticks) (ls, ob) = Some ((ls', ob'), evs, errs)"
      "housekept ?j (TickStats False f now # ticks) ob ob'" by blast
  from r(2) have h: "housekept ?j ticks ob ob'" by (cases rule: housekept.cases) (auto dest!: stats_effect)
  have "\<exists>t' ss. ob' = Plain t' \<and> table_ok t' \<and> t' = run_stmts ss t
      \<and> list_all (\<lambda>s. \<exists>tick \<in> set ticks. tick_stmt ?j tick s) ss" if "ob = Plain t" for t
    using plain_housekept [OF h that] assms(3) that run_ok by (auto simp: sweepable_def)
  with r(1) h show ?thesis unfolding validated_tickers(1) [OF assms(1,2)] by auto
qed

text \<open>A reclaim, a statement of another party, and a sweep whose lock is taken.\<close>

definition demo_ticks :: "janitor_tick list" where
  "demo_ticks = [TickReclaim demo_lock False NoFault 9000 [], Others [SPurge 1000 5 9000 []],
     TickRetention (demo_lock\<lparr>le_query := FailBefore IoEOF\<rparr>) False demo_sweep]"

theorem housekeeping_keeps_running_witness:
  "(\<exists>ls' t' evs errs. Janitor_Run NoFault 9000 demo_ticks demo_store (NewJanitor demo_settings) ([], Plain [demo_sent])
     = Return (Some ((ls', Plain t'), evs, errs)) \<and> table_ok t')
   \<and> (\<exists>ls' ob' evs errs. Janitor_Run NoFault 9000 demo_ticks demo_store (NewJanitor demo_settings) ([], Partitioned (demo_days demo_sent))
     = Return (Some ((ls', ob'), evs, errs)) \<and> housekept (NewJanitor demo_settings) demo_ticks (Partitioned (demo_days demo_sent)) ob')"
proof -
  have v: "validateJanitor demo_settings = []" "jc_enabled (cfg_janitor demo_settings)"
    by (simp_all add: validateJanitor_def demo_settings_def Let_def problem_def second_def)
  have "sweepable (Plain [demo_sent]) demo_ticks" "sweepable (Partitioned (demo_days demo_sent)) demo_ticks"
    using demo_simps(3) by (simp_all add: sweepable_def demo_ticks_def demo_sweep_def)
  from housekeeping_keeps_running [OF v this(1), of NoFault 9000 demo_store "[]"]
    housekeeping_keeps_running [OF v this(2), of NoFault 9000 demo_store "[]"]
  show ?thesis by auto
qed

end
