(* ===== verification/Config_Dsn.thy ===== *)
theory Config_Dsn
  imports Config_Brokers
begin

text \<open>
  \<open>DBConfig.ConnString\<close> (\<open>config/config.go\<close>): the connection URL built from the components, with the escaping of
  \<open>net/url\<close> as it applies to user information, host, path and query.  This is the function \<open>url_string\<close> that \<open>ConnString\<close>
  of \<open>Config_Brokers\<close> takes.
\<close>

subsection \<open>Definitions\<close>

datatype url_part = UserPart | HostPart | PathPart | QueryPart

definition is_alnum :: "char \<Rightarrow> bool" where
  "is_alnum c \<longleftrightarrow> is_lower c \<or> is_upper c \<or> is_digit c"

definition should_escape :: "url_part \<Rightarrow> char \<Rightarrow> bool" where
  "should_escape part c =
     (if is_alnum c then False
      else if part = HostPart \<and> c \<in> set (CHR 0x22 # ''!$&'' @ [CHR 0x27] @ ''()*+,;=:[]<>'') then False
      else if c \<in> set ''-_.~'' then False
      else if c \<in> set ''$&+,/:;=?@'' then
        (case part of UserPart \<Rightarrow> c \<in> set ''@/?:'' | PathPart \<Rightarrow> c = CHR ''?'' | QueryPart \<Rightarrow> True | HostPart \<Rightarrow> True)
      else True)"

definition upper_hex :: "nat \<Rightarrow> char" where
  "upper_hex n = ''0123456789ABCDEF'' ! n"

definition escape_char :: "url_part \<Rightarrow> char \<Rightarrow> string" where
  "escape_char part c =
     (if part = QueryPart \<and> c = CHR '' '' then ''+''
      else if should_escape part c then [CHR ''%'', upper_hex (of_char c div 16), upper_hex (of_char c mod 16)]
      else [c])"

definition url_escape :: "url_part \<Rightarrow> string \<Rightarrow> string" where
  "url_escape part s = concat (map (escape_char part) s)"

definition JoinHostPort :: "string \<Rightarrow> string \<Rightarrow> string" where
  "JoinHostPort host port = (if CHR '':'' \<in> set host then ''['' @ host @ '']:'' @ port else host @ '':'' @ port)"

definition conn_url :: "db_config \<Rightarrow> string" where
  "conn_url c =
     ''postgres://'' @ url_escape UserPart (db_user c) @ '':'' @ url_escape UserPart (db_password c) @ ''@''
     @ url_escape HostPart (JoinHostPort (db_host c) (itoa (db_port c)))
     @ url_escape PathPart (''/'' @ db_name c)
     @ (if db_ssl_mode c = [] then [] else ''?sslmode='' @ url_escape QueryPart (db_ssl_mode c))"

subsection \<open>Reading a URL back\<close>

text \<open>
  A reference reader: the query after the first question mark, the authority up to the first slash, the user
  information up to the at sign, the password after the first colon, and percent-decoding of each part.
\<close>

definition hex_value :: "char \<Rightarrow> nat" where
  "hex_value c = (if is_digit c then of_char c - 48 else of_char c - 55)"

fun url_unescape :: "bool \<Rightarrow> string \<Rightarrow> string" where
  "url_unescape q (c # s) =
     (if c = CHR ''%'' then
        (case s of a # b # s' \<Rightarrow> char_of (hex_value a * 16 + hex_value b) # url_unescape q s' | _ \<Rightarrow> c # s)
      else if q \<and> c = CHR ''+'' then CHR '' '' # url_unescape q s
      else c # url_unescape q s)"
| "url_unescape q [] = []"

definition cut_at :: "char \<Rightarrow> string \<Rightarrow> string \<times> string option" where
  "cut_at x s = (let a = takeWhile (\<lambda>c. c \<noteq> x) s in (a, if length a < length s then Some (drop (Suc (length a)) s) else None))"

record dsn_parts =
  dp_user :: string
  dp_password :: string
  dp_host :: string
  dp_database :: string
  dp_ssl_mode :: "string option"

definition read_dsn :: "string \<Rightarrow> dsn_parts option" where
  "read_dsn dsn =
     (if \<not> has_prefix dsn ''postgres://'' then None
      else
        (let (main, query) = cut_at (CHR ''?'') (drop 11 dsn);
             (authority, path) = cut_at (CHR ''/'') main;
             (info, host) = cut_at (CHR ''@'') authority;
             (user, password) = cut_at (CHR '':'') info in
         case (password, host, path) of
           (Some pw, Some h, Some p) \<Rightarrow>
             Some \<lparr>dp_user = url_unescape False user, dp_password = url_unescape False pw, dp_host = url_unescape False h,
               dp_database = url_unescape False p, dp_ssl_mode = map_option (\<lambda>q. url_unescape True (drop 8 q)) query\<rparr>
         | _ \<Rightarrow> None))"

subsection \<open>Lemmas\<close>

lemma hex_digits: "n < 16 \<Longrightarrow> hex_value (upper_hex n) = n \<and> upper_hex n \<notin> set ''%?/@:+''"
proof -
  have "list_all (\<lambda>n. hex_value (upper_hex n) = n \<and> upper_hex n \<notin> set ''%?/@:+'') [0..<16]" by code_simp
  then show "n < 16 \<Longrightarrow> hex_value (upper_hex n) = n \<and> upper_hex n \<notin> set ''%?/@:+''" by (simp add: list_all_iff)
qed

lemma char_of_halves: "char_of ((of_char c :: nat) div 16 * 16 + of_char c mod 16) = (c :: char)"
  by simp

lemma halves_small: "(of_char (c :: char) :: nat) div 16 < 16" "(of_char (c :: char) :: nat) mod 16 < 16"
  using nat_of_char_less_256 [of c] by (simp_all add: less_mult_imp_div_less)

lemma percent_escaped: "should_escape part (CHR ''%'')"
  by (cases part) (simp_all add: should_escape_def is_alnum_def is_lower_def is_upper_def is_digit_def)

lemma unescape_escape_char:
  "url_unescape (part = QueryPart) (escape_char part c @ s) = c # url_unescape (part = QueryPart) s"
proof (cases "should_escape part c")
  case True
  then show ?thesis
    using hex_digits [OF halves_small(1)] hex_digits [OF halves_small(2)] char_of_halves [of c] by (auto simp: escape_char_def)
next
  case False
  then have "c \<noteq> CHR ''%''" using percent_escaped by metis
  moreover have "c \<noteq> CHR ''+''" if "part = QueryPart"
    using False that by (auto simp: should_escape_def is_alnum_def is_lower_def is_upper_def is_digit_def)
  moreover have "c \<noteq> CHR '' ''" if "part = QueryPart"
    using False that by (auto simp: should_escape_def is_alnum_def is_lower_def is_upper_def is_digit_def)
  ultimately show ?thesis using False by (simp add: escape_char_def)
qed

lemma unescape_escape: "url_unescape (part = QueryPart) (url_escape part s) = s"
  by (induction s) (simp_all add: url_escape_def unescape_escape_char)

text \<open>The separators of a URL do not occur in the parts they end.\<close>

lemma escape_char_avoids:
  assumes "should_escape part x" and "x \<in> set ''?/@:''"
  shows "x \<notin> set (escape_char part c)"
proof -
  have "x \<noteq> CHR ''%''" "x \<noteq> CHR ''+''" using assms(2) by auto
  then show ?thesis
    using assms hex_digits [OF halves_small(1), of c] hex_digits [OF halves_small(2), of c] by (auto simp: escape_char_def)
qed

lemma escape_avoids: "should_escape part x \<Longrightarrow> x \<in> set ''?/@:'' \<Longrightarrow> x \<notin> set (url_escape part s)"
  using escape_char_avoids by (auto simp: url_escape_def)

lemma separators_escaped:
  "x \<in> set ''?/@:'' \<Longrightarrow> should_escape UserPart x" "x \<in> set ''?/@'' \<Longrightarrow> should_escape HostPart x" "should_escape PathPart (CHR ''?'')"
  by (auto simp: should_escape_def is_alnum_def is_lower_def is_upper_def is_digit_def)

lemma cut_at_append: "x \<notin> set a \<Longrightarrow> cut_at x (a @ x # b) = (a, Some b)"
  by (simp add: cut_at_def Let_def takeWhile_append)

lemma cut_at_none: "x \<notin> set a \<Longrightarrow> cut_at x a = (a, None)"
proof -
  assume "x \<notin> set a"
  then have all: "takeWhile (\<lambda>c. c \<noteq> x) a = a" by (auto simp: takeWhile_eq_all_conv)
  show ?thesis unfolding cut_at_def Let_def all by simp
qed

lemma escape_slash: "url_escape PathPart (CHR ''/'' # s) = CHR ''/'' # url_escape PathPart s"
  by (simp add: url_escape_def escape_char_def should_escape_def is_alnum_def is_lower_def is_upper_def is_digit_def)

text \<open>
  Components reach the database as they were configured: whatever a user name, password, database name or SSL mode
  contains, reading the URL gives exactly them and the host and port; none can reach into another.
\<close>

lemma read_conn_url:
  assumes "db_dsn c = []"
  shows "read_dsn (ConnString conn_url c) = Some \<lparr>dp_user = db_user c, dp_password = db_password c,
    dp_host = JoinHostPort (db_host c) (itoa (db_port c)), dp_database = db_name c,
    dp_ssl_mode = (if db_ssl_mode c = [] then None else Some (db_ssl_mode c))\<rparr>"
proof -
  let ?u = "url_escape UserPart (db_user c)" and ?p = "url_escape UserPart (db_password c)"
  let ?h = "url_escape HostPart (JoinHostPort (db_host c) (itoa (db_port c)))" and ?n = "url_escape PathPart (db_name c)"
  let ?q = "if db_ssl_mode c = [] then [] else CHR ''?'' # ''sslmode='' @ url_escape QueryPart (db_ssl_mode c)"
  let ?info = "?u @ CHR '':'' # ?p" and ?auth = "?u @ CHR '':'' # ?p @ CHR ''@'' # ?h"
  let ?main = "?auth @ CHR ''/'' # ?n"
  have dsn: "ConnString conn_url c = ''postgres://'' @ ?main @ ?q"
    using assms by (simp add: ConnString_def conn_url_def escape_slash)
  have q: "cut_at (CHR ''?'') (?main @ ?q) = (?main, if db_ssl_mode c = [] then None else Some (''sslmode='' @ url_escape QueryPart (db_ssl_mode c)))"
  proof -
    have "CHR ''?'' \<notin> set ?main" using escape_avoids separators_escaped by simp
    then show ?thesis using cut_at_append [of _ ?main] cut_at_none [of _ ?main] by (cases "db_ssl_mode c = []") simp_all
  qed
  have a: "cut_at (CHR ''/'') ?main = (?auth, Some ?n)"
    using escape_avoids separators_escaped by (intro cut_at_append) simp
  have i: "cut_at (CHR ''@'') ?auth = (?info, Some ?h)"
    using escape_avoids separators_escaped cut_at_append [of "CHR ''@''" ?info ?h] by simp
  have u: "cut_at (CHR '':'') ?info = (?u, Some ?p)"
    using escape_avoids separators_escaped by (intro cut_at_append) simp
  note un = unescape_escape [of UserPart, simplified] unescape_escape [of HostPart, simplified]
    unescape_escape [of PathPart, simplified] unescape_escape [of QueryPart, simplified]
  have "drop 11 (ConnString conn_url c) = ?main @ ?q" "has_prefix (ConnString conn_url c) ''postgres://''"
    by (simp_all add: dsn del: append_assoc append_Cons)
  then show ?thesis unfolding read_dsn_def by (simp add: q a i u un del: append_assoc append_Cons)
qed

end
