(* ===== verification/System_Run.thy ===== *)
theory System_Run
  imports Store_Retry Dispatch_Run Janitor_Run Client_Enqueue Cmd_Outbox
begin

text \<open>
  The whole deployment on one ordinary table, as the migrations create it (a partitioned one is the subject of
  \<open>Store_Partition\<close> and \<open>Janitor_Run\<close>): producers, the cycles of any number of replicas, their janitors, the HTTP API
  and the command line, in any order.  Each party is the model of its own theory; what they do is
  shown to be histories of the store's statements, so that every invariant of rows (\<open>row_invariant\<close>) holds of the whole.
\<close>

subsection \<open>Definitions\<close>

text \<open>
  A statement that some party may send: negative acknowledges carry the limits of its configuration, and purges its
  retention, if it has one.  Replicas may differ in their configuration, as during a rollout.
\<close>

fun system_stmt :: "config set \<Rightarrow> stmt \<Rightarrow> bool" where
  "system_stmt cfgs (SNack token ma ins md now) \<longleftrightarrow>
     (\<exists>cfg \<in> cfgs. ma = dc_max_attempts (cfg_dispatch cfg) \<and> md = dc_max_defer (cfg_dispatch cfg))"
| "system_stmt cfgs (SPurge retention limit now locked) \<longleftrightarrow>
     (\<exists>cfg \<in> cfgs. retention = jc_retention (cfg_janitor cfg) \<and> 0 < retention)"
| "system_stmt cfgs s \<longleftrightarrow> True"

fun tick_others :: "janitor_tick \<Rightarrow> stmt set" where
  "tick_others (TickRetention le d se) = (\<Union>k. set (pv_before (sw_purge se k)))"
| "tick_others (Others ss) = set ss"
| "tick_others _ = {}"

inductive system_step :: "config set \<Rightarrow> table \<Rightarrow> table \<Rightarrow> bool" for cfgs where
  Enqueued: "client_Enqueue env f v7 now msg t = (t', e) \<Longrightarrow> system_step cfgs t t'"
| EnqueuedBatch: "client_EnqueueBatch env fs v7s now msgs t = (t', e) \<Longrightarrow> system_step cfgs t t'"
| EnqueuedSql: "sql_Enqueue env f v7 now msg t = (t', e) \<Longrightarrow> system_step cfgs t t'"
| EnqueuedSqlBatch: "sql_EnqueueBatch env fs v7s now msgs t = (t', e) \<Longrightarrow> system_step cfgs t t'"
| Dispatched: "RunOnce ce p t = Return (t', res, e, ev) \<Longrightarrow> cycle_ok ce p t \<Longrightarrow> cfg \<in> cfgs \<Longrightarrow> p_cfg p = cfg_dispatch cfg \<Longrightarrow>
    (\<And>s. s \<in> ce_others ce \<Longrightarrow> system_stmt cfgs s) \<Longrightarrow> system_step cfgs t t'"
| Housekept: "on_tick st (NewJanitor cfg) tick (ls, Plain t) = Some ((ls', Plain t'), out) \<Longrightarrow> cfg \<in> cfgs \<Longrightarrow>
    (\<And>s. s \<in> tick_others tick \<Longrightarrow> system_stmt cfgs s) \<Longrightarrow> system_step cfgs t t'"
| Requested: "serve_http m env r t = (t', answer) \<Longrightarrow> system_step cfgs t t'"
| Commanded: "run_cmd env args d = Some (Return (d', c)) \<Longrightarrow> (\<And>as. command_of args \<noteq> RunServer as) \<Longrightarrow>
    da_table d = t \<Longrightarrow> da_table d' = t' \<Longrightarrow> system_step cfgs t t'"

inductive system_reach :: "config set \<Rightarrow> table \<Rightarrow> table \<Rightarrow> bool" for cfgs t where
  Start: "system_reach cfgs t t"
| Step: "system_reach cfgs t t1 \<Longrightarrow> system_step cfgs t1 t2 \<Longrightarrow> system_reach cfgs t t2"

subsection \<open>Every party writes histories\<close>

definition by_system :: "config set \<Rightarrow> table \<Rightarrow> table \<Rightarrow> bool" where
  "by_system cfgs t t' \<longleftrightarrow> (\<exists>ss. t' = run_stmts ss t \<and> (\<forall>s \<in> set ss. system_stmt cfgs s))"

lemma by_system_refl [simp]: "by_system cfgs t t"
  unfolding by_system_def by (intro exI [of _ "[]"]) simp

lemma by_system_exec: "system_stmt cfgs s \<Longrightarrow> by_system cfgs t (exec s t)"
  unfolding by_system_def by (intro exI [of _ "[s]"]) simp

lemma by_system_trans: "by_system cfgs t t1 \<Longrightarrow> by_system cfgs t1 t2 \<Longrightarrow> by_system cfgs t t2"
  unfolding by_system_def by (metis Un_iff run_stmts_append set_append)

lemma exec_insert_by_system: "exec_insert env now a t = Inr (t', u) \<Longrightarrow> by_system cfgs t t'"
proof -
  assume "exec_insert env now a t = Inr (t', u)"
  then obtain i p where "insert_stmt (insert_row now i (ia_stream a) (ia_topic a) p (ia_headers a) (ia_target a)
      (map_option (de_time env) (ia_available_at a))) t = Some t'"
    by (auto simp: exec_insert_def Let_def split: sum.splits option.splits)
  then have "t' = exec (SInsert now i (ia_stream a) (ia_topic a) p (ia_headers a) (ia_target a)
      (map_option (de_time env) (ia_available_at a))) t" by simp
  then show ?thesis using by_system_exec [of cfgs "SInsert now i (ia_stream a) (ia_topic a) p (ia_headers a) (ia_target a)
      (map_option (de_time env) (ia_available_at a))" t] by simp
qed

lemma insert_query_by_system: "query f (exec_insert env now a t) t = (t', res) \<Longrightarrow> by_system cfgs t t'"
  by (auto simp: query_def intro: exec_insert_by_system split: fault.splits sum.splits prod.splits)

lemma enqueue_by_system: "client_Enqueue env f v7 now msg t = (t', e) \<Longrightarrow> by_system cfgs t t'"
  by (auto simp: client_Enqueue_def intro: insert_query_by_system split: sum.splits prod.splits)

lemma send_batch_by_system: "send_batch env fs now n i as t = (t', e) \<Longrightarrow> by_system cfgs t t'"
  by (induction env fs now n i as t arbitrary: t' e rule: send_batch.induct)
    (auto intro: insert_query_by_system by_system_trans split: sum.splits prod.splits)

lemma sql_batch_by_system: "sql_batch_loop env fs v7 now n i msgs t = (t', e) \<Longrightarrow> by_system cfgs t t'"
  by (induction env fs v7 now n i msgs t arbitrary: t' e rule: sql_batch_loop.induct)
    (auto simp: sql_Enqueue_client intro: enqueue_by_system by_system_trans split: option.splits prod.splits)

lemma cycle_by_system:
  assumes "RunOnce ce p t = Return (t', res, e, ev)" and "cycle_ok ce p t" and "cfg \<in> cfgs" and "p_cfg p = cfg_dispatch cfg"
    and "\<And>s. s \<in> ce_others ce \<Longrightarrow> system_stmt cfgs s"
  shows "by_system cfgs t t'"
proof -
  have "system_stmt cfgs s" if "own_stmt ce p msgs s" for msgs s using that assms(3,4) by (auto simp: own_stmt_def)
  then show ?thesis using RunOnce_stmts [OF assms(1,2)] assms(5) unfolding by_system_def by metis
qed

lemma tick_by_system:
  assumes "on_tick st (NewJanitor cfg) tick (ls, Plain t) = Some ((ls', Plain t'), out)" and "cfg \<in> cfgs"
    and "\<And>s. s \<in> tick_others tick \<Longrightarrow> system_stmt cfgs s"
  shows "by_system cfgs t t'"
proof (cases "\<exists>le d se. tick = TickRetention le d se \<and> jc_retention (cfg_janitor cfg) \<le> 0")
  case True
  then have "t' = t" using assms(1) by (auto simp: Sweep_def NewJanitor_def)
  then show ?thesis by simp
next
  case False
  then have "system_stmt cfgs s" if "tick_stmt (NewJanitor cfg) tick s" for s
    using that assms(2,3) by (cases tick) (auto simp: sweep_stmt_def NewJanitor_def)
  then show ?thesis
    using plain_tick_effect [OF on_tick_effect [OF assms(1)]] unfolding by_system_def list_all_iff by (metis outbox.inject(1))
qed

lemma requeue_by_system: "table_ok t \<Longrightarrow> requeue_effect now t t' \<Longrightarrow> by_system cfgs t t'"
  using requeue_effect_history by_system_exec system_stmt.simps by metis

lemma step_by_system: "system_step cfgs t t' \<Longrightarrow> table_ok t \<Longrightarrow> by_system cfgs t t'"
proof (induction rule: system_step.induct)
  case (EnqueuedBatch env fs v7s now msgs t t' e)
  then show ?case by (auto simp: client_EnqueueBatch_def intro: send_batch_by_system split: if_splits sum.splits)
next
  case (Commanded env args d d' c t t')
  then show ?case using command_effects [OF Commanded(1)] requeue_by_system by blast
qed (auto simp: sql_Enqueue_client sql_EnqueueBatch_def intro: enqueue_by_system sql_batch_by_system cycle_by_system tick_by_system
    requeue_by_system serve_http_effect)

lemma reach_by_system:
  assumes "system_reach cfgs t t'" and "table_ok t"
  shows "table_ok t' \<and> by_system cfgs t t'"
  using assms
proof (induction rule: system_reach.induct)
  case (Step t1 t2)
  then have "by_system cfgs t1 t2" using step_by_system by blast
  then have "table_ok t2" using Step run_ok unfolding by_system_def by blast
  then show ?case using Step \<open>by_system cfgs t1 t2\<close> by_system_trans by blast
qed simp

subsection \<open>Invariants of rows hold of the whole\<close>

context row_invariant
begin

lemma keeps_system:
  assumes "system_reach cfgs t t'" and "table_ok t" and "\<forall>r \<in> set t. P r" and "\<And>s. system_stmt cfgs s \<Longrightarrow> allowed s"
  shows "\<forall>r \<in> set t'. P r"
proof -
  obtain ss where "t' = run_stmts ss t" "\<forall>s \<in> set ss. system_stmt cfgs s"
    using reach_by_system [OF assms(1,2)] unfolding by_system_def by blast
  then show ?thesis using keeps_run [OF assms(2,3)] assms(4) by blast
qed

end

lemma budget_allows:
  "system_stmt cfgs s \<Longrightarrow> (\<And>cfg. cfg \<in> cfgs \<Longrightarrow> dc_max_attempts (cfg_dispatch cfg) \<le> m) \<Longrightarrow> nacks_with_budget m s"
  by (cases s) auto

subsection \<open>Properties\<close>

text \<open>
  C4.  The deployment keeps its promises, on an ordinary table.  From a table within its constraints and the
  number \<open>m\<close> of attempts, which no configuration in the deployment exceeds, whatever producers, replicas, janitors and operators do
  in whatever order, statement by statement, and whatever fails meanwhile: the constraints hold, no
  message is charged more than \<open>m\<close> attempts and one that still waits has at least one left, only waiting messages
  carry the deferral marker, and a message that is gone was sent, and longer ago than the
  retention of some configuration of the deployment, which has it switched on.
\<close>

theorem deployment_keeps_promises:
  assumes "system_reach cfgs t t'" and "table_ok t" and "1 \<le> m"
    and "\<forall>cfg \<in> cfgs. dc_max_attempts (cfg_dispatch cfg) \<le> m"
    and "\<forall>r \<in> set t. within_budget m r" and "\<forall>r \<in> set t. deferred_is_live r"
  shows "table_ok t' \<and> (\<forall>r \<in> set t'. within_budget m r \<and> deferred_is_live r)
    \<and> (\<exists>ss. t' = run_stmts ss t \<and> (\<forall>i r. row_of i t = Some r \<longrightarrow> row_of i t' = None \<longrightarrow>
          (\<exists>cfg pre limit now locked post r1. cfg \<in> cfgs \<and> 0 < jc_retention (cfg_janitor cfg)
             \<and> ss = pre @ SPurge (jc_retention (cfg_janitor cfg)) limit now locked # post
             \<and> row_of i (run_stmts pre t) = Some r1 \<and> r_status r1 = StatusSent
             \<and> purgeable (jc_retention (cfg_janitor cfg)) now locked r1)))"
proof -
  obtain ss where ss: "t' = run_stmts ss t" "\<forall>s \<in> set ss. system_stmt cfgs s" and ok: "table_ok t'"
    using reach_by_system [OF assms(1,2)] unfolding by_system_def by blast
  have "\<exists>cfg pre limit now locked post r1. cfg \<in> cfgs \<and> 0 < jc_retention (cfg_janitor cfg)
      \<and> ss = pre @ SPurge (jc_retention (cfg_janitor cfg)) limit now locked # post
      \<and> row_of i (run_stmts pre t) = Some r1 \<and> r_status r1 = StatusSent
      \<and> purgeable (jc_retention (cfg_janitor cfg)) now locked r1"
    if "row_of i t = Some r" "row_of i t' = None" for i r
  proof -
    have "row_of i (run_stmts ss t) = None" using that(2) ss(1) by simp
    from deleted_was_sent [OF assms(2) that(1) this] obtain pre s post r1 retention limit now locked
      where d: "ss = pre @ s # post" "s = SPurge retention limit now locked" "row_of i (run_stmts pre t) = Some r1"
        "r_status r1 = StatusSent" "purgeable retention now locked r1" by blast
    have "system_stmt cfgs (SPurge retention limit now locked)" using ss(2) d(1,2) by simp
    then obtain cfg where "cfg \<in> cfgs" "retention = jc_retention (cfg_janitor cfg)" "0 < jc_retention (cfg_janitor cfg)" by auto
    then show ?thesis using d(1) d(3-5) unfolding d(2) by blast
  qed
  moreover have "\<forall>r \<in> set t'. within_budget m r"
    using budget.keeps_system [OF assms(1,2,5)] assms(3,4) budget_allows by blast
  moreover have "\<forall>r \<in> set t'. deferred_is_live r" using backlog.keeps_system [OF assms(1,2,6)] by blast
  ultimately show ?thesis using ok ss(1) by blast
qed

theorem deployment_keeps_promises_witness:
  "\<exists>t'. system_reach {demo_config} [demo_row] t' \<and> r_status (hd t') = StatusSent \<and> table_ok t'"
proof -
  obtain res ev where r: "RunOnce (demo_cycle None NoFault) demo_pipeline [demo_row]
     = Return ([ack_set 3000 (claim_set 2000 ''tok1'' (120 * second) ''pod-a'' demo_row)], res, None, Some ev)"
    using demo_cycle_sent by blast
  let ?t = "[ack_set 3000 (claim_set 2000 ''tok1'' (120 * second) ''pod-a'' demo_row)]"
  have cfg: "p_cfg demo_pipeline = cfg_dispatch demo_config" by (simp add: demo_pipeline_def demo_config_def)
  have "system_step {demo_config} [demo_row] ?t"
    by (rule system_step.Dispatched [OF r demo_cycle_ok _ cfg]) (simp_all add: demo_others)
  then have reach: "system_reach {demo_config} [demo_row] ?t" by (rule system_reach.Step [OF system_reach.Start])
  have "table_ok ?t"
    using deployment_keeps_promises [OF reach, of "dc_max_attempts demo_dispatch"]
    by (simp add: demo_config_def demo_dispatch_def within_budget_def deferred_is_live_def)
  moreover have "r_status (hd ?t) = StatusSent" by (simp add: ack_set_def)
  ultimately show ?thesis using reach by blast
qed

end
