(* ===== verification/Store_Concurrency.thy ===== *)
theory Store_Concurrency
  imports Store_Safety
begin

text \<open>
  Histories in which a bulk requeue is not one step.

  \<open>requeue_failed_before\<close> (\<open>0004_deferral.sql\<close>) reads the identifiers of failed rows in a subselect that locks nothing, and
  its UPDATE asks for nothing but membership in them.  Under READ COMMITTED a row that another
  transaction has changed in between is updated all the same: the identifiers are those of the statement's snapshot.  So
  the statement is two events, a selection by a session and a later write of what it selected.  Every other
  statement either locks what it selects (\<open>FOR UPDATE SKIP LOCKED\<close>) or has its own condition on the row it
  writes, and is one event.
\<close>

subsection \<open>Definitions\<close>

datatype event =
    Whole stmt
  | BulkSelect nat timestamptz nat
  | BulkWrite nat timestamptz

text \<open>The table, and what the bulk requeue of each session has selected and not yet written.\<close>

type_synonym conc_state = "table \<times> (nat \<Rightarrow> uuid list)"

fun conc_step :: "event \<Rightarrow> conc_state \<Rightarrow> conc_state" where
  "conc_step (Whole s) (t, sel) = (exec s t, sel)"
| "conc_step (BulkSelect k before limit) (t, sel) = (t, sel(k := failed_before_ids before limit t))"
| "conc_step (BulkWrite k now) (t, sel) = (fst (requeue_before_write (sel k) now t), sel(k := []))"

definition run_events :: "event list \<Rightarrow> conc_state \<Rightarrow> conc_state" where
  "run_events es s = fold conc_step es s"

text \<open>A failed message, for the examples.\<close>

definition demo_failed :: row where
  "demo_failed = demo_row\<lparr>r_status := StatusFailed, r_attempts := 10\<rparr>"

subsection \<open>Lemmas\<close>

lemma run_events_simps [simp]:
  "run_events [] s = s" "run_events (e # es) s = run_events es (conc_step e s)"
  by (simp_all add: run_events_def)

text \<open>Nothing in between: the two events are the statement.\<close>

lemma bulk_at_once:
  "fst (run_events [BulkSelect k before limit, BulkWrite k now] (t, sel)) = exec (SRequeueBefore before limit now) t"
  by (simp add: requeue_before_stmt_def)

lemma conc_step_ok: "table_ok t \<Longrightarrow> table_ok (fst (conc_step e (t, sel)))"
proof (cases e)
  case (BulkWrite k now)
  moreover assume "table_ok t"
  ultimately show ?thesis by (simp add: requeue_before_write_def requeue_before_upd.update_ok)
qed (simp_all add: exec_ok del: exec.simps)

lemma leased_not_failed:
  assumes "table_ok t" and "row_of i t = Some r" and "r_lease_token r = Some token"
  shows "i \<notin> set (failed_before_ids before limit t)"
proof
  assume i: "i \<in> set (failed_before_ids before limit t)"
  have r: "r \<in> set t" "r_id r = i" using row_of_SomeD [OF assms(2)] by auto
  then have "failed_before before r" using failed_before_idsD [OF assms(1) r(1)] i by simp
  then show False using held_processing [OF table_okD [OF assms(1) r(1)] assms(3)] by (simp add: failed_before_def)
qed

lemma conc_step_spares:
  assumes "table_ok t" and "row_of i t = Some r" and "r_lease_token r = Some token" and "r_lease_until r = Some until"
    and "\<forall>k. i \<notin> set (sel k)" and "\<And>s. e = Whole s \<Longrightarrow> spares token until s" and "conc_step e (t, sel) = (t', sel')"
  shows "row_of i t' = Some r \<and> (\<forall>k. i \<notin> set (sel' k))"
proof (cases e)
  case (Whole s)
  have "row_of i (run_stmts [s] t) = Some r" using assms(1-4,6) Whole by (intro row_of_run_spares) auto
  then show ?thesis using Whole assms(5,7) by simp
next
  case (BulkSelect k before limit)
  then show ?thesis using assms(2,5,7) leased_not_failed [OF assms(1-3)] by (auto split: if_splits)
next
  case (BulkWrite k now)
  have "r_id r = i" using row_of_SomeD [OF assms(2)] by simp
  then show ?thesis using BulkWrite assms(2,5,7)
    by (auto simp: requeue_before_write_def requeue_before_upd.row_of_update id_in_def split: if_splits)
qed

lemma run_events_spares:
  assumes "table_ok t" and "row_of i t = Some r" and "r_lease_token r = Some token" and "r_lease_until r = Some until"
    and "\<forall>k. i \<notin> set (sel k)" and "\<forall>s. Whole s \<in> set es \<longrightarrow> spares token until s"
  shows "row_of i (fst (run_events es (t, sel))) = Some r"
  using assms
proof (induction es arbitrary: t sel)
  case (Cons e es)
  obtain t1 sel1 where s: "conc_step e (t, sel) = (t1, sel1)" by fastforce
  have "row_of i t1 = Some r \<and> (\<forall>k. i \<notin> set (sel1 k))"
    using Cons.prems by (intro conc_step_spares [OF _ _ _ _ _ _ s]) auto
  moreover have "table_ok t1" using conc_step_ok [OF Cons.prems(1), of e sel] s by simp
  ultimately show ?case using Cons.IH [of t1 sel1] Cons.prems s by simp
qed simp

text \<open>
  Without that condition a lease can be taken away.  Two bulk requeues select the same failed row; the first
  writes it, a replica claims it, and the write of the second strips the live lease: the row is pending again while
  its message is being published.
\<close>

lemma late_requeue_takes_lease:
  "let before = run_events [BulkSelect 1 9000 10, BulkSelect 2 9000 10, BulkWrite 1 2000,
         Whole (SClaim ''local'' 10 ''tok1'' 60000000000 ''pod-a'' 3000 [])] ([demo_failed], (\<lambda>_. []));
       after = run_events [BulkWrite 2 4000] before in
   map r_lease_token (fst before) = [Some ''tok1''] \<and> map r_lease_until (fst before) = [Some 60003000]
   \<and> map r_lease_token (fst after) = [None] \<and> map r_status (fst after) = [StatusPending]"
  by code_simp

subsection \<open>Properties\<close>

text \<open>
  C1.  A leased row is untouchable.  While a row is leased, no history of statements - claims and
  reclaims of any replica, write-backs under any other token, requeues, purges, inserts, and bulk requeues that
  select and write at different moments - changes it in any column, as long as nobody presents the lease's token, no reclaim
  runs at or after \<open>lease_until\<close>, and no bulk requeue that has yet to write selected the row before it was
  leased.  This is what makes running several replicas safe; the last condition is needed
  (\<open>late_requeue_takes_lease\<close>).
\<close>

theorem leased_row_is_exclusive:
  assumes "table_ok t"
    and "row_of i t = Some r" and "r_lease_token r = Some token" and "r_lease_until r = Some until"
    and "\<forall>k. i \<notin> set (sel k)" and "\<forall>s. Whole s \<in> set es \<longrightarrow> spares token until s"
  shows "row_of i (fst (run_events es (t, sel))) = Some r"
  using assms by (rule run_events_spares)

theorem leased_row_is_exclusive_witness:
  "row_of ''m1'' (fst (run_events [BulkSelect 1 9000 10, Whole (SReclaim 100 5000 []), Whole (SAck [''m1''] ''tok2'' 5000),
      Whole (SRequeue [''m1''] 5001), BulkWrite 1 5002, Whole (SPurge 0 10 6000 [])] ([demo_leased], \<lambda>_. []))) = Some demo_leased"
  by (rule leased_row_is_exclusive [where token = "''tok1''" and until = 60002000]) auto

end
