(* ===== verification/Spec2Isabelle.thy ===== *)
theory Spec2Isabelle
  imports Dispatch_Run Store_Partition Janitor_Safety Dispatch_Listener Dispatch_DeadLetter Config_Safety
    Broker_Drivers Client_Enqueue App_Api Observability_Metrics Migrate_Safety Time_Facts Cmd_Outbox
    App_Modules Broker_Channels Tracing_Spans Events_Emitter Logging_Handler Janitor_Run Config_Dsn System_Run Store_Concurrency
begin

text \<open>
  go-outbox, a transactional-outbox dispatcher in Go, as a shallow embedding in HOL.

  \<^bold>\<open>The program.\<close>  A producer inserts a message into the outbox table in the transaction of its own
  business change (\<open>pkg/outboxclient\<close>, \<open>pkg/outboxsql\<close>).  Every replica of the dispatcher runs one pipeline
  per stream (\<open>internal/dispatch/pipeline.go\<close>): it claims due rows under a lease
  (\<open>internal/store\<close>), publishes them through the router (\<open>internal/broker\<close>) to RabbitMQ, Kafka or another
  PostgreSQL table, and writes the outcome back, which the database accepts only from the holder of the
  lease's token.  A janitor (\<open>dispatch/janitor.go\<close>) takes back expired leases, purges what was sent and
  maintains partitions, one replica at a time under advisory locks; a listener
  (\<open>dispatch/listener.go\<close>) turns notifications into wake-ups; a dead-letter forwarder
  (\<open>dispatch/deadletter.go\<close>) republishes what failed; an HTTP API (\<open>internal/app\<close>) shows and requeues failures.
  All of it is configured from the environment (\<open>internal/config\<close>).

  \<^bold>\<open>The theories\<close>, in the order they build on each other:

  \<^item> \<open>Outbox_Prelude\<close>, \<open>Go_Errors\<close>: named collections of facts, integers and strings of Go, lists; error
    values, wrapping, \<open>errors.Is\<close> and \<open>errors.As\<close> (\<open>core/errors.go\<close>).
  \<^item> \<open>Core_Message\<close>, \<open>Core_Backoff\<close>: \<open>core/message.go\<close>, the JSONB columns, \<open>core/backoff.go\<close> with the rounding of
    float64.
  \<^item> \<open>Store_Sql\<close>: the table of \<open>migrations/0001_messages.sql\<close> as a list of rows and every statement of
    \<open>store/queries.go\<close> and of the requeue functions as a function on it.  \<open>Store_Facts\<close> has the locale
    \<open>update_stmt\<close>, the contract of a statement that updates selected rows, interpreted for each of them.
    \<open>Store_History\<close> makes statements data and a run of any number of replicas a list of them;
    \<open>Store_Safety\<close> and \<open>Store_Retry\<close> prove what every history keeps: leases exclude, stale write-backs do
    nothing, only sent rows are deleted, the life cycle, the retry budget.  \<open>Store_Retry\<close> has the locale \<open>row_invariant\<close>, the
    contract of an invariant of rows under the statements a party may send.
  \<^item> \<open>Store_Ops\<close>, \<open>Store_Claim\<close>, \<open>Store_Partition\<close>: the methods of \<open>store/store.go\<close> and \<open>store/partition.go\<close>
    with database failures before and after the commit.
  \<^item> \<open>Config_Types\<close>, \<open>Config_Parse\<close>, \<open>Config_Validate\<close>, \<open>Config_Brokers\<close>, \<open>Config_Safety\<close>: \<open>internal/config\<close>,
    from the text of the environment to a validated configuration; validation is equivalent to a declarative
    predicate, a loaded routing table is closed, and identifiers that reach SQL text are harmless.
    \<open>Config_Dsn\<close>: the connection URL and its escaping; its components read back unchanged.
  \<^item> \<open>Broker_Router\<close>: \<open>broker/broker.go\<close> and the locale \<open>publisher\<close>, the contract of a driver.  \<open>Broker_Classify\<close>:
    the locale \<open>classifier\<close>, the contract of an error classification.  \<open>Broker_Kafka\<close>, \<open>Broker_RabbitMQ\<close>,
    \<open>Broker_Postgres\<close> model the drivers and interpret both; \<open>Broker_Drivers\<close> collects what follows.
    \<open>Broker_Channels\<close> is the pool of AMQP channels under any interleaving, a step relation with its invariant.
  \<^item> \<open>Dispatch_Breaker\<close>, \<open>Dispatch_Publish\<close>, \<open>Dispatch_Pipeline\<close>: the circuit breaker, the concurrent publish,
    and \<open>RunOnce\<close> as a function of the table and of everything the process does not decide
    (\<open>cycle_env\<close>: clocks, failures, answers, and the statements of other parties between its own).
    \<open>Pipeline_Facts\<close>, \<open>Pipeline_Safety\<close>, \<open>Pipeline_Outcome\<close>: a cycle refines a history of statements, marks
    sent only what the broker accepted, leaves nothing leased, and settles each message.
    \<open>Dispatch_Run\<close>: the loop \<open>Run\<close> as a step relation, with its invariants and wake-ups.
  \<^item> \<open>Dispatch_Janitor\<close>, \<open>Janitor_Facts\<close>, \<open>Janitor_Safety\<close>, \<open>Janitor_Run\<close>: locks, reclaim and retention, several replicas as
    a step relation, and the ticker loop; mutual exclusion, termination and completeness of a sweep, refinement of histories.
  \<^item> \<open>Dispatch_Listener\<close>, \<open>Dispatch_DeadLetter\<close>: wake-ups and reconnection; forwarding of failures.
  \<^item> \<open>Client_Enqueue\<close>: both producer clients, their agreement, and the round trip from \<open>Enqueue\<close> to \<open>Claim\<close>.
  \<^item> \<open>App_Api\<close>: routes, guards and handlers of \<open>app/http.go\<close> and \<open>app/api.go\<close>; paging is complete and only the
    holder of the token changes rows.
  \<^item> \<open>Observability_Metrics\<close>: the metric set and its observers (\<open>internal/observability\<close>); labels are bounded by the
    configuration and the counters balance over every sequence of events.
  \<^item> \<open>Store_Migrate\<close>, \<open>Migrate_Safety\<close>: the migrations (\<open>store/migrate\<close>), one run under any failure and several replicas as a
    step relation; scripts run once, in order, and are recorded in their own transaction.
  \<^item> \<open>Go_Format\<close>, \<open>Time_Facts\<close>: flags, numbers, widths and times of the standard library; the calendar is sound, so
    partition names differ and printed times read back.  \<open>Cmd_Outbox\<close>: the command line (\<open>cmd/outbox\<close>) and the loaders
    of \<open>config/load.go\<close>; the administrative commands agree with the API.
  \<^item> \<open>App_Modules\<close>: the modules of \<open>internal/app\<close> with their hooks and dependencies, the connection pool
    (\<open>store/pool.go\<close>); every admissible order of starting brings up the whole process.
  \<^item> \<open>Tracing_Spans\<close>, \<open>Events_Emitter\<close>, \<open>Logging_Handler\<close>: \<open>internal/tracing\<close>, \<open>internal/events\<close> and
    \<open>internal/logging\<close> around the libraries they call: a consumer continues the span of its own message, the metrics see every event that is emitted,
    a log record keeps what it carries.
  \<^item> \<open>System_Run\<close>: producers, replicas, janitors, API and command line together on one table, as a step relation over
    the models above; each party writes histories of statements, so every \<open>row_invariant\<close> holds of the whole deployment.
  \<^item> this theory: the property that spans producer, store, pipeline and broker.

  \<^bold>\<open>Conventions.\<close>  A struct is a record whose fields carry a prefix, an enum a datatype, an error a value of
  type \<open>err\<close>, \<open>(T, error)\<close> a sum, a panic a value of type \<open>go\<close>.  A Go string is its bytes; a map is an association
  list with distinct keys.  Durations and times are integers of nanoseconds, database times of
  microseconds; \<open>wrap64\<close> and the INTEGER range are written out where a computation can leave them.
  Code outside the repository (client libraries, the database server, certificate parsers) appears as
  arguments or as fields of an environment record, and a property that needs something of it says so in a
  hypothesis.  Configuration values are left arbitrary unless a property assumes what validation ensures.

  \<^bold>\<open>Bounds.\<close>  Recursion is structural or has a measure except in three places.  \<open>sweep_loop\<close>, which may run for
  as long as others keep writing, is a partial function into \<open>option\<close>, and \<open>sweep_returns\<close> shows when it
  returns; \<open>all_pages\<close> takes fuel, and one more than the number of rows is shown to be enough;
  reconnection loops are given the list of attempts that take place.

  \<^bold>\<open>Not modelled.\<close>  The libraries: appmod, which orders, starts and stops modules, the bus behind the emitter,
  OpenTelemetry's exporters and sampling, the log encoders, the client libraries of the brokers and the
  database driver.  They hold no state of the messages beyond what the arguments of the model show.
  Of the program itself: options that only configure a library (timeouts of the HTTP servers, queue size
  of the bus, attributes of the exporter's resource), usage texts, JSON encoding of responses, and the \<open>net/url\<close> parsing
  behind \<open>redactDSN\<close>, which is an argument.  Reading \<open>.env\<close> files and the process environment is an argument of the loader.
\<close>

subsection \<open>Definitions\<close>

text \<open>The message of the demonstration row, as a producer writes it.\<close>

definition demo_written :: client_message where
  "demo_written = \<lparr>cm_id = ''m1'', cm_stream = ''local'', cm_topic = ''orders'', cm_payload = Some ''x'',
     cm_headers = None, cm_target = zero_target, cm_available_at = None\<rparr>"

subsection \<open>Lemmas\<close>

lemma demo_enqueued: "client_Enqueue demo_driver NoFault (Inl IoEOF) 1000 demo_written [] = ([demo_row], None)"
  by (simp add: client_Enqueue_def client_prepare_def demo_written_def demo_driver_def query_def exec_insert_def
      client_args_def insert_stmt_def Let_def demo_row_def marshal_target_def encode_target_def zero_target_def)

subsection \<open>Properties\<close>

text \<open>
  C7.  From the producer to the broker.  When \<open>Enqueue\<close> returns nil for a message, its transaction
  commits, and a cycle of the message's stream that nothing disturbs, whose claim is not full and does
  not come before \<open>AvailableAt\<close>, reports no error, then the claimed batch contains exactly what the
  producer wrote, with no attempt spent on it.  Unless the cycle did not get to it, the message is put
  to the router as it was written - with tracing, under the headers of its span and otherwise as it
  was written - and the result recorded for it is the answer the router gave in its place.  The
  row ends unleased, where that answer sends it: sent if the message was accepted, failed or waiting for a
  retry or for the broker otherwise; and pending as before if the cycle did not get to it.
\<close>

theorem enqueued_message_is_dispatched:
  assumes "client_Enqueue env f v7 now msg t = (t1, None)" and "table_ok t" and "storable msg"
    and "cm_payload msg = Some pay" and bytea_faithful: "de_bytea env (Some pay) = Some pay"
    and "p_stream p = cm_stream msg" and "RunOnce ce p t1 = Return (t2, res, None, Some ev)"
    and "cycle_ok ce p t1" and "undisturbed ce" and "snd (cycle_claim ce p t1) = Inr msgs"
    and "int (length msgs) < dc_batch_size (p_cfg p)" and "ce_locked ce = []"
    and "(case cm_available_at msg of None \<Rightarrow> now | Some a \<Rightarrow> de_time env a) \<le> ce_claim_now ce"
  shows "\<exists>i j r r'. j < length msgs \<and> msgs ! j = as_written i now pay msg
    \<and> row_of i t1 = Some r \<and> r_attempts r = 0 \<and> row_of i t2 = Some r' \<and> r_lease_token r' = None
    \<and> (if snd (publish (ce_publish ce) (dc_workers (p_cfg p)) msgs) \<le> j
       then r_status r' = StatusPending \<and> r_attempts r' = 0
       else answered_for (ce_publish ce) (dc_workers (p_cfg p)) msgs j
              (offered_as (ce_publish ce) (as_written i now pay msg)) (it_publishes ev ! j)
            \<and> settled_as ce p (as_written i now pay msg) (it_publishes ev ! j) r r')"
proof -
  obtain s i r where "(if cm_id msg = [] then v7 else Inr (cm_id msg)) = Inr s" "de_uuid env s = Inr i"
    and t1: "t1 = t @ [r]" and ok: "table_ok t1" and r: "r_id r = i" "r_attempts r = 0"
    and scan: "scan_message r = Inr (as_written i now pay msg)"
    and due: "\<forall>later locked. (case cm_available_at msg of None \<Rightarrow> now | Some a \<Rightarrow> de_time env a) \<le> later \<longrightarrow>
        i \<notin> set locked \<longrightarrow> claim_due (cm_stream msg) later locked r"
    using assms(1-4) bytea_faithful by (rule enqueued_row)
  obtain t' where claim: "cycle_claim ce p t1 = (t', Inr msgs)" using assms(10) by (metis prod.collapse)
  have mem: "r \<in> set t1" by (simp add: t1)
  have "claim_due (p_stream p) (ce_claim_now ce) (ce_locked ce) r" using due assms(6,12,13) by simp
  then have "as_written i now pay msg \<in> set msgs"
    using Claim_includes [OF ok claim [unfolded cycle_claim_def] _ mem _ scan] assms(11) by simp
  then obtain j where j: "j < length msgs" "msgs ! j = as_written i now pay msg" by (metis in_set_conv_nth)
  have id: "m_id (msgs ! j) = i" by (simp add: j(2) as_written_def)
  have row: "row_of i t1 = Some r" using row_of_in [OF ok mem] r(1) by simp
  from message_settles [OF ok assms(7-10) j(1)] row obtain r' where
    "row_of i t2 = Some r'" "r_lease_token r' = None"
    "if snd (publish (ce_publish ce) (dc_workers (p_cfg p)) msgs) \<le> j
     then r_status r' = StatusPending \<and> r_attempts r' = r_attempts r \<and> r_available_at r' = ce_release_now ce
     else settled_as ce p (msgs ! j) (it_publishes ev ! j) r r'"
    unfolding id by auto
  with j row r(2) message_offered [OF ok assms(7-10) j(1)] show ?thesis
    by (intro exI [of _ i] exI [of _ j] exI [of _ r] exI [of _ r']) (simp split: if_splits)
qed

text \<open>One message enqueued into an empty table, claimed, put to the broker and accepted.\<close>

theorem enqueued_message_is_dispatched_witness:
  "\<exists>t2 res ev r'. client_Enqueue demo_driver NoFault (Inl IoEOF) 1000 demo_written [] = ([demo_row], None)
    \<and> RunOnce (demo_cycle None NoFault) demo_pipeline [demo_row] = Return (t2, res, None, Some ev)
    \<and> answered_for (ce_publish (demo_cycle None NoFault)) (dc_workers (p_cfg demo_pipeline)) [demo_message] 0
        (as_written ''m1'' 1000 ''x'' demo_written) (it_publishes ev ! 0)
    \<and> row_of ''m1'' t2 = Some r' \<and> r_lease_token r' = None"
proof -
  let ?ce = "demo_cycle None NoFault" and ?m = "as_written ''m1'' 1000 ''x'' demo_written"
  obtain res ev where c: "RunOnce ?ce demo_pipeline [demo_row]
     = Return ([ack_set 3000 (claim_set 2000 ''tok1'' (120 * second) ''pod-a'' demo_row)], res, None, Some ev)"
    (is "_ = Return (?t2, _)")
    using demo_cycle_sent by blast
  have st: "storable demo_written" by code_simp
  have u: "undisturbed ?ce" by (simp add: undisturbed_def demo_cycle_def)
  have m: "snd (cycle_claim ?ce demo_pipeline [demo_row]) = Inr [demo_message]" by (simp add: demo_cycle_claim)
  have att: "\<not> snd (publish (ce_publish ?ce) (dc_workers (p_cfg demo_pipeline)) [demo_message]) \<le> 0"
    by (simp add: demo_cycle_publish)
  have off: "offered_as (ce_publish ?ce) m = m" for m by (simp add: offered_as_def demo_cycle_def)
  have "\<exists>i j r r'. j < length [demo_message] \<and> [demo_message] ! j = as_written i 1000 ''x'' demo_written
    \<and> row_of i [demo_row] = Some r \<and> r_attempts r = 0 \<and> row_of i ?t2 = Some r' \<and> r_lease_token r' = None
    \<and> (if snd (publish (ce_publish ?ce) (dc_workers (p_cfg demo_pipeline)) [demo_message]) \<le> j
       then r_status r' = StatusPending \<and> r_attempts r' = 0
       else answered_for (ce_publish ?ce) (dc_workers (p_cfg demo_pipeline)) [demo_message] j
              (offered_as (ce_publish ?ce) (as_written i 1000 ''x'' demo_written)) (it_publishes ev ! j)
            \<and> settled_as ?ce demo_pipeline (as_written i 1000 ''x'' demo_written) (it_publishes ev ! j) r r')"
    by (rule enqueued_message_is_dispatched [OF demo_enqueued _ st _ _ _ c demo_cycle_ok u m])
      (simp_all add: table_ok_def demo_written_def demo_driver_def demo_pipeline_def demo_dispatch_def demo_cycle_def)
  then obtain i r' where i: "demo_message = as_written i 1000 ''x'' demo_written"
    and r: "row_of i ?t2 = Some r'" "r_lease_token r' = None"
    and a: "answered_for (ce_publish ?ce) (dc_workers (p_cfg demo_pipeline)) [demo_message] 0
      (as_written i 1000 ''x'' demo_written) (it_publishes ev ! 0)"
    using att unfolding off by auto
  from i have "i = ''m1''" by (simp add: as_written_def demo_message_def)
  with demo_enqueued c r a show ?thesis by blast
qed

end
